theory Spec2Isabelle
  imports Complex_Main "HOL-Library.Sublist"
begin

section \<open>Data model of the pipe client (PipeClient.h)\<close>

text \<open>
  \<^verbatim>\<open>struct PipeResponse\<close>. The \<^verbatim>\<open>float\<close> score is kept abstract: the type \<open>'f\<close> only
  needs a zero, the value \<^verbatim>\<open>0.0f\<close> the code assigns. The default member initialisers
  (\<^verbatim>\<open>index = -1\<close>, \<^verbatim>\<open>score = 0.0f\<close>, \<^verbatim>\<open>shoutPower = 0\<close>, empty strings) are
  \<open>PipeResponse_init\<close>.
\<close>

record 'f PipeResponse =
  index :: int
  score :: 'f
  type :: string
  trigKind :: string
  trigText :: string
  shoutPlugin :: string
  shoutFormID :: string
  shoutPower :: int
  powerFormID :: string
  itemFormID :: string

definition PipeResponse_init :: "('f::zero) PipeResponse" where
  "PipeResponse_init =
     \<lparr>index = - 1, score = 0, type = [], trigKind = [], trigText = [],
      shoutPlugin = [], shoutFormID = [], shoutPower = 0, powerFormID = [], itemFormID = []\<rparr>"

record ShoutEntry =
  plugin :: string
  formIdHex :: string
  name :: string
  editorID :: string

record PowerEntry =
  power_formIdHex :: string
  power_name :: string

record ItemEntry =
  item_formIdHex :: string
  item_name :: string

text \<open>
  The private members of \<^verbatim>\<open>class PipeClient\<close>, one field each and under the source's
  names. \<open>pipe\<close> records whether the handle \<^verbatim>\<open>_pipe\<close> is non-null; the thread object, the
  \<^verbatim>\<open>_running\<close> flag and the three mutexes carry no data of their own.
\<close>

record 'f PipeClient =
  connected :: bool
  pipe :: bool
  recvBuf :: string
  pendingOptions :: "string list option"
  pendingFavorites :: "string list option"
  pendingClose :: bool
  pendingListen :: "bool option"
  pendingListenVoiceHandle :: "bool option"
  desiredGameLang :: "string option"
  desiredCfgOpen :: "bool option"
  desiredCfgClose :: "bool option"
  desiredCfgVoiceHandle :: "bool option"
  desiredCfgDebug :: "bool option"
  desiredCfgSaveWav :: "bool option"
  desiredCfgDialogueSelect :: "bool option"
  desiredCfgWeapons :: "bool option"
  desiredCfgSpells :: "bool option"
  desiredCfgPowers :: "bool option"
  desiredCfgPotions :: "bool option"
  lastSentCfgOpen :: "bool option"
  lastSentCfgClose :: "bool option"
  lastSentCfgVoiceHandle :: "bool option"
  lastSentCfgDebug :: "bool option"
  lastSentCfgSaveWav :: "bool option"
  lastSentCfgDialogueSelect :: "bool option"
  lastSentCfgWeapons :: "bool option"
  lastSentCfgSpells :: "bool option"
  lastSentCfgPowers :: "bool option"
  lastSentCfgPotions :: "bool option"
  lastSentGameLang :: "string option"
  responses :: "'f PipeResponse list"
  connEvent :: "bool option"

text \<open>The state of a freshly constructed client (\<^verbatim>\<open>PipeClient() = default\<close>).\<close>

definition PipeClient_init :: "'f PipeClient" where
  "PipeClient_init =
     \<lparr>connected = False, pipe = False, recvBuf = [],
      pendingOptions = None, pendingFavorites = None, pendingClose = False,
      pendingListen = None, pendingListenVoiceHandle = None, desiredGameLang = None,
      desiredCfgOpen = None, desiredCfgClose = None, desiredCfgVoiceHandle = None,
      desiredCfgDebug = None, desiredCfgSaveWav = None, desiredCfgDialogueSelect = None,
      desiredCfgWeapons = None, desiredCfgSpells = None, desiredCfgPowers = None,
      desiredCfgPotions = None,
      lastSentCfgOpen = None, lastSentCfgClose = None, lastSentCfgVoiceHandle = None,
      lastSentCfgDebug = None, lastSentCfgSaveWav = None, lastSentCfgDialogueSelect = None,
      lastSentCfgWeapons = None, lastSentCfgSpells = None, lastSentCfgPowers = None,
      lastSentCfgPotions = None, lastSentGameLang = None,
      responses = [], connEvent = None\<rparr>"


section \<open>The response queue\<close>

text \<open>
  The deposit that \<^verbatim>\<open>ProcessIncoming\<close> performs under \<^verbatim>\<open>_respMutex\<close>, the same three
  lines for RES, TRIG and DBG:
  \<^verbatim>\<open>_responses.push_back(resp); if (_responses.size() > 128) _responses.pop_front();\<close>
\<close>

definition push_response :: "'a \<Rightarrow> 'a list \<Rightarrow> 'a list" where
  "push_response resp q = (let q1 = q @ [resp] in if length q1 > 128 then tl q1 else q1)"

definition deposit :: "'f PipeResponse \<Rightarrow> 'f PipeClient \<Rightarrow> 'f PipeClient" where
  "deposit resp s = s\<lparr>responses := push_response resp (responses s)\<rparr>"

text \<open>\<^verbatim>\<open>PipeClient::ConsumeLastResponse\<close>: the front of the deque, or \<^verbatim>\<open>nullopt\<close>.\<close>

definition ConsumeLastResponse :: "'f PipeClient \<Rightarrow> 'f PipeResponse option \<times> 'f PipeClient" where
  "ConsumeLastResponse s =
     (case responses s of
        [] \<Rightarrow> (None, s)
      | r # rest \<Rightarrow> (Some r, s\<lparr>responses := rest\<rparr>))"

text \<open>
  Both operations run under \<^verbatim>\<open>_respMutex\<close>, so a history of the queue is an interleaving
  of whole deposits (engine thread) and whole pops (consumer thread).
\<close>

datatype 'f queue_op = Deposit "'f PipeResponse" | Consume

fun queue_step :: "'f queue_op \<Rightarrow> 'f PipeClient \<Rightarrow> 'f PipeClient" where
  "queue_step (Deposit r) s = deposit r s"
| "queue_step Consume s = snd (ConsumeLastResponse s)"

fun queue_run :: "'f queue_op list \<Rightarrow> 'f PipeClient \<Rightarrow> 'f PipeClient" where
  "queue_run [] s = s"
| "queue_run (x # xs) s = queue_run xs (queue_step x s)"

definition deposit_all :: "'f PipeResponse list \<Rightarrow> 'f PipeClient \<Rightarrow> 'f PipeClient" where
  "deposit_all rs s = queue_run (map Deposit rs) s"


section \<open>Properties of the response queue\<close>

lemma push_response_length: "length q \<le> 128 \<Longrightarrow> length (push_response r q) \<le> 128"
  by (simp add: push_response_def Let_def)

lemma push_response_full: "length q = 128 \<Longrightarrow> push_response r q = tl q @ [r]"
  by (cases q) (simp_all add: push_response_def Let_def)

lemma push_response_room: "length q < 128 \<Longrightarrow> push_response r q = q @ [r]"
  by (simp add: push_response_def Let_def)

lemma queue_step_bounded:
  "length (responses s) \<le> 128 \<Longrightarrow> length (responses (queue_step x s)) \<le> 128"
  by (cases x)
     (auto simp: deposit_def ConsumeLastResponse_def push_response_length split: list.splits)

lemma queue_run_bounded:
  "length (responses s) \<le> 128 \<Longrightarrow> length (responses (queue_run ops s)) \<le> 128"
  by (induction ops arbitrary: s) (simp_all add: queue_step_bounded)

lemma push_response_drop:
  "push_response r (drop (length xs - 128) xs) = drop (length (xs @ [r]) - 128) (xs @ [r])"
proof (cases "length xs < 128")
  case True
  then show ?thesis by (simp add: push_response_def Let_def)
next
  case False
  then have "length (drop (length xs - 128) xs) = 128" by simp
  then have "push_response r (drop (length xs - 128) xs) = tl (drop (length xs - 128) xs) @ [r]"
    by (rule push_response_full)
  also have "\<dots> = drop (Suc (length xs - 128)) xs @ [r]"
    by (simp add: drop_Suc tl_drop)
  also have "\<dots> = drop (length (xs @ [r]) - 128) (xs @ [r])"
  proof -
    have "Suc (length xs - 128) = length (xs @ [r]) - 128"
      using False by simp
    then show ?thesis
      using False by simp
  qed
  finally show ?thesis .
qed

lemma deposit_all_snoc: "deposit_all (rs @ [r]) s = deposit r (deposit_all rs s)"
  unfolding deposit_all_def by (induction rs arbitrary: s) simp_all

lemma deposit_all_responses:
  "responses s = [] \<Longrightarrow> responses (deposit_all rs s) = drop (length rs - 128) rs"
proof (induction rs rule: rev_induct)
  case Nil
  then show ?case by (simp add: deposit_all_def)
next
  case (snoc r rs)
  then have "responses (deposit_all rs s) = drop (length rs - 128) rs"
    by simp
  then show ?case
    by (simp add: deposit_all_snoc deposit_def push_response_drop del: length_append)
qed

text \<open>
  C4. Starting from the empty queue, no history of deposits and pops leaves more than 128
  messages; a deposit into a full queue drops exactly the front entry and appends the new
  one; 200 deposits with no pop in between leave the last 128 of them in their order; and
  the pop hands out the front (oldest) entry and removes it.
\<close>

theorem response_queue_bounded_fifo:
  "(responses s = [] \<longrightarrow> length (responses (queue_run ops s)) \<le> 128)
   \<and> (length (responses s) = 128 \<longrightarrow>
        responses (deposit r s) = tl (responses s) @ [r])
   \<and> (length (responses s) < 128 \<longrightarrow> responses (deposit r s) = responses s @ [r])
   \<and> (responses s = [] \<and> length rs = 200 \<longrightarrow>
        responses (deposit_all rs s) = drop 72 rs
        \<and> length (responses (deposit_all rs s)) = 128
        \<and> fst (ConsumeLastResponse (deposit_all rs s)) = Some (rs ! 72))
   \<and> (responses s = [] \<longrightarrow> fst (ConsumeLastResponse s) = None \<and> snd (ConsumeLastResponse s) = s)
   \<and> (responses s \<noteq> [] \<longrightarrow>
        fst (ConsumeLastResponse s) = Some (hd (responses s))
        \<and> responses (snd (ConsumeLastResponse s)) = tl (responses s))"
proof -
  have a: "responses s = [] \<longrightarrow> length (responses (queue_run ops s)) \<le> 128"
    by (simp add: queue_run_bounded)
  have b: "length (responses s) = 128 \<longrightarrow> responses (deposit r s) = tl (responses s) @ [r]"
    by (simp add: deposit_def push_response_full)
  have c: "length (responses s) < 128 \<longrightarrow> responses (deposit r s) = responses s @ [r]"
    by (simp add: deposit_def push_response_room)
  have d: "responses s = [] \<and> length rs = 200 \<longrightarrow>
        responses (deposit_all rs s) = drop 72 rs
        \<and> length (responses (deposit_all rs s)) = 128
        \<and> fst (ConsumeLastResponse (deposit_all rs s)) = Some (rs ! 72)"
  proof (intro impI, elim conjE)
    assume e: "responses s = []" and l: "length rs = 200"
    have r: "responses (deposit_all rs s) = drop 72 rs"
      using deposit_all_responses [OF e, of rs] l by simp
    have "drop 72 rs = rs ! 72 # drop 73 rs"
      using l Cons_nth_drop_Suc [of 72 rs] by simp
    then have "fst (ConsumeLastResponse (deposit_all rs s)) = Some (rs ! 72)"
      using r by (simp add: ConsumeLastResponse_def)
    then show "responses (deposit_all rs s) = drop 72 rs
        \<and> length (responses (deposit_all rs s)) = 128
        \<and> fst (ConsumeLastResponse (deposit_all rs s)) = Some (rs ! 72)"
      using r l by simp
  qed
  have e: "responses s = [] \<longrightarrow> fst (ConsumeLastResponse s) = None \<and> snd (ConsumeLastResponse s) = s"
    by (simp add: ConsumeLastResponse_def)
  have f: "responses s \<noteq> [] \<longrightarrow>
        fst (ConsumeLastResponse s) = Some (hd (responses s))
        \<and> responses (snd (ConsumeLastResponse s)) = tl (responses s)"
    by (cases "responses s") (simp_all add: ConsumeLastResponse_def)
  from a b c d e f show ?thesis by blast
qed

text \<open>
  The theorem at the fresh client: messages numbered 0 to 199 are deposited with no pop;
  numbers 72 to 199 remain, and the pop returns number 72.
\<close>

theorem response_queue_bounded_fifo_witness:
  "responses (PipeClient_init :: int PipeClient) = []
   \<and> length (map (\<lambda>i. PipeResponse_init\<lparr>index := int i\<rparr>) [0..<200] :: int PipeResponse list) = 200
   \<and> length (responses (queue_run [Deposit PipeResponse_init, Consume, Consume]
         (PipeClient_init :: int PipeClient))) \<le> 128
   \<and> responses (deposit_all (map (\<lambda>i. PipeResponse_init\<lparr>index := int i\<rparr>) [0..<200])
         (PipeClient_init :: int PipeClient))
       = map (\<lambda>i. PipeResponse_init\<lparr>index := int i\<rparr>) [72..<200]
   \<and> fst (ConsumeLastResponse (deposit_all (map (\<lambda>i. PipeResponse_init\<lparr>index := int i\<rparr>) [0..<200])
         (PipeClient_init :: int PipeClient)))
       = Some (PipeResponse_init\<lparr>index := 72\<rparr>)"
proof -
  have e: "responses (PipeClient_init :: int PipeClient) = []"
    by (simp add: PipeClient_init_def)
  have l: "length (map (\<lambda>i. PipeResponse_init\<lparr>index := int i\<rparr>) [0..<200] :: int PipeResponse list) = 200"
    by simp
  show ?thesis
    using e l
      response_queue_bounded_fifo [of "PipeClient_init :: int PipeClient"
        "[Deposit PipeResponse_init, Consume, Consume]" PipeResponse_init
        "map (\<lambda>i. PipeResponse_init\<lparr>index := int i\<rparr>) [0..<200]"]
    by (simp add: drop_map)
qed

section \<open>Producer-side operations\<close>

text \<open>
  The setters only assign under \<^verbatim>\<open>_sendMutex\<close>; the favorites batch is rendered to
  protocol lines by the caller's thread before it is stored.
\<close>

text \<open>
  \<^verbatim>\<open>SanitizeInPlace\<close> overwrites every line feed and carriage return with a space;
  \<^verbatim>\<open>SanitizeFavoriteField\<close> does that and then overwrites every \<open>|\<close> as well.
\<close>

definition SanitizeInPlace :: "string \<Rightarrow> string" where
  "SanitizeInPlace s = map (\<lambda>c. if c = CHR 0x0A \<or> c = CHR 0x0D then CHR '' '' else c) s"

definition SanitizeFavoriteField :: "string \<Rightarrow> string" where
  "SanitizeFavoriteField s =
     map (\<lambda>c. if c = CHR ''|'' then CHR '' '' else c) (SanitizeInPlace s)"

text \<open>
  The five loops of \<^verbatim>\<open>SendAllFavorites\<close>: the form id goes through \<^verbatim>\<open>SanitizeInPlace\<close>,
  every other field through \<^verbatim>\<open>SanitizeFavoriteField\<close>.
\<close>

definition shout_line :: "ShoutEntry \<Rightarrow> string" where
  "shout_line entry =
     ''FAV|SHOUT|'' @ SanitizeFavoriteField (plugin entry) @ ''|'' @ SanitizeInPlace (formIdHex entry)
       @ ''|'' @ SanitizeFavoriteField (name entry) @ ''|'' @ SanitizeFavoriteField (editorID entry)"

definition power_line :: "PowerEntry \<Rightarrow> string" where
  "power_line entry =
     ''FAV|POWER|'' @ SanitizeInPlace (power_formIdHex entry) @ ''|''
       @ SanitizeFavoriteField (power_name entry)"

definition weapon_line :: "ItemEntry \<Rightarrow> string" where
  "weapon_line entry =
     ''FAV|WEAPON|'' @ SanitizeInPlace (item_formIdHex entry) @ ''|''
       @ SanitizeFavoriteField (item_name entry)"

definition spell_line :: "ItemEntry \<Rightarrow> string" where
  "spell_line entry =
     ''FAV|SPELL|'' @ SanitizeInPlace (item_formIdHex entry) @ ''|''
       @ SanitizeFavoriteField (item_name entry)"

definition potion_line :: "ItemEntry \<Rightarrow> string" where
  "potion_line entry =
     ''FAV|POTION|'' @ SanitizeInPlace (item_formIdHex entry) @ ''|''
       @ SanitizeFavoriteField (item_name entry)"

definition favorites_lines ::
  "ShoutEntry list \<Rightarrow> PowerEntry list \<Rightarrow> ItemEntry list \<Rightarrow> ItemEntry list \<Rightarrow> ItemEntry list
     \<Rightarrow> string list" where
  "favorites_lines shouts powers weapons spells potions =
     [''FAV|BEGIN''] @ map shout_line shouts @ map power_line powers @ map weapon_line weapons
       @ map spell_line spells @ map potion_line potions @ [''FAV|END'']"

definition SendAllFavorites ::
  "ShoutEntry list \<Rightarrow> PowerEntry list \<Rightarrow> ItemEntry list \<Rightarrow> ItemEntry list \<Rightarrow> ItemEntry list
     \<Rightarrow> 'f PipeClient \<Rightarrow> 'f PipeClient" where
  "SendAllFavorites shouts powers weapons spells potions s =
     s\<lparr>pendingFavorites := Some (favorites_lines shouts powers weapons spells potions)\<rparr>"

text \<open>
  The only caller of \<^verbatim>\<open>SendAllFavorites\<close> is \<^verbatim>\<open>ScanAllFavorites\<close> (FavoritesWatcher.cpp),
  which builds every entry from a 32-bit form id: the form id text is \<open>0x\<close> followed by
  \<^verbatim>\<open>FormIDToHex\<close> of the id (ShoutsInternal.h), the upper-case hexadecimal digits written
  by \<^verbatim>\<open>std::hex\<close> and \<^verbatim>\<open>std::uppercase\<close>. For a shout the id is masked with
  \<^verbatim>\<open>0x00FFFFFF\<close> first. The id is given by its value.
\<close>

function FormIDToHex :: "nat \<Rightarrow> string" where
  "FormIDToHex n =
     (if n < 16 then [''0123456789ABCDEF'' ! n]
      else FormIDToHex (n div 16) @ [''0123456789ABCDEF'' ! (n mod 16)])"
  by pat_completeness auto
termination
  by (relation "measure id") auto

declare FormIDToHex.simps [simp del]

text \<open>The entries as the collectors of FavoritesWatcher.cpp fill them in.\<close>

definition shout_entry :: "string \<Rightarrow> nat \<Rightarrow> string \<Rightarrow> string \<Rightarrow> ShoutEntry" where
  "shout_entry pluginName fid nm editorId =
     \<lparr>plugin = pluginName, formIdHex = ''0x'' @ FormIDToHex (fid mod 16777216), name = nm,
      editorID = editorId\<rparr>"

definition power_entry :: "nat \<Rightarrow> string \<Rightarrow> PowerEntry" where
  "power_entry fid nm = \<lparr>power_formIdHex = ''0x'' @ FormIDToHex fid, power_name = nm\<rparr>"

definition item_entry :: "nat \<Rightarrow> string \<Rightarrow> ItemEntry" where
  "item_entry fid nm = \<lparr>item_formIdHex = ''0x'' @ FormIDToHex fid, item_name = nm\<rparr>"


text \<open>
  The reader of a favorites line is the companion process, which is not part of this
  repository. Its side of the wire format (section 4.1 of the specification) is taken as:
  cut the line at every \<open>|\<close> and look at the number of fields and the two leading tags.
\<close>

fun split_on :: "char \<Rightarrow> string \<Rightarrow> string list" where
  "split_on c [] = [[]]"
| "split_on c (x # xs) =
     (if x = c then [] # split_on c xs
      else (case split_on c xs of [] \<Rightarrow> [[x]] | y # ys \<Rightarrow> (x # y) # ys))"


datatype fav_line =
    FavBegin
  | FavShout string string string string
  | FavPower string string
  | FavWeapon string string
  | FavSpell string string
  | FavPotion string string
  | FavEnd
  | FavOther

definition recognize :: "string \<Rightarrow> fav_line" where
  "recognize line =
     (case split_on CHR ''|'' line of
        [a, b] \<Rightarrow> if a = ''FAV'' \<and> b = ''BEGIN'' then FavBegin
                  else if a = ''FAV'' \<and> b = ''END'' then FavEnd else FavOther
      | [a, b, f, n] \<Rightarrow>
          if a \<noteq> ''FAV'' then FavOther
          else if b = ''POWER'' then FavPower f n
          else if b = ''WEAPON'' then FavWeapon f n
          else if b = ''SPELL'' then FavSpell f n
          else if b = ''POTION'' then FavPotion f n
          else FavOther
      | [a, b, p, f, n, e] \<Rightarrow>
          if a = ''FAV'' \<and> b = ''SHOUT'' then FavShout p f n e else FavOther
      | _ \<Rightarrow> FavOther)"



section \<open>Properties of the favorites encoding\<close>

lemma split_on_none: "c \<notin> set a \<Longrightarrow> split_on c a = [a]"
  by (induction a) (auto split: list.splits)

lemma split_on_append: "c \<notin> set a \<Longrightarrow> split_on c (a @ c # b) = a # split_on c b"
  by (induction a) (auto split: list.splits)

lemma SanitizeInPlace_set: "CHR 0x0A \<notin> set (SanitizeInPlace s) \<and> CHR 0x0D \<notin> set (SanitizeInPlace s)"
  by (auto simp: SanitizeInPlace_def)

lemma SanitizeFavoriteField_set:
  "CHR 0x0A \<notin> set (SanitizeFavoriteField s) \<and> CHR 0x0D \<notin> set (SanitizeFavoriteField s)
   \<and> CHR ''|'' \<notin> set (SanitizeFavoriteField s)"
  by (auto simp: SanitizeFavoriteField_def SanitizeInPlace_def)

lemma SanitizeInPlace_bar: "CHR ''|'' \<notin> set s \<Longrightarrow> CHR ''|'' \<notin> set (SanitizeInPlace s)"
  by (auto simp: SanitizeInPlace_def)

lemma recognize_power:
  assumes "CHR ''|'' \<notin> set (power_formIdHex e)"
  shows "recognize (power_line e) = FavPower (SanitizeInPlace (power_formIdHex e)) (SanitizeFavoriteField (power_name e))"
proof -
  have "split_on CHR ''|'' (power_line e) = [''FAV'', ''POWER'', SanitizeInPlace (power_formIdHex e), SanitizeFavoriteField (power_name e)]"
    unfolding power_line_def
    using split_on_append [of "CHR ''|''" "''FAV''"] split_on_append [of "CHR ''|''" "''POWER''"]
      split_on_append [of "CHR ''|''" "SanitizeInPlace (power_formIdHex e)"]
      split_on_none [of "CHR ''|''" "SanitizeFavoriteField (power_name e)"]
      SanitizeFavoriteField_set [of "power_name e"] SanitizeInPlace_bar [OF assms]
    by simp
  then show ?thesis by (simp add: recognize_def)
qed


lemma SanitizeInPlace_id:
  "CHR 0x0A \<notin> set s \<Longrightarrow> CHR 0x0D \<notin> set s \<Longrightarrow> SanitizeInPlace s = s"
  by (induction s) (auto simp: SanitizeInPlace_def)

lemma SanitizeFavoriteField_id:
  "CHR 0x0A \<notin> set s \<Longrightarrow> CHR 0x0D \<notin> set s \<Longrightarrow> CHR ''|'' \<notin> set s
     \<Longrightarrow> SanitizeFavoriteField s = s"
  by (induction s) (auto simp: SanitizeFavoriteField_def SanitizeInPlace_def)

lemma SanitizeFavoriteField_map:
  "SanitizeFavoriteField s =
     map (\<lambda>c. if c = CHR 0x0A \<or> c = CHR 0x0D \<or> c = CHR ''|'' then CHR '' '' else c) s"
  by (induction s) (auto simp: SanitizeFavoriteField_def SanitizeInPlace_def)

definition fav_of_shout :: "ShoutEntry \<Rightarrow> fav_line" where
  "fav_of_shout e =
     FavShout (SanitizeFavoriteField (plugin e)) (SanitizeInPlace (formIdHex e))
       (SanitizeFavoriteField (name e)) (SanitizeFavoriteField (editorID e))"

definition fav_of_power :: "PowerEntry \<Rightarrow> fav_line" where
  "fav_of_power e =
     FavPower (SanitizeInPlace (power_formIdHex e)) (SanitizeFavoriteField (power_name e))"

definition fav_of_item :: "(string \<Rightarrow> string \<Rightarrow> fav_line) \<Rightarrow> ItemEntry \<Rightarrow> fav_line" where
  "fav_of_item tag e =
     tag (SanitizeInPlace (item_formIdHex e)) (SanitizeFavoriteField (item_name e))"

lemma split4:
  assumes "CHR ''|'' \<notin> set a" "CHR ''|'' \<notin> set b" "CHR ''|'' \<notin> set f" "CHR ''|'' \<notin> set n"
  shows "split_on CHR ''|'' (a @ ''|'' @ b @ ''|'' @ f @ ''|'' @ n) = [a, b, f, n]"
  using assms by (simp add: split_on_append split_on_none)

lemma split6:
  assumes "CHR ''|'' \<notin> set a" "CHR ''|'' \<notin> set b" "CHR ''|'' \<notin> set p"
    "CHR ''|'' \<notin> set f" "CHR ''|'' \<notin> set n" "CHR ''|'' \<notin> set e"
  shows "split_on CHR ''|'' (a @ ''|'' @ b @ ''|'' @ p @ ''|'' @ f @ ''|'' @ n @ ''|'' @ e)
           = [a, b, p, f, n, e]"
  using assms by (simp add: split_on_append split_on_none)

lemma recognize_shout_line:
  assumes "CHR ''|'' \<notin> set (formIdHex e)"
  shows "recognize (shout_line e) = fav_of_shout e"
proof -
  have "split_on CHR ''|'' (shout_line e) =
      [''FAV'', ''SHOUT'', SanitizeFavoriteField (plugin e), SanitizeInPlace (formIdHex e),
       SanitizeFavoriteField (name e), SanitizeFavoriteField (editorID e)]"
    using split6 [of "''FAV''" "''SHOUT''" "SanitizeFavoriteField (plugin e)"
        "SanitizeInPlace (formIdHex e)" "SanitizeFavoriteField (name e)"
        "SanitizeFavoriteField (editorID e)"]
      SanitizeFavoriteField_set SanitizeInPlace_bar [OF assms]
    by (simp add: shout_line_def)
  then show ?thesis by (simp add: recognize_def fav_of_shout_def)
qed

lemma recognize_power_line:
  assumes "CHR ''|'' \<notin> set (power_formIdHex e)"
  shows "recognize (power_line e) = fav_of_power e"
  using recognize_power [OF assms] by (simp add: fav_of_power_def)

lemma recognize_item_lines:
  assumes "CHR ''|'' \<notin> set (item_formIdHex e)"
  shows "recognize (weapon_line e) = fav_of_item FavWeapon e"
    and "recognize (spell_line e) = fav_of_item FavSpell e"
    and "recognize (potion_line e) = fav_of_item FavPotion e"
proof -
  have s: "\<And>tag. CHR ''|'' \<notin> set tag \<Longrightarrow>
      split_on CHR ''|'' (''FAV|'' @ tag @ ''|'' @ SanitizeInPlace (item_formIdHex e) @ ''|''
          @ SanitizeFavoriteField (item_name e))
      = [''FAV'', tag, SanitizeInPlace (item_formIdHex e), SanitizeFavoriteField (item_name e)]"
    using split4 [of "''FAV''" _ "SanitizeInPlace (item_formIdHex e)"
        "SanitizeFavoriteField (item_name e)"]
      SanitizeFavoriteField_set SanitizeInPlace_bar [OF assms]
    by simp
  show "recognize (weapon_line e) = fav_of_item FavWeapon e"
    using s [of "''WEAPON''"] by (simp add: recognize_def weapon_line_def fav_of_item_def)
  show "recognize (spell_line e) = fav_of_item FavSpell e"
    using s [of "''SPELL''"] by (simp add: recognize_def spell_line_def fav_of_item_def)
  show "recognize (potion_line e) = fav_of_item FavPotion e"
    using s [of "''POTION''"] by (simp add: recognize_def potion_line_def fav_of_item_def)
qed

definition no_bar_in_formIds ::
  "ShoutEntry list \<Rightarrow> PowerEntry list \<Rightarrow> ItemEntry list \<Rightarrow> ItemEntry list \<Rightarrow> ItemEntry list
     \<Rightarrow> bool" where
  "no_bar_in_formIds shouts powers weapons spells potions \<longleftrightarrow>
     list_all (\<lambda>e. CHR ''|'' \<notin> set (formIdHex e)) shouts
     \<and> list_all (\<lambda>e. CHR ''|'' \<notin> set (power_formIdHex e)) powers
     \<and> list_all (\<lambda>e. CHR ''|'' \<notin> set (item_formIdHex e)) (weapons @ spells @ potions)"

lemma favorites_lines_no_newline:
  "list_all (\<lambda>l. CHR 0x0A \<notin> set l \<and> CHR 0x0D \<notin> set l)
     (favorites_lines shouts powers weapons spells potions)"
  using SanitizeFavoriteField_set SanitizeInPlace_set
  by (auto simp: favorites_lines_def list_all_iff shout_line_def power_line_def
        weapon_line_def spell_line_def potion_line_def)

lemma recognize_begin_end: "recognize ''FAV|BEGIN'' = FavBegin" "recognize ''FAV|END'' = FavEnd"
  by (simp_all add: recognize_def)

lemma favorites_lines_recognized:
  assumes "no_bar_in_formIds shouts powers weapons spells potions"
  shows "map recognize (favorites_lines shouts powers weapons spells potions) =
     [FavBegin] @ map fav_of_shout shouts @ map fav_of_power powers
       @ map (fav_of_item FavWeapon) weapons @ map (fav_of_item FavSpell) spells
       @ map (fav_of_item FavPotion) potions @ [FavEnd]"
  using assms
  by (simp add: favorites_lines_def no_bar_in_formIds_def list_all_iff recognize_begin_end
        recognize_shout_line recognize_power_line recognize_item_lines)

lemma hex_digit: "n < 16 \<Longrightarrow> ''0123456789ABCDEF'' ! n \<in> set ''0123456789ABCDEF''"
  by (rule nth_mem) simp

lemma FormIDToHex_digits: "set (FormIDToHex n) \<subseteq> set ''0123456789ABCDEF''"
proof (induction n rule: FormIDToHex.induct)
  case (1 n)
  show ?case
  proof (cases "n < 16")
    case True
    with hex_digit [of n] show ?thesis
      by (subst FormIDToHex.simps) simp
  next
    case False
    with 1 hex_digit [of "n mod 16"] show ?thesis
      by (subst FormIDToHex.simps) simp
  qed
qed

lemma FormIDToHex_plain:
  "CHR ''|'' \<notin> set (''0x'' @ FormIDToHex n)"
  "CHR 0x0A \<notin> set (''0x'' @ FormIDToHex n)"
  "CHR 0x0D \<notin> set (''0x'' @ FormIDToHex n)"
  using FormIDToHex_digits [of n] by auto


lemma built_no_bar:
  "no_bar_in_formIds (map (\<lambda>(p, i, n, e). shout_entry p i n e) rs)
     (map (\<lambda>(i, n). power_entry i n) rp) (map (\<lambda>(i, n). item_entry i n) rw)
     (map (\<lambda>(i, n). item_entry i n) rsp) (map (\<lambda>(i, n). item_entry i n) rpo)"
  using FormIDToHex_plain(1)
  by (auto simp: no_bar_in_formIds_def list_all_iff shout_entry_def power_entry_def
        item_entry_def)

lemma built_fav:
  "fav_of_shout (shout_entry p i n e) =
     FavShout (SanitizeFavoriteField p) (''0x'' @ FormIDToHex (i mod 16777216))
       (SanitizeFavoriteField n) (SanitizeFavoriteField e)"
  "fav_of_power (power_entry i n) = FavPower (''0x'' @ FormIDToHex i) (SanitizeFavoriteField n)"
  "fav_of_item tag (item_entry i n) = tag (''0x'' @ FormIDToHex i) (SanitizeFavoriteField n)"
  using FormIDToHex_plain(2,3)
  by (simp_all add: fav_of_shout_def fav_of_power_def fav_of_item_def shout_entry_def
        power_entry_def item_entry_def SanitizeInPlace_id)

lemma built_recognized:
  "map recognize (favorites_lines (map (\<lambda>(p, i, n, e). shout_entry p i n e) rs)
       (map (\<lambda>(i, n). power_entry i n) rp) (map (\<lambda>(i, n). item_entry i n) rw)
       (map (\<lambda>(i, n). item_entry i n) rsp) (map (\<lambda>(i, n). item_entry i n) rpo))
     = [FavBegin]
       @ map (\<lambda>(p, i, n, e). FavShout (SanitizeFavoriteField p)
                (''0x'' @ FormIDToHex (i mod 16777216)) (SanitizeFavoriteField n)
                (SanitizeFavoriteField e)) rs
       @ map (\<lambda>(i, n). FavPower (''0x'' @ FormIDToHex i) (SanitizeFavoriteField n)) rp
       @ map (\<lambda>(i, n). FavWeapon (''0x'' @ FormIDToHex i) (SanitizeFavoriteField n)) rw
       @ map (\<lambda>(i, n). FavSpell (''0x'' @ FormIDToHex i) (SanitizeFavoriteField n)) rsp
       @ map (\<lambda>(i, n). FavPotion (''0x'' @ FormIDToHex i) (SanitizeFavoriteField n)) rpo
       @ [FavEnd]"
  unfolding favorites_lines_recognized [OF built_no_bar]
  by (simp add: built_fav comp_def case_prod_beta)

text \<open>
  C7. A batch of N entries is rendered as N + 2 lines, \<open>FAV|BEGIN\<close>, the shout, power,
  weapon, spell and potion lines in that order, \<open>FAV|END\<close>, and stored as the pending
  favorites. In the name, editor id and plugin fields every CR, LF and \<open>|\<close> is a space, in
  the form id every CR and LF is; no line holds a CR or LF. When no form id holds a \<open>|\<close>,
  cutting each line at \<open>|\<close> gives the expected fields and the recogniser returns the N
  typed entries in order between the two markers. The form ids that the caller builds hold
  none, so every batch the program sends is read back as it was given, with the form ids
  unchanged.
\<close>

theorem favorites_batch_encoding:
  "length (favorites_lines shouts powers weapons spells potions)
     = length shouts + length powers + length weapons + length spells + length potions + 2
   \<and> favorites_lines shouts powers weapons spells potions
     = ''FAV|BEGIN'' # (map shout_line shouts @ map power_line powers @ map weapon_line weapons
         @ map spell_line spells @ map potion_line potions) @ [''FAV|END'']
   \<and> pendingFavorites (SendAllFavorites shouts powers weapons spells potions s)
     = Some (favorites_lines shouts powers weapons spells potions)
   \<and> SanitizeFavoriteField x
     = map (\<lambda>c. if c = CHR 0x0A \<or> c = CHR 0x0D \<or> c = CHR ''|'' then CHR '' '' else c) x
   \<and> SanitizeInPlace x = map (\<lambda>c. if c = CHR 0x0A \<or> c = CHR 0x0D then CHR '' '' else c) x
   \<and> list_all (\<lambda>l. CHR 0x0A \<notin> set l \<and> CHR 0x0D \<notin> set l)
        (favorites_lines shouts powers weapons spells potions)
   \<and> (no_bar_in_formIds shouts powers weapons spells potions \<longrightarrow>
        map recognize (favorites_lines shouts powers weapons spells potions) =
          [FavBegin] @ map fav_of_shout shouts @ map fav_of_power powers
            @ map (fav_of_item FavWeapon) weapons @ map (fav_of_item FavSpell) spells
            @ map (fav_of_item FavPotion) potions @ [FavEnd])
   \<and> no_bar_in_formIds (map (\<lambda>(p, i, n, e). shout_entry p i n e) rs)
        (map (\<lambda>(i, n). power_entry i n) rp) (map (\<lambda>(i, n). item_entry i n) rw)
        (map (\<lambda>(i, n). item_entry i n) rsp) (map (\<lambda>(i, n). item_entry i n) rpo)
   \<and> map recognize (favorites_lines (map (\<lambda>(p, i, n, e). shout_entry p i n e) rs)
         (map (\<lambda>(i, n). power_entry i n) rp) (map (\<lambda>(i, n). item_entry i n) rw)
         (map (\<lambda>(i, n). item_entry i n) rsp) (map (\<lambda>(i, n). item_entry i n) rpo))
       = [FavBegin]
         @ map (\<lambda>(p, i, n, e). FavShout (SanitizeFavoriteField p)
                  (''0x'' @ FormIDToHex (i mod 16777216)) (SanitizeFavoriteField n)
                  (SanitizeFavoriteField e)) rs
         @ map (\<lambda>(i, n). FavPower (''0x'' @ FormIDToHex i) (SanitizeFavoriteField n)) rp
         @ map (\<lambda>(i, n). FavWeapon (''0x'' @ FormIDToHex i) (SanitizeFavoriteField n)) rw
         @ map (\<lambda>(i, n). FavSpell (''0x'' @ FormIDToHex i) (SanitizeFavoriteField n)) rsp
         @ map (\<lambda>(i, n). FavPotion (''0x'' @ FormIDToHex i) (SanitizeFavoriteField n)) rpo
         @ [FavEnd]"
proof -
  have a: "length (favorites_lines shouts powers weapons spells potions)
     = length shouts + length powers + length weapons + length spells + length potions + 2"
    by (simp add: favorites_lines_def)
  have b: "favorites_lines shouts powers weapons spells potions
     = ''FAV|BEGIN'' # (map shout_line shouts @ map power_line powers @ map weapon_line weapons
         @ map spell_line spells @ map potion_line potions) @ [''FAV|END'']"
    by (simp add: favorites_lines_def)
  have c: "pendingFavorites (SendAllFavorites shouts powers weapons spells potions s)
     = Some (favorites_lines shouts powers weapons spells potions)"
    by (simp add: SendAllFavorites_def)
  have d: "SanitizeFavoriteField x
     = map (\<lambda>c. if c = CHR 0x0A \<or> c = CHR 0x0D \<or> c = CHR ''|'' then CHR '' '' else c) x"
    by (rule SanitizeFavoriteField_map)
  have e: "SanitizeInPlace x
     = map (\<lambda>c. if c = CHR 0x0A \<or> c = CHR 0x0D then CHR '' '' else c) x"
    by (simp add: SanitizeInPlace_def)
  have f: "no_bar_in_formIds shouts powers weapons spells potions \<longrightarrow>
        map recognize (favorites_lines shouts powers weapons spells potions) =
          [FavBegin] @ map fav_of_shout shouts @ map fav_of_power powers
            @ map (fav_of_item FavWeapon) weapons @ map (fav_of_item FavSpell) spells
            @ map (fav_of_item FavPotion) potions @ [FavEnd]"
    using favorites_lines_recognized [of shouts powers weapons spells potions] by blast
  show ?thesis
    by (intro conjI)
       (rule a, rule b, rule c, rule d, rule e, rule favorites_lines_no_newline, rule f,
        rule built_no_bar, rule built_recognized)
qed

text \<open>
  A batch as the caller builds it: one shout (with a \<open>|\<close> in the plugin name), one power
  (with a line feed in its name) and one spell.
\<close>

theorem favorites_batch_encoding_witness:
  "no_bar_in_formIds
     [shout_entry ''Sky|rim.esm'' 81417 ''Unrelenting Force'' ''Fus'']
     [power_entry 76476 [CHR ''a'', CHR 0x0A, CHR ''b'']]
     [] [item_entry 77773 ''Flames''] []
   \<and> favorites_lines
     [shout_entry ''Sky|rim.esm'' 81417 ''Unrelenting Force'' ''Fus'']
     [power_entry 76476 [CHR ''a'', CHR 0x0A, CHR ''b'']]
     [] [item_entry 77773 ''Flames''] []
     = [''FAV|BEGIN'', ''FAV|SHOUT|Sky rim.esm|0x13E09|Unrelenting Force|Fus'',
        ''FAV|POWER|0x12ABC|a b'', ''FAV|SPELL|0x12FCD|Flames'', ''FAV|END'']
   \<and> map recognize (favorites_lines
     [shout_entry ''Sky|rim.esm'' 81417 ''Unrelenting Force'' ''Fus'']
     [power_entry 76476 [CHR ''a'', CHR 0x0A, CHR ''b'']]
     [] [item_entry 77773 ''Flames''] [])
     = [FavBegin, FavShout ''Sky rim.esm'' ''0x13E09'' ''Unrelenting Force'' ''Fus'',
        FavPower ''0x12ABC'' ''a b'', FavSpell ''0x12FCD'' ''Flames'', FavEnd]"
proof -
  let ?sh = "[shout_entry ''Sky|rim.esm'' 81417 ''Unrelenting Force'' ''Fus'']"
  let ?pw = "[power_entry 76476 [CHR ''a'', CHR 0x0A, CHR ''b'']]"
  let ?sp = "[item_entry 77773 ''Flames'']"
  have x: "FormIDToHex 81417 = ''13E09''" "FormIDToHex 76476 = ''12ABC''" "FormIDToHex 77773 = ''12FCD''"
    by (simp_all add: FormIDToHex.simps)
  have h: "no_bar_in_formIds ?sh ?pw [] ?sp []"
    by (simp add: no_bar_in_formIds_def shout_entry_def power_entry_def item_entry_def x)
  note T = favorites_batch_encoding [of ?sh ?pw "[]" ?sp "[]"]
  from T h have m: "map recognize (favorites_lines ?sh ?pw [] ?sp [])
     = [FavBegin] @ map fav_of_shout ?sh @ map fav_of_power ?pw
       @ map (fav_of_item FavWeapon) [] @ map (fav_of_item FavSpell) ?sp
       @ map (fav_of_item FavPotion) [] @ [FavEnd]"
    by blast
  from T have l: "favorites_lines ?sh ?pw [] ?sp []
     = ''FAV|BEGIN'' # (map shout_line ?sh @ map power_line ?pw @ map weapon_line []
         @ map spell_line ?sp @ map potion_line []) @ [''FAV|END'']"
    by blast
  have v: "[FavBegin] @ map fav_of_shout ?sh @ map fav_of_power ?pw
       @ map (fav_of_item FavWeapon) [] @ map (fav_of_item FavSpell) ?sp
       @ map (fav_of_item FavPotion) [] @ [FavEnd]
     = [FavBegin, FavShout ''Sky rim.esm'' ''0x13E09'' ''Unrelenting Force'' ''Fus'',
        FavPower ''0x12ABC'' ''a b'', FavSpell ''0x12FCD'' ''Flames'', FavEnd]"
    by (simp add: fav_of_shout_def fav_of_power_def fav_of_item_def SanitizeFavoriteField_def
          SanitizeInPlace_def shout_entry_def power_entry_def item_entry_def x)
  have w: "''FAV|BEGIN'' # (map shout_line ?sh @ map power_line ?pw @ map weapon_line []
         @ map spell_line ?sp @ map potion_line []) @ [''FAV|END'']
     = [''FAV|BEGIN'', ''FAV|SHOUT|Sky rim.esm|0x13E09|Unrelenting Force|Fus'',
        ''FAV|POWER|0x12ABC|a b'', ''FAV|SPELL|0x12FCD|Flames'', ''FAV|END'']"
    by (simp add: shout_line_def power_line_def spell_line_def SanitizeFavoriteField_def
          SanitizeInPlace_def shout_entry_def power_entry_def item_entry_def x)
  from m v have m': "map recognize (favorites_lines ?sh ?pw [] ?sp [])
     = [FavBegin, FavShout ''Sky rim.esm'' ''0x13E09'' ''Unrelenting Force'' ''Fus'',
        FavPower ''0x12ABC'' ''a b'', FavSpell ''0x12FCD'' ''Flames'', FavEnd]"
    by (simp only:)
  from l w have l': "favorites_lines ?sh ?pw [] ?sp []
     = [''FAV|BEGIN'', ''FAV|SHOUT|Sky rim.esm|0x13E09|Unrelenting Force|Fus'',
        ''FAV|POWER|0x12ABC|a b'', ''FAV|SPELL|0x12FCD|Flames'', ''FAV|END'']"
    by (simp only:)
  from h l' m' show ?thesis by (intro conjI)
qed

text \<open>
  The form id is the one field in which \<open>|\<close> is not replaced. A form id holding one, which
  the caller never builds, would add a field to its line.
\<close>

lemma formId_separator_kept:
  "split_on CHR ''|'' (favorites_lines []
       [\<lparr>power_formIdHex = ''0x|1'', power_name = ''Fire''\<rparr>] [] [] [] ! 1)
     = [''FAV'', ''POWER'', ''0x'', ''1'', ''Fire'']"
  by (simp add: favorites_lines_def power_line_def SanitizeInPlace_def SanitizeFavoriteField_def)

section \<open>Setters of the outbound mailbox and of the sticky store\<close>

definition SendOptions :: "string list \<Rightarrow> 'f PipeClient \<Rightarrow> 'f PipeClient" where
  "SendOptions options s = s\<lparr>pendingOptions := Some options\<rparr>"

definition SendClose :: "'f PipeClient \<Rightarrow> 'f PipeClient" where
  "SendClose s = s\<lparr>pendingClose := True\<rparr>"

definition SendListen :: "bool \<Rightarrow> 'f PipeClient \<Rightarrow> 'f PipeClient" where
  "SendListen on s = s\<lparr>pendingListen := Some on\<rparr>"

definition SendListenShouts :: "bool \<Rightarrow> 'f PipeClient \<Rightarrow> 'f PipeClient" where
  "SendListenShouts on s = s\<lparr>pendingListenVoiceHandle := Some on\<rparr>"

definition SendGameLanguage :: "string \<Rightarrow> 'f PipeClient \<Rightarrow> 'f PipeClient" where
  "SendGameLanguage langCode s =
     (let t = SanitizeInPlace langCode in
      if t = [] then s else s\<lparr>desiredGameLang := Some t\<rparr>)"

definition SendConfigOpen :: "bool \<Rightarrow> 'f PipeClient \<Rightarrow> 'f PipeClient" where
  "SendConfigOpen enabled s = s\<lparr>desiredCfgOpen := Some enabled\<rparr>"

definition SendConfigClose :: "bool \<Rightarrow> 'f PipeClient \<Rightarrow> 'f PipeClient" where
  "SendConfigClose enabled s = s\<lparr>desiredCfgClose := Some enabled\<rparr>"

definition SendConfigShouts :: "bool \<Rightarrow> 'f PipeClient \<Rightarrow> 'f PipeClient" where
  "SendConfigShouts enabled s = s\<lparr>desiredCfgVoiceHandle := Some enabled\<rparr>"

definition SendConfigDebug :: "bool \<Rightarrow> 'f PipeClient \<Rightarrow> 'f PipeClient" where
  "SendConfigDebug enabled s = s\<lparr>desiredCfgDebug := Some enabled\<rparr>"

definition SendConfigSaveWav :: "bool \<Rightarrow> 'f PipeClient \<Rightarrow> 'f PipeClient" where
  "SendConfigSaveWav enabled s = s\<lparr>desiredCfgSaveWav := Some enabled\<rparr>"

definition SendConfigDialogueSelect :: "bool \<Rightarrow> 'f PipeClient \<Rightarrow> 'f PipeClient" where
  "SendConfigDialogueSelect enabled s = s\<lparr>desiredCfgDialogueSelect := Some enabled\<rparr>"

definition SendConfigWeapons :: "bool \<Rightarrow> 'f PipeClient \<Rightarrow> 'f PipeClient" where
  "SendConfigWeapons enabled s = s\<lparr>desiredCfgWeapons := Some enabled\<rparr>"

definition SendConfigSpells :: "bool \<Rightarrow> 'f PipeClient \<Rightarrow> 'f PipeClient" where
  "SendConfigSpells enabled s = s\<lparr>desiredCfgSpells := Some enabled\<rparr>"

definition SendConfigPowers :: "bool \<Rightarrow> 'f PipeClient \<Rightarrow> 'f PipeClient" where
  "SendConfigPowers enabled s = s\<lparr>desiredCfgPowers := Some enabled\<rparr>"

definition SendConfigPotions :: "bool \<Rightarrow> 'f PipeClient \<Rightarrow> 'f PipeClient" where
  "SendConfigPotions enabled s = s\<lparr>desiredCfgPotions := Some enabled\<rparr>"

text \<open>
  The five grammar-sync operations have the body \<^verbatim>\<open>(void)arg;\<close>: they take no lock, touch
  no member and call nothing.
\<close>

definition SendShoutsAllowed :: "ShoutEntry list \<Rightarrow> 'f PipeClient \<Rightarrow> 'f PipeClient" where
  "SendShoutsAllowed shouts s = s"

definition SendPowersAllowed :: "PowerEntry list \<Rightarrow> 'f PipeClient \<Rightarrow> 'f PipeClient" where
  "SendPowersAllowed powers s = s"

definition SendWeaponsAllowed :: "ItemEntry list \<Rightarrow> 'f PipeClient \<Rightarrow> 'f PipeClient" where
  "SendWeaponsAllowed weapons s = s"

definition SendSpellsAllowed :: "ItemEntry list \<Rightarrow> 'f PipeClient \<Rightarrow> 'f PipeClient" where
  "SendSpellsAllowed spells s = s"

definition SendPotionsAllowed :: "ItemEntry list \<Rightarrow> 'f PipeClient \<Rightarrow> 'f PipeClient" where
  "SendPotionsAllowed potions s = s"


section \<open>The sticky configuration toggles\<close>

text \<open>
  The ten pairs \<^verbatim>\<open>_desiredCfgX\<close> / \<^verbatim>\<open>_lastSentCfgX\<close> are handled by ten blocks of
  \<^verbatim>\<open>ThreadMain\<close> that differ in the pair and in the name on the wire only. \<open>cfg\<close> names
  the pair; the blocks are one function applied to each name in the order of the source.
\<close>

datatype cfg =
    CfgOpen | CfgClose | CfgVoiceHandle | CfgDebug | CfgSaveWav
  | CfgDialogueSelect | CfgWeapons | CfgSpells | CfgPowers | CfgPotions

fun cfg_name :: "cfg \<Rightarrow> string" where
  "cfg_name CfgOpen = ''OPEN''"
| "cfg_name CfgClose = ''CLOSE''"
| "cfg_name CfgVoiceHandle = ''SHOUTS''"
| "cfg_name CfgDebug = ''DEBUG''"
| "cfg_name CfgSaveWav = ''SAVE_WAV''"
| "cfg_name CfgDialogueSelect = ''DIALOGUE_SELECT''"
| "cfg_name CfgWeapons = ''WEAPONS''"
| "cfg_name CfgSpells = ''SPELLS''"
| "cfg_name CfgPowers = ''POWERS''"
| "cfg_name CfgPotions = ''POTIONS''"

fun desiredCfg :: "cfg \<Rightarrow> 'f PipeClient \<Rightarrow> bool option" where
  "desiredCfg CfgOpen s = desiredCfgOpen s"
| "desiredCfg CfgClose s = desiredCfgClose s"
| "desiredCfg CfgVoiceHandle s = desiredCfgVoiceHandle s"
| "desiredCfg CfgDebug s = desiredCfgDebug s"
| "desiredCfg CfgSaveWav s = desiredCfgSaveWav s"
| "desiredCfg CfgDialogueSelect s = desiredCfgDialogueSelect s"
| "desiredCfg CfgWeapons s = desiredCfgWeapons s"
| "desiredCfg CfgSpells s = desiredCfgSpells s"
| "desiredCfg CfgPowers s = desiredCfgPowers s"
| "desiredCfg CfgPotions s = desiredCfgPotions s"

fun lastSentCfg :: "cfg \<Rightarrow> 'f PipeClient \<Rightarrow> bool option" where
  "lastSentCfg CfgOpen s = lastSentCfgOpen s"
| "lastSentCfg CfgClose s = lastSentCfgClose s"
| "lastSentCfg CfgVoiceHandle s = lastSentCfgVoiceHandle s"
| "lastSentCfg CfgDebug s = lastSentCfgDebug s"
| "lastSentCfg CfgSaveWav s = lastSentCfgSaveWav s"
| "lastSentCfg CfgDialogueSelect s = lastSentCfgDialogueSelect s"
| "lastSentCfg CfgWeapons s = lastSentCfgWeapons s"
| "lastSentCfg CfgSpells s = lastSentCfgSpells s"
| "lastSentCfg CfgPowers s = lastSentCfgPowers s"
| "lastSentCfg CfgPotions s = lastSentCfgPotions s"

fun set_lastSentCfg :: "cfg \<Rightarrow> bool option \<Rightarrow> 'f PipeClient \<Rightarrow> 'f PipeClient" where
  "set_lastSentCfg CfgOpen v s = s\<lparr>lastSentCfgOpen := v\<rparr>"
| "set_lastSentCfg CfgClose v s = s\<lparr>lastSentCfgClose := v\<rparr>"
| "set_lastSentCfg CfgVoiceHandle v s = s\<lparr>lastSentCfgVoiceHandle := v\<rparr>"
| "set_lastSentCfg CfgDebug v s = s\<lparr>lastSentCfgDebug := v\<rparr>"
| "set_lastSentCfg CfgSaveWav v s = s\<lparr>lastSentCfgSaveWav := v\<rparr>"
| "set_lastSentCfg CfgDialogueSelect v s = s\<lparr>lastSentCfgDialogueSelect := v\<rparr>"
| "set_lastSentCfg CfgWeapons v s = s\<lparr>lastSentCfgWeapons := v\<rparr>"
| "set_lastSentCfg CfgSpells v s = s\<lparr>lastSentCfgSpells := v\<rparr>"
| "set_lastSentCfg CfgPowers v s = s\<lparr>lastSentCfgPowers := v\<rparr>"
| "set_lastSentCfg CfgPotions v s = s\<lparr>lastSentCfgPotions := v\<rparr>"

text \<open>The public setter of each pair.\<close>

fun SendConfig :: "cfg \<Rightarrow> bool \<Rightarrow> 'f PipeClient \<Rightarrow> 'f PipeClient" where
  "SendConfig CfgOpen = SendConfigOpen"
| "SendConfig CfgClose = SendConfigClose"
| "SendConfig CfgVoiceHandle = SendConfigShouts"
| "SendConfig CfgDebug = SendConfigDebug"
| "SendConfig CfgSaveWav = SendConfigSaveWav"
| "SendConfig CfgDialogueSelect = SendConfigDialogueSelect"
| "SendConfig CfgWeapons = SendConfigWeapons"
| "SendConfig CfgSpells = SendConfigSpells"
| "SendConfig CfgPowers = SendConfigPowers"
| "SendConfig CfgPotions = SendConfigPotions"


section \<open>The transmit phase of a service cycle\<close>

text \<open>
  What a cycle writes is logged with the block of \<^verbatim>\<open>ThreadMain\<close> that wrote it. The
  channel is the environment: \<open>wr k\<close> tells whether the \<^verbatim>\<open>WriteFile\<close> of the cycle's
  \<open>k\<close>-th line (from 0) reports the whole line written. \<^verbatim>\<open>WriteLine\<close> returns false
  without a call when the client is not connected; otherwise it hands the line with a line
  feed appended to \<^verbatim>\<open>WriteFile\<close>. \<open>sent\<close> lists the lines whose write succeeded,
  \<open>calls\<close> every buffer handed to \<^verbatim>\<open>WriteFile\<close>, the failing one included.
\<close>

datatype item = Lang | Options | Close | Favorites | Listen | Cfg cfg | ListenShouts

record 'f cycle =
  st :: "'f PipeClient"
  sent :: "(item \<times> string) list"
  wroteAny :: bool
  calls :: "string list"

text \<open>\<open>Goto_disconnect\<close> is the jump to the label \<^verbatim>\<open>disconnect\<close>, \<open>Next\<close> falls through.\<close>

datatype 'a flow = Goto_disconnect 'a | Next 'a

definition WriteLine :: "(nat \<Rightarrow> bool) \<Rightarrow> item \<Rightarrow> string \<Rightarrow> 'f cycle \<Rightarrow> 'f cycle flow" where
  "WriteLine wr it line c =
     (if \<not> connected (st c) \<or> \<not> pipe (st c) then Goto_disconnect c
      else if wr (length (sent c)) then
        Next (c\<lparr>sent := sent c @ [(it, line)], calls := calls c @ [line @ [CHR 0x0A]]\<rparr>)
      else Goto_disconnect (c\<lparr>calls := calls c @ [line @ [CHR 0x0A]]\<rparr>))"

fun WriteLines :: "(nat \<Rightarrow> bool) \<Rightarrow> item \<Rightarrow> string list \<Rightarrow> 'f cycle \<Rightarrow> 'f cycle flow" where
  "WriteLines wr it [] c = Next c"
| "WriteLines wr it (line # rest) c =
     (case WriteLine wr it line c of
        Goto_disconnect c' \<Rightarrow> Goto_disconnect c'
      | Next c' \<Rightarrow> WriteLines wr it rest c')"

text \<open>\<^verbatim>\<open>std::to_string\<close> of a \<^verbatim>\<open>size_t\<close>: the decimal digits.\<close>

function to_string :: "nat \<Rightarrow> string" where
  "to_string n =
     (if n < 10 then [''0123456789'' ! n]
      else to_string (n div 10) @ [''0123456789'' ! (n mod 10)])"
  by pat_completeness auto
termination
  by (relation "measure id") auto

declare to_string.simps [simp del]

definition bit_text :: "bool \<Rightarrow> string" where
  "bit_text b = (if b then ''1'' else ''0'')"

definition send_lang :: "(nat \<Rightarrow> bool) \<Rightarrow> 'f cycle \<Rightarrow> 'f cycle flow" where
  "send_lang wr c =
     (case desiredGameLang (st c) of
        None \<Rightarrow> Next c
      | Some desired \<Rightarrow>
          if lastSentGameLang (st c) = None \<or> the (lastSentGameLang (st c)) \<noteq> desired then
            (case WriteLine wr Lang (''LANG|'' @ desired) c of
               Goto_disconnect c' \<Rightarrow> Goto_disconnect c'
             | Next c' \<Rightarrow>
                 Next (c'\<lparr>st := (st c')\<lparr>lastSentGameLang := Some desired\<rparr>, wroteAny := True\<rparr>))
          else Next c)"

definition send_options :: "(nat \<Rightarrow> bool) \<Rightarrow> 'f cycle \<Rightarrow> 'f cycle flow" where
  "send_options wr c =
     (case pendingOptions (st c) of
        None \<Rightarrow> Next c
      | Some opts \<Rightarrow>
          (case WriteLines wr Options
                  ((''OPEN|'' @ to_string (length opts))
                     # map (\<lambda>s. SanitizeInPlace (''OPT|'' @ s)) opts @ [''END''])
                  (c\<lparr>st := (st c)\<lparr>pendingOptions := None\<rparr>\<rparr>) of
             Goto_disconnect c' \<Rightarrow> Goto_disconnect c'
           | Next c' \<Rightarrow> Next (c'\<lparr>wroteAny := True\<rparr>)))"

definition send_close :: "(nat \<Rightarrow> bool) \<Rightarrow> 'f cycle \<Rightarrow> 'f cycle flow" where
  "send_close wr c =
     (if pendingClose (st c) then
        (case WriteLine wr Close ''CLOSE'' c of
           Goto_disconnect c' \<Rightarrow> Goto_disconnect c'
         | Next c' \<Rightarrow> Next (c'\<lparr>st := (st c')\<lparr>pendingClose := False\<rparr>, wroteAny := True\<rparr>))
      else Next c)"

definition send_favorites :: "(nat \<Rightarrow> bool) \<Rightarrow> 'f cycle \<Rightarrow> 'f cycle flow" where
  "send_favorites wr c =
     (case pendingFavorites (st c) of
        None \<Rightarrow> Next c
      | Some lines \<Rightarrow>
          (case WriteLines wr Favorites lines (c\<lparr>st := (st c)\<lparr>pendingFavorites := None\<rparr>\<rparr>) of
             Goto_disconnect c' \<Rightarrow> Goto_disconnect c'
           | Next c' \<Rightarrow> Next (c'\<lparr>wroteAny := True\<rparr>)))"

definition send_listen :: "(nat \<Rightarrow> bool) \<Rightarrow> 'f cycle \<Rightarrow> 'f cycle flow" where
  "send_listen wr c =
     (case pendingListen (st c) of
        None \<Rightarrow> Next c
      | Some on \<Rightarrow>
          (case WriteLine wr Listen (''LISTEN|'' @ bit_text on) c of
             Goto_disconnect c' \<Rightarrow> Goto_disconnect c'
           | Next c' \<Rightarrow> Next (c'\<lparr>st := (st c')\<lparr>pendingListen := None\<rparr>, wroteAny := True\<rparr>)))"

definition send_cfg :: "cfg \<Rightarrow> (nat \<Rightarrow> bool) \<Rightarrow> 'f cycle \<Rightarrow> 'f cycle flow" where
  "send_cfg k wr c =
     (case desiredCfg k (st c) of
        None \<Rightarrow> Next c
      | Some desired \<Rightarrow>
          if lastSentCfg k (st c) = None \<or> the (lastSentCfg k (st c)) \<noteq> desired then
            (case WriteLine wr (Cfg k) (''CFG|'' @ cfg_name k @ ''|'' @ bit_text desired) c of
               Goto_disconnect c' \<Rightarrow> Goto_disconnect c'
             | Next c' \<Rightarrow>
                 Next (c'\<lparr>st := set_lastSentCfg k (Some desired) (st c'), wroteAny := True\<rparr>))
          else Next c)"

definition send_listen_shouts :: "(nat \<Rightarrow> bool) \<Rightarrow> 'f cycle \<Rightarrow> 'f cycle flow" where
  "send_listen_shouts wr c =
     (case pendingListenVoiceHandle (st c) of
        None \<Rightarrow> Next c
      | Some on \<Rightarrow>
          (case WriteLine wr ListenShouts (''LISTEN|SHOUTS|'' @ bit_text on) c of
             Goto_disconnect c' \<Rightarrow> Goto_disconnect c'
           | Next c' \<Rightarrow>
               Next (c'\<lparr>st := (st c')\<lparr>pendingListenVoiceHandle := None\<rparr>, wroteAny := True\<rparr>)))"

text \<open>Sequencing of two blocks: a jump to \<^verbatim>\<open>disconnect\<close> skips what follows.\<close>

definition and_then :: "'a flow \<Rightarrow> ('a \<Rightarrow> 'a flow) \<Rightarrow> 'a flow" where
  "and_then r f = (case r of Goto_disconnect c \<Rightarrow> Goto_disconnect c | Next c \<Rightarrow> f c)"

fun run_blocks ::
  "((nat \<Rightarrow> bool) \<Rightarrow> 'f cycle \<Rightarrow> 'f cycle flow) list \<Rightarrow> (nat \<Rightarrow> bool) \<Rightarrow> 'f cycle \<Rightarrow> 'f cycle flow" where
  "run_blocks [] wr c = Next c"
| "run_blocks (b # bs) wr c = and_then (b wr c) (run_blocks bs wr)"

text \<open>
  The block of \<^verbatim>\<open>ThreadMain\<close> that holds \<^verbatim>\<open>_sendMutex\<close>, in the order of the source,
  started with \<^verbatim>\<open>wroteAny = false\<close>.
\<close>

definition transmit :: "(nat \<Rightarrow> bool) \<Rightarrow> 'f PipeClient \<Rightarrow> 'f cycle flow" where
  "transmit wr s =
     run_blocks
       [send_lang, send_options, send_close, send_favorites, send_listen,
        send_cfg CfgOpen, send_cfg CfgClose, send_cfg CfgVoiceHandle, send_cfg CfgDebug,
        send_cfg CfgSaveWav, send_cfg CfgDialogueSelect, send_cfg CfgWeapons,
        send_cfg CfgSpells, send_cfg CfgPowers, send_cfg CfgPotions,
        send_listen_shouts]
       wr \<lparr>st = s, sent = [], wroteAny = False, calls = []\<rparr>"


section \<open>Disconnect and connect\<close>

text \<open>
  \<^verbatim>\<open>PipeClient::HandleDisconnect\<close>: nothing when neither the flag nor the handle is set;
  otherwise the handle is closed, the flag cleared, every last-sent record reset and the
  event cell set to \<^verbatim>\<open>false\<close>.
\<close>

definition HandleDisconnect :: "'f PipeClient \<Rightarrow> 'f PipeClient" where
  "HandleDisconnect s =
     (if \<not> connected s \<and> \<not> pipe s then s
      else s\<lparr>pipe := False, connected := False,
             lastSentCfgOpen := None, lastSentCfgClose := None, lastSentCfgVoiceHandle := None,
             lastSentCfgDebug := None, lastSentCfgSaveWav := None,
             lastSentCfgDialogueSelect := None, lastSentCfgWeapons := None,
             lastSentCfgSpells := None, lastSentCfgPowers := None, lastSentCfgPotions := None,
             lastSentGameLang := None,
             connEvent := Some False\<rparr>)"

text \<open>The branch of \<^verbatim>\<open>ThreadMain\<close> taken when \<^verbatim>\<open>CreateFileW\<close> returns a valid handle.\<close>

definition Connect :: "'f PipeClient \<Rightarrow> 'f PipeClient" where
  "Connect s = s\<lparr>pipe := True, connected := True, connEvent := Some True\<rparr>"

definition ConsumeConnectionEvent :: "'f PipeClient \<Rightarrow> bool option \<times> 'f PipeClient" where
  "ConsumeConnectionEvent s = (connEvent s, s\<lparr>connEvent := None\<rparr>)"

section \<open>What a block sends and how it leaves the state\<close>

definition lang_due :: "'f PipeClient \<Rightarrow> (item \<times> string) list" where
  "lang_due s =
     (case desiredGameLang s of
        None \<Rightarrow> []
      | Some d \<Rightarrow> if lastSentGameLang s = Some d then [] else [(Lang, ''LANG|'' @ d)])"

definition options_due :: "'f PipeClient \<Rightarrow> (item \<times> string) list" where
  "options_due s =
     (case pendingOptions s of
        None \<Rightarrow> []
      | Some opts \<Rightarrow>
          map (Pair Options)
            ((''OPEN|'' @ to_string (length opts))
               # map (\<lambda>x. SanitizeInPlace (''OPT|'' @ x)) opts @ [''END'']))"

definition close_due :: "'f PipeClient \<Rightarrow> (item \<times> string) list" where
  "close_due s = (if pendingClose s then [(Close, ''CLOSE'')] else [])"

definition favorites_due :: "'f PipeClient \<Rightarrow> (item \<times> string) list" where
  "favorites_due s =
     (case pendingFavorites s of None \<Rightarrow> [] | Some lines \<Rightarrow> map (Pair Favorites) lines)"

definition listen_due :: "'f PipeClient \<Rightarrow> (item \<times> string) list" where
  "listen_due s =
     (case pendingListen s of None \<Rightarrow> [] | Some on \<Rightarrow> [(Listen, ''LISTEN|'' @ bit_text on)])"

definition cfg_due :: "cfg \<Rightarrow> 'f PipeClient \<Rightarrow> (item \<times> string) list" where
  "cfg_due k s =
     (case desiredCfg k s of
        None \<Rightarrow> []
      | Some d \<Rightarrow>
          if lastSentCfg k s = Some d then []
          else [(Cfg k, ''CFG|'' @ cfg_name k @ ''|'' @ bit_text d)])"

definition listen_shouts_due :: "'f PipeClient \<Rightarrow> (item \<times> string) list" where
  "listen_shouts_due s =
     (case pendingListenVoiceHandle s of
        None \<Rightarrow> []
      | Some on \<Rightarrow> [(ListenShouts, ''LISTEN|SHOUTS|'' @ bit_text on)])"

definition lang_done :: "'f PipeClient \<Rightarrow> 'f PipeClient" where
  "lang_done s =
     s\<lparr>lastSentGameLang :=
         (case desiredGameLang s of None \<Rightarrow> lastSentGameLang s | Some d \<Rightarrow> Some d)\<rparr>"

definition cfg_done :: "cfg \<Rightarrow> 'f PipeClient \<Rightarrow> 'f PipeClient" where
  "cfg_done k s =
     set_lastSentCfg k (case desiredCfg k s of None \<Rightarrow> lastSentCfg k s | Some d \<Rightarrow> Some d) s"

definition kept :: "'f PipeClient \<Rightarrow> 'f PipeClient \<Rightarrow> bool" where
  "kept s s' \<longleftrightarrow>
     connected s' = connected s \<and> pipe s' = pipe s
     \<and> desiredGameLang s' = desiredGameLang s \<and> (\<forall>k. desiredCfg k s' = desiredCfg k s)
     \<and> responses s' = responses s \<and> recvBuf s' = recvBuf s \<and> connEvent s' = connEvent s"

text \<open>The buffers that go to \<^verbatim>\<open>WriteFile\<close> for a list of lines.\<close>

definition payloads :: "(item \<times> string) list \<Rightarrow> string list" where
  "payloads xs = map (\<lambda>x. snd x @ [CHR 0x0A]) xs"

definition block_spec ::
  "((nat \<Rightarrow> bool) \<Rightarrow> 'f cycle \<Rightarrow> 'f cycle flow) \<Rightarrow> ('f PipeClient \<Rightarrow> (item \<times> string) list)
     \<Rightarrow> ('f PipeClient \<Rightarrow> 'f PipeClient) \<Rightarrow> ('f PipeClient \<Rightarrow> bool) \<Rightarrow> bool" where
  "block_spec b due done flag \<longleftrightarrow>
     (\<forall>wr c c'.
        (b wr c = Next c' \<longrightarrow>
           c' = \<lparr>st = done (st c), sent = sent c @ due (st c),
                 wroteAny = (wroteAny c \<or> flag (st c)),
                 calls = calls c @ payloads (due (st c))\<rparr>)
        \<and> (b wr c = Goto_disconnect c' \<longrightarrow>
             (\<exists>p. strict_prefix p (due (st c)) \<and> sent c' = sent c @ p
                  \<and> calls c' = calls c @ payloads p
                        @ (if connected (st c) \<and> pipe (st c)
                           then [payloads (due (st c)) ! length p] else []))
             \<and> kept (st c) (st c'))
        \<and> (connected (st c) \<and> pipe (st c) \<and> (\<forall>k. wr k) \<longrightarrow> b wr c \<noteq> Goto_disconnect c'))
     \<and> (\<forall>s. kept s (done s))"

lemma strict_prefix_Nil: "xs \<noteq> [] \<Longrightarrow> strict_prefix [] xs"
  by (cases xs) simp_all

lemma payloads_simps [simp]:
  "payloads [] = []"
  "payloads (x # xs) = (snd x @ [CHR 0x0A]) # payloads xs"
  "payloads (xs @ ys) = payloads xs @ payloads ys"
  "length (payloads xs) = length xs"
  by (simp_all add: payloads_def)

lemma WriteLine_cases:
  "WriteLine wr it line c = Next c' \<Longrightarrow>
     c' = c\<lparr>sent := sent c @ [(it, line)], calls := calls c @ [line @ [CHR 0x0A]]\<rparr>"
  "WriteLine wr it line c = Goto_disconnect c' \<Longrightarrow>
     c' = c\<lparr>calls := calls c
            @ (if connected (st c) \<and> pipe (st c) then [line @ [CHR 0x0A]] else [])\<rparr>"
  "connected (st c) \<Longrightarrow> pipe (st c) \<Longrightarrow> \<forall>k. wr k \<Longrightarrow>
     WriteLine wr it line c
       = Next (c\<lparr>sent := sent c @ [(it, line)], calls := calls c @ [line @ [CHR 0x0A]]\<rparr>)"
  by (auto simp: WriteLine_def split: if_splits)

lemma WriteLines_Next:
  "WriteLines wr it ls c = Next c' \<Longrightarrow>
     c' = c\<lparr>sent := sent c @ map (Pair it) ls,
            calls := calls c @ payloads (map (Pair it) ls)\<rparr>"
proof (induction ls arbitrary: c)
  case Nil
  then show ?case by simp
next
  case (Cons l ls)
  show ?case
  proof (cases "WriteLine wr it l c")
    case (Goto_disconnect d)
    with Cons.prems show ?thesis by simp
  next
    case (Next d)
    then have d: "d = c\<lparr>sent := sent c @ [(it, l)], calls := calls c @ [l @ [CHR 0x0A]]\<rparr>"
      by (rule WriteLine_cases(1))
    from Next Cons.prems have "WriteLines wr it ls d = Next c'" by simp
    from Cons.IH [OF this] show ?thesis using d by simp
  qed
qed

lemma WriteLines_Goto:
  "WriteLines wr it ls c = Goto_disconnect c' \<Longrightarrow>
     \<exists>p. strict_prefix p (map (Pair it) ls)
       \<and> c' = c\<lparr>sent := sent c @ p,
               calls := calls c @ payloads p
                 @ (if connected (st c) \<and> pipe (st c)
                    then [payloads (map (Pair it) ls) ! length p] else [])\<rparr>"
proof (induction ls arbitrary: c)
  case Nil
  then show ?case by simp
next
  case (Cons l ls)
  show ?case
  proof (cases "WriteLine wr it l c")
    case (Goto_disconnect d)
    with Cons.prems have "c' = c\<lparr>calls := calls c
            @ (if connected (st c) \<and> pipe (st c) then [l @ [CHR 0x0A]] else [])\<rparr>"
      by (auto dest: WriteLine_cases(2))
    then have "strict_prefix [] (map (Pair it) (l # ls))
        \<and> c' = c\<lparr>sent := sent c @ [],
               calls := calls c @ payloads []
                 @ (if connected (st c) \<and> pipe (st c)
                    then [payloads (map (Pair it) (l # ls)) ! length ([] :: (item \<times> string) list)]
                    else [])\<rparr>"
      by simp
    then show ?thesis by blast
  next
    case (Next d)
    then have d: "d = c\<lparr>sent := sent c @ [(it, l)], calls := calls c @ [l @ [CHR 0x0A]]\<rparr>"
      by (rule WriteLine_cases(1))
    from Next Cons.prems have "WriteLines wr it ls d = Goto_disconnect c'" by simp
    from Cons.IH [OF this] obtain p where
      p: "strict_prefix p (map (Pair it) ls)"
        "c' = d\<lparr>sent := sent d @ p,
               calls := calls d @ payloads p
                 @ (if connected (st d) \<and> pipe (st d)
                    then [payloads (map (Pair it) ls) ! length p] else [])\<rparr>"
      by blast
    have "strict_prefix ((it, l) # p) (map (Pair it) (l # ls))" using p(1) by simp
    moreover have "c' = c\<lparr>sent := sent c @ ((it, l) # p),
               calls := calls c @ payloads ((it, l) # p)
                 @ (if connected (st c) \<and> pipe (st c)
                    then [payloads (map (Pair it) (l # ls)) ! length ((it, l) # p)] else [])\<rparr>"
      using p(2) d by simp
    ultimately show ?thesis by blast
  qed
qed

lemma WriteLines_ok:
  "connected (st c) \<Longrightarrow> pipe (st c) \<Longrightarrow> \<forall>k. wr k \<Longrightarrow>
     WriteLines wr it ls c \<noteq> Goto_disconnect c'"
proof (induction ls arbitrary: c)
  case Nil
  then show ?case by simp
next
  case (Cons l ls)
  then show ?case by (simp add: WriteLine_cases(3))
qed

lemma kept_refl: "kept s s"
  by (simp add: kept_def)

lemma desiredCfg_set_lastSentCfg: "desiredCfg k (set_lastSentCfg j v s) = desiredCfg k s"
  by (cases k; cases j) simp_all

lemma lastSentCfg_set_lastSentCfg:
  "lastSentCfg k (set_lastSentCfg j v s) = (if k = j then v else lastSentCfg k s)"
  by (cases k; cases j) simp_all

lemma set_lastSentCfg_fields:
  "connected (set_lastSentCfg j v s) = connected s"
  "pipe (set_lastSentCfg j v s) = pipe s"
  "recvBuf (set_lastSentCfg j v s) = recvBuf s"
  "responses (set_lastSentCfg j v s) = responses s"
  "connEvent (set_lastSentCfg j v s) = connEvent s"
  "pendingOptions (set_lastSentCfg j v s) = pendingOptions s"
  "pendingFavorites (set_lastSentCfg j v s) = pendingFavorites s"
  "pendingClose (set_lastSentCfg j v s) = pendingClose s"
  "pendingListen (set_lastSentCfg j v s) = pendingListen s"
  "pendingListenVoiceHandle (set_lastSentCfg j v s) = pendingListenVoiceHandle s"
  "desiredGameLang (set_lastSentCfg j v s) = desiredGameLang s"
  "lastSentGameLang (set_lastSentCfg j v s) = lastSentGameLang s"
  by (cases j; simp)+

lemma set_lastSentCfg_same: "lastSentCfg k s = v \<Longrightarrow> set_lastSentCfg k v s = s"
  by (cases k) auto

lemma desiredCfg_upd:
  "desiredCfg k (s\<lparr>lastSentGameLang := a\<rparr>) = desiredCfg k s"
  "desiredCfg k (s\<lparr>pendingOptions := b\<rparr>) = desiredCfg k s"
  "desiredCfg k (s\<lparr>pendingClose := c\<rparr>) = desiredCfg k s"
  "desiredCfg k (s\<lparr>pendingFavorites := d\<rparr>) = desiredCfg k s"
  "desiredCfg k (s\<lparr>pendingListen := e\<rparr>) = desiredCfg k s"
  "desiredCfg k (s\<lparr>pendingListenVoiceHandle := f\<rparr>) = desiredCfg k s"
  by (cases k; simp)+

lemma lastSentCfg_upd:
  "lastSentCfg k (s\<lparr>lastSentGameLang := a\<rparr>) = lastSentCfg k s"
  "lastSentCfg k (s\<lparr>pendingOptions := b\<rparr>) = lastSentCfg k s"
  "lastSentCfg k (s\<lparr>pendingClose := c\<rparr>) = lastSentCfg k s"
  "lastSentCfg k (s\<lparr>pendingFavorites := d\<rparr>) = lastSentCfg k s"
  "lastSentCfg k (s\<lparr>pendingListen := e\<rparr>) = lastSentCfg k s"
  "lastSentCfg k (s\<lparr>pendingListenVoiceHandle := f\<rparr>) = lastSentCfg k s"
  by (cases k; simp)+

lemma block_specI:
  assumes "\<And>wr c c'. b wr c = Next c' \<Longrightarrow>
      c' = \<lparr>st = done (st c), sent = sent c @ due (st c),
             wroteAny = (wroteAny c \<or> flag (st c)),
             calls = calls c @ payloads (due (st c))\<rparr>"
    and "\<And>wr c c'. b wr c = Goto_disconnect c' \<Longrightarrow>
      \<exists>p. strict_prefix p (due (st c)) \<and> sent c' = sent c @ p
        \<and> calls c' = calls c @ payloads p
              @ (if connected (st c) \<and> pipe (st c)
                 then [payloads (due (st c)) ! length p] else [])"
    and "\<And>wr c c'. b wr c = Goto_disconnect c' \<Longrightarrow> kept (st c) (st c')"
    and "\<And>wr c c'. connected (st c) \<Longrightarrow> pipe (st c) \<Longrightarrow> \<forall>k. wr k \<Longrightarrow>
      b wr c \<noteq> Goto_disconnect c'"
    and "\<And>s. kept s (done s)"
  shows "block_spec b due done flag"
  unfolding block_spec_def using assms by blast

text \<open>
  A block of one line that jumps to \<^verbatim>\<open>disconnect\<close> has written nothing; it has made the
  failing call when the channel was up.
\<close>

lemma one_line_Goto:
  assumes "sent c' = sent c" "due \<noteq> []"
    "calls c' = calls c @ (if connected (st c) \<and> pipe (st c) then [payloads due ! 0] else [])"
  shows "\<exists>p. strict_prefix p due \<and> sent c' = sent c @ p
        \<and> calls c' = calls c @ payloads p
              @ (if connected (st c) \<and> pipe (st c) then [payloads due ! length p] else [])"
proof -
  have "strict_prefix [] due \<and> sent c' = sent c @ []
        \<and> calls c' = calls c @ payloads []
              @ (if connected (st c) \<and> pipe (st c)
                 then [payloads due ! length ([] :: (item \<times> string) list)] else [])"
    using assms by (simp add: strict_prefix_Nil)
  then show ?thesis by blast
qed

lemma send_lang_Goto:
  "send_lang wr c = Goto_disconnect c' \<Longrightarrow>
     st c' = st c \<and> sent c' = sent c \<and> lang_due (st c) \<noteq> []
     \<and> calls c' = calls c
         @ (if connected (st c) \<and> pipe (st c) then [payloads (lang_due (st c)) ! 0] else [])"
  by (cases "desiredGameLang (st c)"; cases "lastSentGameLang (st c)")
     (auto simp: send_lang_def lang_due_def
        split: if_splits flow.splits dest!: WriteLine_cases(2))

lemma send_lang_spec: "block_spec send_lang lang_due lang_done (\<lambda>s. lang_due s \<noteq> [])"
proof (rule block_specI)
  fix wr and c c' :: "'f cycle"
  assume "send_lang wr c = Next c'"
  then show "c' = \<lparr>st = lang_done (st c), sent = sent c @ lang_due (st c),
      wroteAny = (wroteAny c \<or> lang_due (st c) \<noteq> []),
      calls = calls c @ payloads (lang_due (st c))\<rparr>"
    by (cases "desiredGameLang (st c)"; cases "lastSentGameLang (st c)")
       (auto simp: send_lang_def lang_due_def lang_done_def
          split: if_splits flow.splits dest!: WriteLine_cases(1))
next
  fix wr and c c' :: "'f cycle"
  assume "send_lang wr c = Goto_disconnect c'"
  from send_lang_Goto [OF this]
  show "\<exists>p. strict_prefix p (lang_due (st c)) \<and> sent c' = sent c @ p
        \<and> calls c' = calls c @ payloads p
              @ (if connected (st c) \<and> pipe (st c)
                 then [payloads (lang_due (st c)) ! length p] else [])"
    by (intro one_line_Goto) simp_all
next
  fix wr and c c' :: "'f cycle"
  assume "send_lang wr c = Goto_disconnect c'"
  then show "kept (st c) (st c')"
    by (auto dest!: send_lang_Goto simp: kept_refl)
next
  fix wr :: "nat \<Rightarrow> bool" and c c' :: "'f cycle"
  assume "connected (st c)" "pipe (st c)" "\<forall>k. wr k"
  then show "send_lang wr c \<noteq> Goto_disconnect c'"
    by (auto simp: send_lang_def WriteLine_cases(3) split: option.splits)
next
  fix s :: "'f PipeClient"
  show "kept s (lang_done s)"
    by (simp add: kept_def lang_done_def desiredCfg_upd)
qed

lemma send_cfg_Goto:
  "send_cfg k wr c = Goto_disconnect c' \<Longrightarrow>
     st c' = st c \<and> sent c' = sent c \<and> cfg_due k (st c) \<noteq> []
     \<and> calls c' = calls c
         @ (if connected (st c) \<and> pipe (st c) then [payloads (cfg_due k (st c)) ! 0] else [])"
  by (cases "desiredCfg k (st c)"; cases "lastSentCfg k (st c)")
     (auto simp: send_cfg_def cfg_due_def
        split: if_splits flow.splits dest!: WriteLine_cases(2))

lemma send_cfg_spec:
  "block_spec (send_cfg k) (cfg_due k) (cfg_done k) (\<lambda>s. cfg_due k s \<noteq> [])"
proof (rule block_specI)
  fix wr and c c' :: "'f cycle"
  assume "send_cfg k wr c = Next c'"
  then show "c' = \<lparr>st = cfg_done k (st c), sent = sent c @ cfg_due k (st c),
      wroteAny = (wroteAny c \<or> cfg_due k (st c) \<noteq> []),
      calls = calls c @ payloads (cfg_due k (st c))\<rparr>"
    by (cases "desiredCfg k (st c)"; cases "lastSentCfg k (st c)")
       (auto simp: send_cfg_def cfg_due_def cfg_done_def set_lastSentCfg_same
          split: if_splits flow.splits dest!: WriteLine_cases(1))
next
  fix wr and c c' :: "'f cycle"
  assume "send_cfg k wr c = Goto_disconnect c'"
  from send_cfg_Goto [OF this]
  show "\<exists>p. strict_prefix p (cfg_due k (st c)) \<and> sent c' = sent c @ p
        \<and> calls c' = calls c @ payloads p
              @ (if connected (st c) \<and> pipe (st c)
                 then [payloads (cfg_due k (st c)) ! length p] else [])"
    by (intro one_line_Goto) simp_all
next
  fix wr and c c' :: "'f cycle"
  assume "send_cfg k wr c = Goto_disconnect c'"
  then show "kept (st c) (st c')"
    by (auto dest!: send_cfg_Goto simp: kept_refl)
next
  fix wr :: "nat \<Rightarrow> bool" and c c' :: "'f cycle"
  assume "connected (st c)" "pipe (st c)" "\<forall>k. wr k"
  then show "send_cfg k wr c \<noteq> Goto_disconnect c'"
    by (auto simp: send_cfg_def WriteLine_cases(3) split: option.splits)
next
  fix s :: "'f PipeClient"
  show "kept s (cfg_done k s)"
    by (simp add: kept_def cfg_done_def desiredCfg_set_lastSentCfg set_lastSentCfg_fields)
qed

text \<open>The three one-line slots, cleared after the write.\<close>

lemma send_close_Goto:
  "send_close wr c = Goto_disconnect c' \<Longrightarrow>
     st c' = st c \<and> sent c' = sent c \<and> close_due (st c) \<noteq> []
     \<and> calls c' = calls c
         @ (if connected (st c) \<and> pipe (st c) then [payloads (close_due (st c)) ! 0] else [])"
  by (auto simp: send_close_def close_due_def
        split: if_splits flow.splits dest!: WriteLine_cases(2))

lemma send_close_spec:
  "block_spec send_close close_due (\<lambda>s. s\<lparr>pendingClose := False\<rparr>) pendingClose"
proof (rule block_specI)
  fix wr and c c' :: "'f cycle"
  assume "send_close wr c = Next c'"
  then show "c' = \<lparr>st = (st c)\<lparr>pendingClose := False\<rparr>, sent = sent c @ close_due (st c),
      wroteAny = (wroteAny c \<or> pendingClose (st c)),
      calls = calls c @ payloads (close_due (st c))\<rparr>"
    by (auto simp: send_close_def close_due_def
          split: if_splits flow.splits dest!: WriteLine_cases(1))
next
  fix wr and c c' :: "'f cycle"
  assume "send_close wr c = Goto_disconnect c'"
  from send_close_Goto [OF this]
  show "\<exists>p. strict_prefix p (close_due (st c)) \<and> sent c' = sent c @ p
        \<and> calls c' = calls c @ payloads p
              @ (if connected (st c) \<and> pipe (st c)
                 then [payloads (close_due (st c)) ! length p] else [])"
    by (intro one_line_Goto) simp_all
next
  fix wr and c c' :: "'f cycle"
  assume "send_close wr c = Goto_disconnect c'"
  then show "kept (st c) (st c')"
    by (auto dest!: send_close_Goto simp: kept_refl)
next
  fix wr :: "nat \<Rightarrow> bool" and c c' :: "'f cycle"
  assume "connected (st c)" "pipe (st c)" "\<forall>k. wr k"
  then show "send_close wr c \<noteq> Goto_disconnect c'"
    by (auto simp: send_close_def WriteLine_cases(3))
next
  fix s :: "'f PipeClient"
  show "kept s (s\<lparr>pendingClose := False\<rparr>)"
    by (simp add: kept_def desiredCfg_upd)
qed

lemma send_listen_Goto:
  "send_listen wr c = Goto_disconnect c' \<Longrightarrow>
     st c' = st c \<and> sent c' = sent c \<and> listen_due (st c) \<noteq> []
     \<and> calls c' = calls c
         @ (if connected (st c) \<and> pipe (st c) then [payloads (listen_due (st c)) ! 0] else [])"
  by (cases "pendingListen (st c)")
     (auto simp: send_listen_def listen_due_def
        split: if_splits flow.splits dest!: WriteLine_cases(2))

lemma send_listen_spec:
  "block_spec send_listen listen_due (\<lambda>s. s\<lparr>pendingListen := None\<rparr>)
     (\<lambda>s. pendingListen s \<noteq> None)"
proof (rule block_specI)
  fix wr and c c' :: "'f cycle"
  assume "send_listen wr c = Next c'"
  then show "c' = \<lparr>st = (st c)\<lparr>pendingListen := None\<rparr>, sent = sent c @ listen_due (st c),
      wroteAny = (wroteAny c \<or> pendingListen (st c) \<noteq> None),
      calls = calls c @ payloads (listen_due (st c))\<rparr>"
    by (cases "pendingListen (st c)")
       (auto simp: send_listen_def listen_due_def
          split: if_splits flow.splits dest!: WriteLine_cases(1))
next
  fix wr and c c' :: "'f cycle"
  assume "send_listen wr c = Goto_disconnect c'"
  from send_listen_Goto [OF this]
  show "\<exists>p. strict_prefix p (listen_due (st c)) \<and> sent c' = sent c @ p
        \<and> calls c' = calls c @ payloads p
              @ (if connected (st c) \<and> pipe (st c)
                 then [payloads (listen_due (st c)) ! length p] else [])"
    by (intro one_line_Goto) simp_all
next
  fix wr and c c' :: "'f cycle"
  assume "send_listen wr c = Goto_disconnect c'"
  then show "kept (st c) (st c')"
    by (auto dest!: send_listen_Goto simp: kept_refl)
next
  fix wr :: "nat \<Rightarrow> bool" and c c' :: "'f cycle"
  assume "connected (st c)" "pipe (st c)" "\<forall>k. wr k"
  then show "send_listen wr c \<noteq> Goto_disconnect c'"
    by (auto simp: send_listen_def WriteLine_cases(3) split: option.splits)
next
  fix s :: "'f PipeClient"
  show "kept s (s\<lparr>pendingListen := None\<rparr>)"
    by (simp add: kept_def desiredCfg_upd)
qed

lemma send_listen_shouts_Goto:
  "send_listen_shouts wr c = Goto_disconnect c' \<Longrightarrow>
     st c' = st c \<and> sent c' = sent c \<and> listen_shouts_due (st c) \<noteq> []
     \<and> calls c' = calls c
         @ (if connected (st c) \<and> pipe (st c)
            then [payloads (listen_shouts_due (st c)) ! 0] else [])"
  by (cases "pendingListenVoiceHandle (st c)")
     (auto simp: send_listen_shouts_def listen_shouts_due_def
        split: if_splits flow.splits dest!: WriteLine_cases(2))

lemma send_listen_shouts_spec:
  "block_spec send_listen_shouts listen_shouts_due (\<lambda>s. s\<lparr>pendingListenVoiceHandle := None\<rparr>)
     (\<lambda>s. pendingListenVoiceHandle s \<noteq> None)"
proof (rule block_specI)
  fix wr and c c' :: "'f cycle"
  assume "send_listen_shouts wr c = Next c'"
  then show "c' = \<lparr>st = (st c)\<lparr>pendingListenVoiceHandle := None\<rparr>,
      sent = sent c @ listen_shouts_due (st c),
      wroteAny = (wroteAny c \<or> pendingListenVoiceHandle (st c) \<noteq> None),
      calls = calls c @ payloads (listen_shouts_due (st c))\<rparr>"
    by (cases "pendingListenVoiceHandle (st c)")
       (auto simp: send_listen_shouts_def listen_shouts_due_def
          split: if_splits flow.splits dest!: WriteLine_cases(1))
next
  fix wr and c c' :: "'f cycle"
  assume "send_listen_shouts wr c = Goto_disconnect c'"
  from send_listen_shouts_Goto [OF this]
  show "\<exists>p. strict_prefix p (listen_shouts_due (st c)) \<and> sent c' = sent c @ p
        \<and> calls c' = calls c @ payloads p
              @ (if connected (st c) \<and> pipe (st c)
                 then [payloads (listen_shouts_due (st c)) ! length p] else [])"
    by (intro one_line_Goto) simp_all
next
  fix wr and c c' :: "'f cycle"
  assume "send_listen_shouts wr c = Goto_disconnect c'"
  then show "kept (st c) (st c')"
    by (auto dest!: send_listen_shouts_Goto simp: kept_refl)
next
  fix wr :: "nat \<Rightarrow> bool" and c c' :: "'f cycle"
  assume "connected (st c)" "pipe (st c)" "\<forall>k. wr k"
  then show "send_listen_shouts wr c \<noteq> Goto_disconnect c'"
    by (auto simp: send_listen_shouts_def WriteLine_cases(3) split: option.splits)
next
  fix s :: "'f PipeClient"
  show "kept s (s\<lparr>pendingListenVoiceHandle := None\<rparr>)"
    by (simp add: kept_def desiredCfg_upd)
qed

text \<open>The two batches, cleared before the first write.\<close>

lemma send_options_Goto:
  assumes "send_options wr c = Goto_disconnect c'"
  shows "st c' = (st c)\<lparr>pendingOptions := None\<rparr>"
    and "\<exists>p. strict_prefix p (options_due (st c)) \<and> sent c' = sent c @ p
        \<and> calls c' = calls c @ payloads p
              @ (if connected (st c) \<and> pipe (st c)
                 then [payloads (options_due (st c)) ! length p] else [])"
  using assms
  by (cases "pendingOptions (st c)";
      auto simp: send_options_def options_due_def simp del: WriteLines.simps
        split: flow.splits dest!: WriteLines_Goto)+

lemma send_options_spec:
  "block_spec send_options options_due (\<lambda>s. s\<lparr>pendingOptions := None\<rparr>)
     (\<lambda>s. pendingOptions s \<noteq> None)"
proof (rule block_specI)
  fix wr and c c' :: "'f cycle"
  assume "send_options wr c = Next c'"
  then show "c' = \<lparr>st = (st c)\<lparr>pendingOptions := None\<rparr>, sent = sent c @ options_due (st c),
      wroteAny = (wroteAny c \<or> pendingOptions (st c) \<noteq> None),
      calls = calls c @ payloads (options_due (st c))\<rparr>"
    by (cases "pendingOptions (st c)")
       (auto simp: send_options_def options_due_def simp del: WriteLines.simps
          split: flow.splits dest!: WriteLines_Next)
next
  fix wr and c c' :: "'f cycle"
  assume "send_options wr c = Goto_disconnect c'"
  then show "\<exists>p. strict_prefix p (options_due (st c)) \<and> sent c' = sent c @ p
        \<and> calls c' = calls c @ payloads p
              @ (if connected (st c) \<and> pipe (st c)
                 then [payloads (options_due (st c)) ! length p] else [])"
    by (rule send_options_Goto(2))
next
  fix wr and c c' :: "'f cycle"
  assume "send_options wr c = Goto_disconnect c'"
  from send_options_Goto(1) [OF this] show "kept (st c) (st c')"
    by (simp add: kept_def desiredCfg_upd)
next
  fix wr :: "nat \<Rightarrow> bool" and c c' :: "'f cycle"
  assume "connected (st c)" "pipe (st c)" "\<forall>k. wr k"
  then show "send_options wr c \<noteq> Goto_disconnect c'"
    by (auto simp: send_options_def WriteLines_ok simp del: WriteLines.simps
          split: option.splits flow.splits)
next
  fix s :: "'f PipeClient"
  show "kept s (s\<lparr>pendingOptions := None\<rparr>)"
    by (simp add: kept_def desiredCfg_upd)
qed

lemma send_favorites_Goto:
  assumes "send_favorites wr c = Goto_disconnect c'"
  shows "st c' = (st c)\<lparr>pendingFavorites := None\<rparr>"
    and "\<exists>p. strict_prefix p (favorites_due (st c)) \<and> sent c' = sent c @ p
        \<and> calls c' = calls c @ payloads p
              @ (if connected (st c) \<and> pipe (st c)
                 then [payloads (favorites_due (st c)) ! length p] else [])"
  using assms
  by (cases "pendingFavorites (st c)";
      auto simp: send_favorites_def favorites_due_def simp del: WriteLines.simps
        split: flow.splits dest!: WriteLines_Goto)+

lemma send_favorites_spec:
  "block_spec send_favorites favorites_due (\<lambda>s. s\<lparr>pendingFavorites := None\<rparr>)
     (\<lambda>s. pendingFavorites s \<noteq> None)"
proof (rule block_specI)
  fix wr and c c' :: "'f cycle"
  assume "send_favorites wr c = Next c'"
  then show "c' = \<lparr>st = (st c)\<lparr>pendingFavorites := None\<rparr>, sent = sent c @ favorites_due (st c),
      wroteAny = (wroteAny c \<or> pendingFavorites (st c) \<noteq> None),
      calls = calls c @ payloads (favorites_due (st c))\<rparr>"
    by (cases "pendingFavorites (st c)")
       (auto simp: send_favorites_def favorites_due_def simp del: WriteLines.simps
          split: flow.splits dest!: WriteLines_Next)
next
  fix wr and c c' :: "'f cycle"
  assume "send_favorites wr c = Goto_disconnect c'"
  then show "\<exists>p. strict_prefix p (favorites_due (st c)) \<and> sent c' = sent c @ p
        \<and> calls c' = calls c @ payloads p
              @ (if connected (st c) \<and> pipe (st c)
                 then [payloads (favorites_due (st c)) ! length p] else [])"
    by (rule send_favorites_Goto(2))
next
  fix wr and c c' :: "'f cycle"
  assume "send_favorites wr c = Goto_disconnect c'"
  from send_favorites_Goto(1) [OF this] show "kept (st c) (st c')"
    by (simp add: kept_def desiredCfg_upd)
next
  fix wr :: "nat \<Rightarrow> bool" and c c' :: "'f cycle"
  assume "connected (st c)" "pipe (st c)" "\<forall>k. wr k"
  then show "send_favorites wr c \<noteq> Goto_disconnect c'"
    by (auto simp: send_favorites_def WriteLines_ok simp del: WriteLines.simps
          split: option.splits flow.splits)
next
  fix s :: "'f PipeClient"
  show "kept s (s\<lparr>pendingFavorites := None\<rparr>)"
    by (simp add: kept_def desiredCfg_upd)
qed


section \<open>The whole transmit phase\<close>

type_synonym 'f block_summary =
  "('f PipeClient \<Rightarrow> (item \<times> string) list) \<times> ('f PipeClient \<Rightarrow> 'f PipeClient)
     \<times> ('f PipeClient \<Rightarrow> bool)"

fun expect :: "'f block_summary list \<Rightarrow> 'f PipeClient \<Rightarrow> (item \<times> string) list" where
  "expect [] s = []"
| "expect ((due, done, flag) # r) s = due s @ expect r (done s)"

fun final :: "'f block_summary list \<Rightarrow> 'f PipeClient \<Rightarrow> 'f PipeClient" where
  "final [] s = s"
| "final ((due, done, flag) # r) s = final r (done s)"

fun any_flag :: "'f block_summary list \<Rightarrow> 'f PipeClient \<Rightarrow> bool" where
  "any_flag [] s = False"
| "any_flag ((due, done, flag) # r) s = (flag s \<or> any_flag r (done s))"

lemma kept_trans: "kept a b \<Longrightarrow> kept b c \<Longrightarrow> kept a c"
  by (simp add: kept_def)

lemma block_specD:
  assumes "block_spec b due done flag"
  shows "b wr c = Next c' \<Longrightarrow>
      c' = \<lparr>st = done (st c), sent = sent c @ due (st c),
             wroteAny = (wroteAny c \<or> flag (st c)),
             calls = calls c @ payloads (due (st c))\<rparr>"
    and "b wr c = Goto_disconnect c' \<Longrightarrow>
      \<exists>p. strict_prefix p (due (st c)) \<and> sent c' = sent c @ p
        \<and> calls c' = calls c @ payloads p
              @ (if connected (st c) \<and> pipe (st c)
                 then [payloads (due (st c)) ! length p] else [])"
    and "b wr c = Goto_disconnect c' \<Longrightarrow> kept (st c) (st c')"
    and "connected (st c) \<Longrightarrow> pipe (st c) \<Longrightarrow> \<forall>k. wr k \<Longrightarrow> b wr c \<noteq> Goto_disconnect c'"
    and "kept s (done s)"
  using assms unfolding block_spec_def by blast+

lemma run_blocks_Next:
  assumes "list_all2 (\<lambda>b (due, done, flag). block_spec b due done flag) bs sp"
    and "run_blocks bs wr c = Next c'"
  shows "c' = \<lparr>st = final sp (st c), sent = sent c @ expect sp (st c),
               wroteAny = (wroteAny c \<or> any_flag sp (st c)),
               calls = calls c @ payloads (expect sp (st c))\<rparr>"
  using assms
proof (induction bs sp arbitrary: c rule: list_all2_induct)
  case Nil
  then show ?case by simp
next
  case (Cons b bs y sp)
  obtain due "done" flag where y: "y = (due, done, flag)" by (cases y)
  with Cons.hyps have sp: "block_spec b due done flag" by simp
  from Cons.prems obtain d where d: "b wr c = Next d" and r: "run_blocks bs wr d = Next c'"
    by (auto simp: and_then_def split: flow.splits)
  from block_specD(1) [OF sp d] Cons.IH [OF r] show ?case
    by (simp add: y)
qed

lemma run_blocks_Goto:
  assumes "list_all2 (\<lambda>b (due, done, flag). block_spec b due done flag) bs sp"
    and "run_blocks bs wr c = Goto_disconnect c'"
  shows "(\<exists>p. strict_prefix p (expect sp (st c)) \<and> sent c' = sent c @ p
            \<and> calls c' = calls c @ payloads p
                  @ (if connected (st c) \<and> pipe (st c)
                     then [payloads (expect sp (st c)) ! length p] else []))
         \<and> kept (st c) (st c')"
  using assms
proof (induction bs sp arbitrary: c rule: list_all2_induct)
  case Nil
  then show ?case by simp
next
  case (Cons b bs y sp)
  obtain due "done" flag where y: "y = (due, done, flag)" by (cases y)
  with Cons.hyps have sp: "block_spec b due done flag" by simp
  show ?case
  proof (cases "b wr c")
    case (Goto_disconnect d)
    with Cons.prems have e: "d = c'" by (simp add: and_then_def)
    from block_specD(2) [OF sp Goto_disconnect] obtain p where
      p: "strict_prefix p (due (st c))" "sent d = sent c @ p"
        "calls d = calls c @ payloads p
              @ (if connected (st c) \<and> pipe (st c)
                 then [payloads (due (st c)) ! length p] else [])"
      by blast
    from p(1) have l: "length p < length (due (st c))"
      by (metis prefix_length_less)
    from p(1) have "strict_prefix p (due (st c) @ expect sp (done (st c)))"
      by (metis prefix_order.less_le_trans prefixI)
    moreover have "payloads (due (st c) @ expect sp (done (st c))) ! length p
        = payloads (due (st c)) ! length p"
      using l by (simp add: nth_append)
    ultimately have "strict_prefix p (expect (y # sp) (st c)) \<and> sent c' = sent c @ p
        \<and> calls c' = calls c @ payloads p
              @ (if connected (st c) \<and> pipe (st c)
                 then [payloads (expect (y # sp) (st c)) ! length p] else [])"
      using p(2,3) e by (simp add: y)
    with e block_specD(3) [OF sp Goto_disconnect] show ?thesis
      by blast
  next
    case (Next d)
    with Cons.prems have r: "run_blocks bs wr d = Goto_disconnect c'"
      by (simp add: and_then_def)
    from block_specD(1) [OF sp Next] have d: "st d = done (st c)" "sent d = sent c @ due (st c)"
      "calls d = calls c @ payloads (due (st c))"
      by simp_all
    from block_specD(5) [OF sp, of "st c"] have u: "connected (st d) = connected (st c)"
      "pipe (st d) = pipe (st c)"
      by (simp_all add: d(1) kept_def)
    from Cons.IH [OF r] obtain p where
      p: "strict_prefix p (expect sp (st d))" "sent c' = sent d @ p"
        "calls c' = calls d @ payloads p
              @ (if connected (st d) \<and> pipe (st d)
                 then [payloads (expect sp (st d)) ! length p] else [])"
      and k: "kept (st d) (st c')"
      by blast
    have "strict_prefix (due (st c) @ p) (due (st c) @ expect sp (done (st c)))"
      using p(1) d(1) by (simp add: strict_prefix_def)
    moreover have "sent c' = sent c @ due (st c) @ p" using p(2) d(2) by simp
    moreover have "payloads (due (st c) @ expect sp (done (st c))) ! length (due (st c) @ p)
        = payloads (expect sp (st d)) ! length p"
      by (simp add: d(1) nth_append)
    then have "calls c' = calls c @ payloads (due (st c) @ p)
              @ (if connected (st c) \<and> pipe (st c)
                 then [payloads (due (st c) @ expect sp (done (st c))) ! length (due (st c) @ p)]
                 else [])"
      using p(3) d(3) u by simp
    moreover have "kept (st c) (st c')"
      using k d(1) block_specD(5) [OF sp] kept_trans by metis
    ultimately have "(strict_prefix (due (st c) @ p) (expect (y # sp) (st c))
          \<and> sent c' = sent c @ (due (st c) @ p)
          \<and> calls c' = calls c @ payloads (due (st c) @ p)
              @ (if connected (st c) \<and> pipe (st c)
                 then [payloads (expect (y # sp) (st c)) ! length (due (st c) @ p)] else []))
        \<and> kept (st c) (st c')"
      by (simp add: y)
    then show ?thesis by blast
  qed
qed

lemma run_blocks_ok:
  assumes "list_all2 (\<lambda>b (due, done, flag). block_spec b due done flag) bs sp"
    and "connected (st c)" "pipe (st c)" "\<forall>k. wr k"
  shows "run_blocks bs wr c \<noteq> Goto_disconnect c'"
  using assms
proof (induction bs sp arbitrary: c rule: list_all2_induct)
  case Nil
  then show ?case by simp
next
  case (Cons b bs y sp)
  obtain due "done" flag where y: "y = (due, done, flag)" by (cases y)
  with Cons.hyps have sp: "block_spec b due done flag" by simp
  show ?case
  proof (cases "b wr c")
    case (Goto_disconnect d)
    with block_specD(4) [OF sp Cons.prems(1,2,3)] show ?thesis by blast
  next
    case (Next d)
    from block_specD(1) [OF sp Next] have "st d = done (st c)" by simp
    with block_specD(5) [OF sp, of "st c"] Cons.prems
    have "connected (st d)" "pipe (st d)" by (simp_all add: kept_def)
    from Cons.IH [OF this Cons.prems(3)] Next show ?thesis
      by (simp add: and_then_def)
  qed
qed

text \<open>
  The lines a cycle has to send from state \<open>s\<close>, in the order of the specification:
  language, options batch, close, favorites batch, listen, the ten CFG toggles, shout-listen.
\<close>

definition due_lines :: "'f PipeClient \<Rightarrow> (item \<times> string) list" where
  "due_lines s =
     lang_due s @ options_due s @ close_due s @ favorites_due s @ listen_due s
       @ cfg_due CfgOpen s @ cfg_due CfgClose s @ cfg_due CfgVoiceHandle s @ cfg_due CfgDebug s
       @ cfg_due CfgSaveWav s @ cfg_due CfgDialogueSelect s @ cfg_due CfgWeapons s
       @ cfg_due CfgSpells s @ cfg_due CfgPowers s @ cfg_due CfgPotions s
       @ listen_shouts_due s"

definition something_due :: "'f PipeClient \<Rightarrow> bool" where
  "something_due s \<longleftrightarrow>
     lang_due s \<noteq> [] \<or> pendingOptions s \<noteq> None \<or> pendingClose s \<or> pendingFavorites s \<noteq> None
     \<or> pendingListen s \<noteq> None
     \<or> list_ex (\<lambda>k. cfg_due k s \<noteq> [])
          [CfgOpen, CfgClose, CfgVoiceHandle, CfgDebug, CfgSaveWav, CfgDialogueSelect,
           CfgWeapons, CfgSpells, CfgPowers, CfgPotions]
     \<or> pendingListenVoiceHandle s \<noteq> None"

definition drained :: "'f PipeClient \<Rightarrow> 'f PipeClient" where
  "drained s =
     (fold cfg_done
        [CfgOpen, CfgClose, CfgVoiceHandle, CfgDebug, CfgSaveWav, CfgDialogueSelect,
         CfgWeapons, CfgSpells, CfgPowers, CfgPotions]
        ((lang_done s)\<lparr>pendingOptions := None, pendingClose := False, pendingFavorites := None,
           pendingListen := None\<rparr>))
     \<lparr>pendingListenVoiceHandle := None\<rparr>"

definition summaries :: "unit \<Rightarrow> 'f block_summary list" where
  "summaries u =
     [(lang_due, lang_done, \<lambda>s. lang_due s \<noteq> []),
      (options_due, \<lambda>s. s\<lparr>pendingOptions := None\<rparr>, \<lambda>s. pendingOptions s \<noteq> None),
      (close_due, \<lambda>s. s\<lparr>pendingClose := False\<rparr>, pendingClose),
      (favorites_due, \<lambda>s. s\<lparr>pendingFavorites := None\<rparr>, \<lambda>s. pendingFavorites s \<noteq> None),
      (listen_due, \<lambda>s. s\<lparr>pendingListen := None\<rparr>, \<lambda>s. pendingListen s \<noteq> None),
      (cfg_due CfgOpen, cfg_done CfgOpen, \<lambda>s. cfg_due CfgOpen s \<noteq> []),
      (cfg_due CfgClose, cfg_done CfgClose, \<lambda>s. cfg_due CfgClose s \<noteq> []),
      (cfg_due CfgVoiceHandle, cfg_done CfgVoiceHandle, \<lambda>s. cfg_due CfgVoiceHandle s \<noteq> []),
      (cfg_due CfgDebug, cfg_done CfgDebug, \<lambda>s. cfg_due CfgDebug s \<noteq> []),
      (cfg_due CfgSaveWav, cfg_done CfgSaveWav, \<lambda>s. cfg_due CfgSaveWav s \<noteq> []),
      (cfg_due CfgDialogueSelect, cfg_done CfgDialogueSelect,
         \<lambda>s. cfg_due CfgDialogueSelect s \<noteq> []),
      (cfg_due CfgWeapons, cfg_done CfgWeapons, \<lambda>s. cfg_due CfgWeapons s \<noteq> []),
      (cfg_due CfgSpells, cfg_done CfgSpells, \<lambda>s. cfg_due CfgSpells s \<noteq> []),
      (cfg_due CfgPowers, cfg_done CfgPowers, \<lambda>s. cfg_due CfgPowers s \<noteq> []),
      (cfg_due CfgPotions, cfg_done CfgPotions, \<lambda>s. cfg_due CfgPotions s \<noteq> []),
      (listen_shouts_due, \<lambda>s. s\<lparr>pendingListenVoiceHandle := None\<rparr>,
         \<lambda>s. pendingListenVoiceHandle s \<noteq> None)]"

text \<open>No block changes what another block sends.\<close>

lemma due_frame_lang [simp]:
  "options_due (lang_done s) = options_due s"
  "close_due (lang_done s) = close_due s"
  "favorites_due (lang_done s) = favorites_due s"
  "listen_due (lang_done s) = listen_due s"
  "cfg_due k (lang_done s) = cfg_due k s"
  "listen_shouts_due (lang_done s) = listen_shouts_due s"
  by (simp_all add: lang_done_def options_due_def close_due_def favorites_due_def
        listen_due_def cfg_due_def listen_shouts_due_def desiredCfg_upd lastSentCfg_upd
        cong: option.case_cong if_cong)

lemma due_frame_cfg [simp]:
  "lang_due (cfg_done j s) = lang_due s"
  "options_due (cfg_done j s) = options_due s"
  "close_due (cfg_done j s) = close_due s"
  "favorites_due (cfg_done j s) = favorites_due s"
  "listen_due (cfg_done j s) = listen_due s"
  "k \<noteq> j \<Longrightarrow> cfg_due k (cfg_done j s) = cfg_due k s"
  "listen_shouts_due (cfg_done j s) = listen_shouts_due s"
  by (simp_all add: cfg_done_def lang_due_def options_due_def close_due_def favorites_due_def
        listen_due_def cfg_due_def listen_shouts_due_def set_lastSentCfg_fields
        desiredCfg_set_lastSentCfg lastSentCfg_set_lastSentCfg
        cong: option.case_cong if_cong)

lemma due_frame_slots [simp]:
  "lang_due (s\<lparr>pendingOptions := a\<rparr>) = lang_due s"
  "lang_due (s\<lparr>pendingClose := b\<rparr>) = lang_due s"
  "lang_due (s\<lparr>pendingFavorites := a\<rparr>) = lang_due s"
  "lang_due (s\<lparr>pendingListen := d\<rparr>) = lang_due s"
  "lang_due (s\<lparr>pendingListenVoiceHandle := d\<rparr>) = lang_due s"
  "options_due (s\<lparr>pendingClose := b\<rparr>) = options_due s"
  "options_due (s\<lparr>pendingFavorites := a\<rparr>) = options_due s"
  "options_due (s\<lparr>pendingListen := d\<rparr>) = options_due s"
  "options_due (s\<lparr>pendingListenVoiceHandle := d\<rparr>) = options_due s"
  "close_due (s\<lparr>pendingOptions := a\<rparr>) = close_due s"
  "close_due (s\<lparr>pendingFavorites := a\<rparr>) = close_due s"
  "close_due (s\<lparr>pendingListen := d\<rparr>) = close_due s"
  "close_due (s\<lparr>pendingListenVoiceHandle := d\<rparr>) = close_due s"
  "favorites_due (s\<lparr>pendingOptions := a\<rparr>) = favorites_due s"
  "favorites_due (s\<lparr>pendingClose := b\<rparr>) = favorites_due s"
  "favorites_due (s\<lparr>pendingListen := d\<rparr>) = favorites_due s"
  "favorites_due (s\<lparr>pendingListenVoiceHandle := d\<rparr>) = favorites_due s"
  "listen_due (s\<lparr>pendingOptions := a\<rparr>) = listen_due s"
  "listen_due (s\<lparr>pendingClose := b\<rparr>) = listen_due s"
  "listen_due (s\<lparr>pendingFavorites := a\<rparr>) = listen_due s"
  "listen_due (s\<lparr>pendingListenVoiceHandle := d\<rparr>) = listen_due s"
  "listen_shouts_due (s\<lparr>pendingOptions := a\<rparr>) = listen_shouts_due s"
  "listen_shouts_due (s\<lparr>pendingClose := b\<rparr>) = listen_shouts_due s"
  "listen_shouts_due (s\<lparr>pendingFavorites := a\<rparr>) = listen_shouts_due s"
  "listen_shouts_due (s\<lparr>pendingListen := d\<rparr>) = listen_shouts_due s"
  "cfg_due k (s\<lparr>pendingOptions := a\<rparr>) = cfg_due k s"
  "cfg_due k (s\<lparr>pendingClose := b\<rparr>) = cfg_due k s"
  "cfg_due k (s\<lparr>pendingFavorites := a\<rparr>) = cfg_due k s"
  "cfg_due k (s\<lparr>pendingListen := d\<rparr>) = cfg_due k s"
  "cfg_due k (s\<lparr>pendingListenVoiceHandle := d\<rparr>) = cfg_due k s"
  by (simp_all add: lang_due_def options_due_def close_due_def favorites_due_def
        listen_due_def cfg_due_def listen_shouts_due_def desiredCfg_upd lastSentCfg_upd
        cong: option.case_cong if_cong)

lemma slots_done [simp]:
  "pendingOptions (lang_done s) = pendingOptions s"
  "pendingClose (lang_done s) = pendingClose s"
  "pendingFavorites (lang_done s) = pendingFavorites s"
  "pendingListen (lang_done s) = pendingListen s"
  "pendingListenVoiceHandle (lang_done s) = pendingListenVoiceHandle s"
  "pendingOptions (cfg_done j s) = pendingOptions s"
  "pendingClose (cfg_done j s) = pendingClose s"
  "pendingFavorites (cfg_done j s) = pendingFavorites s"
  "pendingListen (cfg_done j s) = pendingListen s"
  "pendingListenVoiceHandle (cfg_done j s) = pendingListenVoiceHandle s"
  by (simp_all add: lang_done_def cfg_done_def set_lastSentCfg_fields)

lemma expect_summaries: "expect (summaries ()) s = due_lines s"
  by (simp add: summaries_def due_lines_def)

lemma final_summaries: "final (summaries ()) s = drained s"
  by (simp add: summaries_def drained_def)

lemma any_flag_summaries: "any_flag (summaries ()) s = something_due s"
  by (simp add: summaries_def something_due_def) blast

lemma blocks_summaries:
  "list_all2 (\<lambda>b (due, done, flag). block_spec b due done flag)
     [send_lang, send_options, send_close, send_favorites, send_listen,
      send_cfg CfgOpen, send_cfg CfgClose, send_cfg CfgVoiceHandle, send_cfg CfgDebug,
      send_cfg CfgSaveWav, send_cfg CfgDialogueSelect, send_cfg CfgWeapons,
      send_cfg CfgSpells, send_cfg CfgPowers, send_cfg CfgPotions,
      send_listen_shouts]
     (summaries ())"
  by (simp only: summaries_def list_all2_Cons list_all2_Nil split_conv simp_thms
        send_lang_spec send_options_spec send_close_spec
        send_favorites_spec send_listen_spec send_cfg_spec send_listen_shouts_spec)

lemma transmit_Next:
  assumes "transmit wr s = Next c"
  shows "c = \<lparr>st = drained s, sent = due_lines s, wroteAny = something_due s,
             calls = payloads (due_lines s)\<rparr>"
  using run_blocks_Next [OF blocks_summaries assms [unfolded transmit_def]]
  by (simp add: expect_summaries final_summaries any_flag_summaries)

lemma transmit_Goto:
  assumes "transmit wr s = Goto_disconnect c"
  shows "strict_prefix (sent c) (due_lines s)" and "kept s (st c)"
    and "calls c = payloads (sent c)
           @ (if connected s \<and> pipe s then [payloads (due_lines s) ! length (sent c)] else [])"
  using run_blocks_Goto [OF blocks_summaries assms [unfolded transmit_def]]
  by (auto simp: expect_summaries)

lemma transmit_ok:
  assumes "connected s" "pipe s" "\<forall>k. wr k"
  shows "transmit wr s = Next \<lparr>st = drained s, sent = due_lines s, wroteAny = something_due s,
           calls = payloads (due_lines s)\<rparr>"
proof (cases "transmit wr s")
  case (Goto_disconnect c)
  with run_blocks_ok [OF blocks_summaries,
      of "\<lparr>st = s, sent = [], wroteAny = False, calls = []\<rparr>" wr c] assms
  show ?thesis by (simp add: transmit_def)
next
  case (Next c)
  with transmit_Next [OF Next] show ?thesis by simp
qed

section \<open>The wire format of the specification\<close>

text \<open>
  Section 4.1 of the specification gives the outbound lines as literal text. They are
  written out here without the functions that the engine uses to build them, so that the
  two can be compared.
\<close>

text \<open>
  The configuration lines \<open>CFG|<NAME>|<0|1>\<close>, name by name.
\<close>

fun cfg_wire :: "cfg \<Rightarrow> bool \<Rightarrow> string" where
  "cfg_wire CfgOpen on = (if on then ''CFG|OPEN|1'' else ''CFG|OPEN|0'')"
| "cfg_wire CfgClose on = (if on then ''CFG|CLOSE|1'' else ''CFG|CLOSE|0'')"
| "cfg_wire CfgVoiceHandle on = (if on then ''CFG|SHOUTS|1'' else ''CFG|SHOUTS|0'')"
| "cfg_wire CfgDebug on = (if on then ''CFG|DEBUG|1'' else ''CFG|DEBUG|0'')"
| "cfg_wire CfgSaveWav on = (if on then ''CFG|SAVE_WAV|1'' else ''CFG|SAVE_WAV|0'')"
| "cfg_wire CfgDialogueSelect on =
     (if on then ''CFG|DIALOGUE_SELECT|1'' else ''CFG|DIALOGUE_SELECT|0'')"
| "cfg_wire CfgWeapons on = (if on then ''CFG|WEAPONS|1'' else ''CFG|WEAPONS|0'')"
| "cfg_wire CfgSpells on = (if on then ''CFG|SPELLS|1'' else ''CFG|SPELLS|0'')"
| "cfg_wire CfgPowers on = (if on then ''CFG|POWERS|1'' else ''CFG|POWERS|0'')"
| "cfg_wire CfgPotions on = (if on then ''CFG|POTIONS|1'' else ''CFG|POTIONS|0'')"

text \<open>The enumeration order of the toggles.\<close>

definition cfg_order :: "cfg list" where
  "cfg_order =
     [CfgOpen, CfgClose, CfgVoiceHandle, CfgDebug, CfgSaveWav, CfgDialogueSelect, CfgWeapons,
      CfgSpells, CfgPowers, CfgPotions]"

text \<open>The count of a dialogue options batch is written in decimal.\<close>

definition digit :: "nat \<Rightarrow> char" where
  "digit d =
     (if d = 0 then CHR ''0'' else if d = 1 then CHR ''1'' else if d = 2 then CHR ''2''
      else if d = 3 then CHR ''3'' else if d = 4 then CHR ''4'' else if d = 5 then CHR ''5''
      else if d = 6 then CHR ''6'' else if d = 7 then CHR ''7'' else if d = 8 then CHR ''8''
      else CHR ''9'')"

function decimal :: "nat \<Rightarrow> string" where
  "decimal n = (if n < 10 then [digit n] else decimal (n div 10) @ [digit (n mod 10)])"
  by pat_completeness auto
termination
  by (relation "measure id") auto

declare decimal.simps [simp del]

text \<open>
  A dialogue options batch: \<open>OPEN|<count>\<close>, one \<open>OPT|<text>\<close> per option with every
  carriage return and line feed of the text replaced by a space, and \<open>END\<close>.
\<close>

definition options_wire :: "string list \<Rightarrow> string list" where
  "options_wire opts =
     (''OPEN|'' @ decimal (length opts))
       # map (\<lambda>x. ''OPT|''
                @ map (\<lambda>ch. if ch = CHR 0x0A \<or> ch = CHR 0x0D then CHR '' '' else ch) x) opts
       @ [''END'']"

text \<open>
  What is due in a state, item by item: a sticky toggle when its desired value is set and
  differs from the value last sent, a one-shot command when its slot is filled.
\<close>

definition wire_lang :: "'f PipeClient \<Rightarrow> (item \<times> string) list" where
  "wire_lang s =
     (case desiredGameLang s of
        None \<Rightarrow> []
      | Some code \<Rightarrow> if lastSentGameLang s = Some code then [] else [(Lang, ''LANG|'' @ code)])"

definition wire_options :: "'f PipeClient \<Rightarrow> (item \<times> string) list" where
  "wire_options s =
     (case pendingOptions s of None \<Rightarrow> [] | Some opts \<Rightarrow> map (Pair Options) (options_wire opts))"

definition wire_close :: "'f PipeClient \<Rightarrow> (item \<times> string) list" where
  "wire_close s = (if pendingClose s then [(Close, ''CLOSE'')] else [])"

definition wire_favorites :: "'f PipeClient \<Rightarrow> (item \<times> string) list" where
  "wire_favorites s =
     (case pendingFavorites s of None \<Rightarrow> [] | Some lines \<Rightarrow> map (Pair Favorites) lines)"

definition wire_listen :: "'f PipeClient \<Rightarrow> (item \<times> string) list" where
  "wire_listen s =
     (case pendingListen s of
        None \<Rightarrow> []
      | Some on \<Rightarrow> [(Listen, if on then ''LISTEN|1'' else ''LISTEN|0'')])"

definition wire_cfg :: "cfg \<Rightarrow> 'f PipeClient \<Rightarrow> (item \<times> string) list" where
  "wire_cfg k s =
     (case desiredCfg k s of
        None \<Rightarrow> []
      | Some on \<Rightarrow> if lastSentCfg k s = Some on then [] else [(Cfg k, cfg_wire k on)])"

definition wire_listen_shouts :: "'f PipeClient \<Rightarrow> (item \<times> string) list" where
  "wire_listen_shouts s =
     (case pendingListenVoiceHandle s of
        None \<Rightarrow> []
      | Some on \<Rightarrow> [(ListenShouts, if on then ''LISTEN|SHOUTS|1'' else ''LISTEN|SHOUTS|0'')])"

text \<open>
  The lines of one service cycle in the priority order of section 4.4: language, options
  batch, close, favorites batch, listen, the CFG toggles in their enumeration order,
  shout-listen.
\<close>

definition wire_due :: "'f PipeClient \<Rightarrow> (item \<times> string) list" where
  "wire_due s =
     wire_lang s @ wire_options s @ wire_close s @ wire_favorites s @ wire_listen s
       @ concat (map (\<lambda>k. wire_cfg k s) cfg_order) @ wire_listen_shouts s"

text \<open>The engine builds exactly these lines.\<close>

lemma digit_chars:
  "n < 10 \<Longrightarrow> ''0123456789'' ! n = digit n"
proof -
  assume "n < 10"
  then have "n \<in> {0, 1, 2, 3, 4, 5, 6, 7, 8, 9}" by auto
  then show ?thesis by (auto simp: digit_def)
qed

lemma to_string_decimal: "to_string n = decimal n"
proof (induction n rule: to_string.induct)
  case (1 n)
  show ?case
  proof (cases "n < 10")
    case True
    then show ?thesis
      by (subst to_string.simps, subst decimal.simps) (simp add: digit_chars)
  next
    case False
    with 1 show ?thesis
      by (subst to_string.simps, subst decimal.simps) (simp add: digit_chars)
  qed
qed

lemma cfg_wire_eq: "''CFG|'' @ cfg_name k @ ''|'' @ bit_text on = cfg_wire k on"
  by (cases k; cases on; simp add: bit_text_def)

lemma wire_items:
  "lang_due s = wire_lang s"
  "options_due s = wire_options s"
  "close_due s = wire_close s"
  "favorites_due s = wire_favorites s"
  "listen_due s = wire_listen s"
  "cfg_due k s = wire_cfg k s"
  "listen_shouts_due s = wire_listen_shouts s"
proof -
  show "lang_due s = wire_lang s" by (simp add: lang_due_def wire_lang_def)
  show "options_due s = wire_options s"
    by (simp add: options_due_def wire_options_def options_wire_def to_string_decimal
          SanitizeInPlace_def split: option.splits)
  show "close_due s = wire_close s" by (simp add: close_due_def wire_close_def)
  show "favorites_due s = wire_favorites s" by (simp add: favorites_due_def wire_favorites_def)
  show "listen_due s = wire_listen s"
    by (simp add: listen_due_def wire_listen_def bit_text_def split: option.splits)
  show "cfg_due k s = wire_cfg k s"
    using cfg_wire_eq by (simp add: cfg_due_def wire_cfg_def split: option.splits)
  show "listen_shouts_due s = wire_listen_shouts s"
    by (simp add: listen_shouts_due_def wire_listen_shouts_def bit_text_def split: option.splits)
qed

lemma due_lines_wire: "due_lines s = wire_due s"
  by (simp add: due_lines_def wire_due_def cfg_order_def wire_items)

section \<open>The order of transmission\<close>

fun rank :: "item \<Rightarrow> nat" where
  "rank Lang = 0"
| "rank Options = 1"
| "rank Close = 2"
| "rank Favorites = 3"
| "rank Listen = 4"
| "rank (Cfg CfgOpen) = 5"
| "rank (Cfg CfgClose) = 6"
| "rank (Cfg CfgVoiceHandle) = 7"
| "rank (Cfg CfgDebug) = 8"
| "rank (Cfg CfgSaveWav) = 9"
| "rank (Cfg CfgDialogueSelect) = 10"
| "rank (Cfg CfgWeapons) = 11"
| "rank (Cfg CfgSpells) = 12"
| "rank (Cfg CfgPowers) = 13"
| "rank (Cfg CfgPotions) = 14"
| "rank ListenShouts = 15"

definition in_order :: "(item \<times> string) list \<Rightarrow> bool" where
  "in_order xs \<longleftrightarrow> sorted (map (rank \<circ> fst) xs)"

fun steps :: "(nat \<times> nat) list \<Rightarrow> nat list" where
  "steps [] = []"
| "steps ((r, n) # rest) = replicate n r @ steps rest"

lemma set_steps: "set (steps ps) \<subseteq> fst ` set ps"
  by (induction ps) auto

lemma sorted_steps: "sorted (map fst ps) \<Longrightarrow> sorted (steps ps)"
proof (induction ps)
  case Nil
  then show ?case by simp
next
  case (Cons p ps)
  obtain r n where p: "p = (r, n)" by (cases p)
  from Cons.prems have "\<forall>y \<in> fst ` set ps. r \<le> y" and "sorted (map fst ps)"
    by (auto simp: p)
  with Cons.IH set_steps [of ps] show ?case
    by (auto simp: p sorted_append)
qed

lemma due_tags:
  "map (rank \<circ> fst) (lang_due s) = replicate (length (lang_due s)) 0"
  "map (rank \<circ> fst) (options_due s) = replicate (length (options_due s)) 1"
  "map (rank \<circ> fst) (close_due s) = replicate (length (close_due s)) 2"
  "map (rank \<circ> fst) (favorites_due s) = replicate (length (favorites_due s)) 3"
  "map (rank \<circ> fst) (listen_due s) = replicate (length (listen_due s)) 4"
  "map (rank \<circ> fst) (cfg_due k s) = replicate (length (cfg_due k s)) (rank (Cfg k))"
  "map (rank \<circ> fst) (listen_shouts_due s) = replicate (length (listen_shouts_due s)) 15"
  by (simp_all add: lang_due_def options_due_def close_due_def favorites_due_def listen_due_def
        cfg_due_def listen_shouts_due_def map_replicate_const comp_def replicate_append_same
        split: option.splits)

lemma due_lines_in_order: "in_order (due_lines s)"
proof -
  have e: "map (rank \<circ> fst) (due_lines s) =
      steps [(0, length (lang_due s)), (1, length (options_due s)), (2, length (close_due s)),
        (3, length (favorites_due s)), (4, length (listen_due s)),
        (5, length (cfg_due CfgOpen s)), (6, length (cfg_due CfgClose s)),
        (7, length (cfg_due CfgVoiceHandle s)), (8, length (cfg_due CfgDebug s)),
        (9, length (cfg_due CfgSaveWav s)), (10, length (cfg_due CfgDialogueSelect s)),
        (11, length (cfg_due CfgWeapons s)), (12, length (cfg_due CfgSpells s)),
        (13, length (cfg_due CfgPowers s)), (14, length (cfg_due CfgPotions s)),
        (15, length (listen_shouts_due s))]"
    by (simp add: due_lines_def due_tags)
  have "sorted (steps [(0, length (lang_due s)), (1, length (options_due s)), (2, length (close_due s)),
        (3, length (favorites_due s)), (4, length (listen_due s)),
        (5, length (cfg_due CfgOpen s)), (6, length (cfg_due CfgClose s)),
        (7, length (cfg_due CfgVoiceHandle s)), (8, length (cfg_due CfgDebug s)),
        (9, length (cfg_due CfgSaveWav s)), (10, length (cfg_due CfgDialogueSelect s)),
        (11, length (cfg_due CfgWeapons s)), (12, length (cfg_due CfgSpells s)),
        (13, length (cfg_due CfgPowers s)), (14, length (cfg_due CfgPotions s)),
        (15, length (listen_shouts_due s))])"
    by (rule sorted_steps) simp
  then show ?thesis
    by (simp only: in_order_def e)
qed

lemma prefix_in_order: "prefix p xs \<Longrightarrow> in_order xs \<Longrightarrow> in_order p"
  by (auto simp: in_order_def prefix_def sorted_append)

text \<open>An aborted cycle has not sent the shout-listen line, the last one of the order.\<close>

lemma no_ListenShouts_before:
  "ListenShouts \<notin> fst ` set
     (lang_due s @ options_due s @ close_due s @ favorites_due s @ listen_due s
       @ cfg_due CfgOpen s @ cfg_due CfgClose s @ cfg_due CfgVoiceHandle s @ cfg_due CfgDebug s
       @ cfg_due CfgSaveWav s @ cfg_due CfgDialogueSelect s @ cfg_due CfgWeapons s
       @ cfg_due CfgSpells s @ cfg_due CfgPowers s @ cfg_due CfgPotions s)"
  by (auto simp: lang_due_def options_due_def close_due_def favorites_due_def listen_due_def
        cfg_due_def split: option.splits if_splits)

lemma strict_prefix_snoc1:
  assumes "strict_prefix p (a @ b)" "length b \<le> 1"
  shows "prefix p a"
proof -
  from assms(1) obtain r where r: "a @ b = p @ r" "r \<noteq> []"
    by (auto simp: strict_prefix_def prefix_def)
  then have "length p < length (a @ b)"
    by (metis length_append length_greater_0_conv less_add_same_cancel1)
  with assms(2) have "length p \<le> length a" by simp
  with r(1) show ?thesis
    by (metis append_eq_append_conv_if prefixI take_is_prefix prefix_order.dual_order.trans
        append_take_drop_id)
qed

lemma aborted_no_ListenShouts:
  assumes "strict_prefix p (due_lines s)"
  shows "ListenShouts \<notin> fst ` set p"
proof -
  have "length (listen_shouts_due s) \<le> 1"
    by (simp add: listen_shouts_due_def split: option.splits)
  with assms have "prefix p
     (lang_due s @ options_due s @ close_due s @ favorites_due s @ listen_due s
       @ cfg_due CfgOpen s @ cfg_due CfgClose s @ cfg_due CfgVoiceHandle s @ cfg_due CfgDebug s
       @ cfg_due CfgSaveWav s @ cfg_due CfgDialogueSelect s @ cfg_due CfgWeapons s
       @ cfg_due CfgSpells s @ cfg_due CfgPowers s @ cfg_due CfgPotions s)"
    using strict_prefix_snoc1 [of p _ "listen_shouts_due s"]
    by (simp add: due_lines_def)
  then show ?thesis
    using no_ListenShouts_before [of s] set_mono_prefix by fastforce
qed

lemma shouts_before_listen_wire:
  assumes "desiredCfgVoiceHandle s = Some v" "lastSentCfgVoiceHandle s \<noteq> Some v"
    "pendingListenVoiceHandle s = Some on"
  shows "\<exists>A B. wire_due s =
      A @ [(Cfg CfgVoiceHandle, if v then ''CFG|SHOUTS|1'' else ''CFG|SHOUTS|0'')] @ B
        @ [(ListenShouts, if on then ''LISTEN|SHOUTS|1'' else ''LISTEN|SHOUTS|0'')]"
proof -
  have a: "wire_cfg CfgVoiceHandle s
      = [(Cfg CfgVoiceHandle, if v then ''CFG|SHOUTS|1'' else ''CFG|SHOUTS|0'')]"
    using assms by (simp add: wire_cfg_def)
  have b: "wire_listen_shouts s
      = [(ListenShouts, if on then ''LISTEN|SHOUTS|1'' else ''LISTEN|SHOUTS|0'')]"
    using assms by (simp add: wire_listen_shouts_def)
  have "wire_due s =
     (wire_lang s @ wire_options s @ wire_close s @ wire_favorites s @ wire_listen s
        @ wire_cfg CfgOpen s @ wire_cfg CfgClose s)
     @ [(Cfg CfgVoiceHandle, if v then ''CFG|SHOUTS|1'' else ''CFG|SHOUTS|0'')]
     @ (wire_cfg CfgDebug s @ wire_cfg CfgSaveWav s @ wire_cfg CfgDialogueSelect s
        @ wire_cfg CfgWeapons s @ wire_cfg CfgSpells s @ wire_cfg CfgPowers s
        @ wire_cfg CfgPotions s)
     @ [(ListenShouts, if on then ''LISTEN|SHOUTS|1'' else ''LISTEN|SHOUTS|0'')]"
    by (simp add: wire_due_def cfg_order_def a b)
  then show ?thesis by blast
qed

text \<open>
  C2. A cycle that runs to its end has sent exactly the lines of \<open>wire_due\<close>: the language
  line, the options batch, the close line, the favorites batch, the listen line, the CFG
  lines in the order OPEN, CLOSE, SHOUTS, DEBUG, SAVE_WAV, DIALOGUE_SELECT, WEAPONS, SPELLS,
  POWERS, POTIONS, the shout-listen line. A cycle cut short by a failed write has sent a
  proper initial part of that list. Either way the blocks that wrote appear in ascending
  rank. When the CFG-shouts toggle and the shout-listen toggle are both due, the completed
  cycle sends \<open>CFG|SHOUTS\<close> before \<open>LISTEN|SHOUTS\<close>, and an aborted one has not sent
  \<open>LISTEN|SHOUTS\<close> at all. With the channel up and no write failing the cycle completes.
\<close>

theorem transmit_order:
  "(transmit wr s = Next c \<longrightarrow> sent c = wire_due s)
   \<and> (transmit wr s = Goto_disconnect c \<longrightarrow> strict_prefix (sent c) (wire_due s))
   \<and> (transmit wr s = Next c \<or> transmit wr s = Goto_disconnect c \<longrightarrow> in_order (sent c))
   \<and> (transmit wr s = Next c \<and> desiredCfgVoiceHandle s = Some v
        \<and> lastSentCfgVoiceHandle s \<noteq> Some v \<and> pendingListenVoiceHandle s = Some on \<longrightarrow>
        (\<exists>A B. sent c =
           A @ [(Cfg CfgVoiceHandle, if v then ''CFG|SHOUTS|1'' else ''CFG|SHOUTS|0'')] @ B
             @ [(ListenShouts, if on then ''LISTEN|SHOUTS|1'' else ''LISTEN|SHOUTS|0'')]))
   \<and> (transmit wr s = Goto_disconnect c \<longrightarrow> ListenShouts \<notin> fst ` set (sent c))
   \<and> (connected s \<and> pipe s \<and> (\<forall>k. wr k) \<longrightarrow> (\<exists>c'. transmit wr s = Next c'))"
proof -
  have a: "transmit wr s = Next c \<longrightarrow> sent c = wire_due s"
    by (auto dest: transmit_Next simp: due_lines_wire)
  have b: "transmit wr s = Goto_disconnect c \<longrightarrow> strict_prefix (sent c) (wire_due s)"
    by (auto dest: transmit_Goto(1) simp: due_lines_wire)
  have c: "transmit wr s = Next c \<or> transmit wr s = Goto_disconnect c \<longrightarrow> in_order (sent c)"
    using a b due_lines_in_order [of s] prefix_in_order [of "sent c" "due_lines s"]
    by (auto simp: strict_prefix_def due_lines_wire)
  have d: "transmit wr s = Next c \<and> desiredCfgVoiceHandle s = Some v
        \<and> lastSentCfgVoiceHandle s \<noteq> Some v \<and> pendingListenVoiceHandle s = Some on \<longrightarrow>
        (\<exists>A B. sent c =
           A @ [(Cfg CfgVoiceHandle, if v then ''CFG|SHOUTS|1'' else ''CFG|SHOUTS|0'')] @ B
             @ [(ListenShouts, if on then ''LISTEN|SHOUTS|1'' else ''LISTEN|SHOUTS|0'')])"
    using a shouts_before_listen_wire [of s v on] by auto
  have e: "transmit wr s = Goto_disconnect c \<longrightarrow> ListenShouts \<notin> fst ` set (sent c)"
    using b aborted_no_ListenShouts [of "sent c" s] by (simp add: due_lines_wire)
  have f: "connected s \<and> pipe s \<and> (\<forall>k. wr k) \<longrightarrow> (\<exists>c'. transmit wr s = Next c')"
    using transmit_ok [of s wr] by blast
  from a b c d e f show ?thesis by blast
qed

text \<open>
  Every item is due on a connected client, the setters having been called in the reverse of
  the wire order: the cycle sends the twenty-one lines in the order of the specification.
\<close>

theorem transmit_order_witness:
  "\<exists>c. transmit (\<lambda>k. True)
          (SendGameLanguage ''en'' (SendOptions [''Yes'', ''No''] (SendClose
            (SendAllFavorites [] [power_entry 76476 ''Beast Form''] [] [] []
              (SendListen True (SendConfigOpen True (SendConfigClose False
                (SendConfigShouts True (SendConfigDebug False (SendConfigSaveWav False
                  (SendConfigDialogueSelect True (SendConfigWeapons True
                    (SendConfigSpells True (SendConfigPowers False (SendConfigPotions True
                      (SendListenShouts True
                        (Connect (PipeClient_init :: int PipeClient)))))))))))))))))) = Next c
     \<and> sent c =
         [(Lang, ''LANG|en''), (Options, ''OPEN|2''), (Options, ''OPT|Yes''),
          (Options, ''OPT|No''), (Options, ''END''), (Close, ''CLOSE''),
          (Favorites, ''FAV|BEGIN''), (Favorites, ''FAV|POWER|0x12ABC|Beast Form''),
          (Favorites, ''FAV|END''), (Listen, ''LISTEN|1''),
          (Cfg CfgOpen, ''CFG|OPEN|1''), (Cfg CfgClose, ''CFG|CLOSE|0''),
          (Cfg CfgVoiceHandle, ''CFG|SHOUTS|1''), (Cfg CfgDebug, ''CFG|DEBUG|0''),
          (Cfg CfgSaveWav, ''CFG|SAVE_WAV|0''),
          (Cfg CfgDialogueSelect, ''CFG|DIALOGUE_SELECT|1''),
          (Cfg CfgWeapons, ''CFG|WEAPONS|1''), (Cfg CfgSpells, ''CFG|SPELLS|1''),
          (Cfg CfgPowers, ''CFG|POWERS|0''), (Cfg CfgPotions, ''CFG|POTIONS|1''),
          (ListenShouts, ''LISTEN|SHOUTS|1'')]
     \<and> in_order (sent c)"
proof -
  let ?s = "SendGameLanguage ''en'' (SendOptions [''Yes'', ''No''] (SendClose
            (SendAllFavorites [] [power_entry 76476 ''Beast Form''] [] [] []
              (SendListen True (SendConfigOpen True (SendConfigClose False
                (SendConfigShouts True (SendConfigDebug False (SendConfigSaveWav False
                  (SendConfigDialogueSelect True (SendConfigWeapons True
                    (SendConfigSpells True (SendConfigPowers False (SendConfigPotions True
                      (SendListenShouts True
                        (Connect (PipeClient_init :: int PipeClient)))))))))))))))))"
  note defs = SendGameLanguage_def SendOptions_def SendClose_def SendAllFavorites_def
    SendListen_def SendConfigOpen_def SendConfigClose_def SendConfigShouts_def
    SendConfigDebug_def SendConfigSaveWav_def SendConfigDialogueSelect_def
    SendConfigWeapons_def SendConfigSpells_def SendConfigPowers_def SendConfigPotions_def
    SendListenShouts_def Connect_def SanitizeInPlace_def
  have x: "FormIDToHex 76476 = ''12ABC''"
    by (simp add: FormIDToHex.simps)
  have up: "connected ?s \<and> pipe ?s \<and> (\<forall>k::nat. True)"
    by (simp add: defs)
  then obtain c where c: "transmit (\<lambda>k. True) ?s = Next c"
    using transmit_order [of "\<lambda>k. True" ?s undefined True True] by blast
  have d: "wire_due ?s =
         [(Lang, ''LANG|en''), (Options, ''OPEN|2''), (Options, ''OPT|Yes''),
          (Options, ''OPT|No''), (Options, ''END''), (Close, ''CLOSE''),
          (Favorites, ''FAV|BEGIN''), (Favorites, ''FAV|POWER|0x12ABC|Beast Form''),
          (Favorites, ''FAV|END''), (Listen, ''LISTEN|1''),
          (Cfg CfgOpen, ''CFG|OPEN|1''), (Cfg CfgClose, ''CFG|CLOSE|0''),
          (Cfg CfgVoiceHandle, ''CFG|SHOUTS|1''), (Cfg CfgDebug, ''CFG|DEBUG|0''),
          (Cfg CfgSaveWav, ''CFG|SAVE_WAV|0''),
          (Cfg CfgDialogueSelect, ''CFG|DIALOGUE_SELECT|1''),
          (Cfg CfgWeapons, ''CFG|WEAPONS|1''), (Cfg CfgSpells, ''CFG|SPELLS|1''),
          (Cfg CfgPowers, ''CFG|POWERS|0''), (Cfg CfgPotions, ''CFG|POTIONS|1''),
          (ListenShouts, ''LISTEN|SHOUTS|1'')]"
    by (simp add: wire_due_def cfg_order_def wire_lang_def wire_options_def wire_close_def
          wire_favorites_def wire_listen_def wire_cfg_def wire_listen_shouts_def
          options_wire_def decimal.simps digit_def favorites_lines_def power_line_def
          power_entry_def SanitizeFavoriteField_def x defs PipeClient_init_def)
  note T = transmit_order [of "\<lambda>k. True" ?s c True True]
  from T c have s: "sent c = wire_due ?s" by blast
  from T c have o: "in_order (sent c)" by blast
  from s d have "sent c =
         [(Lang, ''LANG|en''), (Options, ''OPEN|2''), (Options, ''OPT|Yes''),
          (Options, ''OPT|No''), (Options, ''END''), (Close, ''CLOSE''),
          (Favorites, ''FAV|BEGIN''), (Favorites, ''FAV|POWER|0x12ABC|Beast Form''),
          (Favorites, ''FAV|END''), (Listen, ''LISTEN|1''),
          (Cfg CfgOpen, ''CFG|OPEN|1''), (Cfg CfgClose, ''CFG|CLOSE|0''),
          (Cfg CfgVoiceHandle, ''CFG|SHOUTS|1''), (Cfg CfgDebug, ''CFG|DEBUG|0''),
          (Cfg CfgSaveWav, ''CFG|SAVE_WAV|0''),
          (Cfg CfgDialogueSelect, ''CFG|DIALOGUE_SELECT|1''),
          (Cfg CfgWeapons, ''CFG|WEAPONS|1''), (Cfg CfgSpells, ''CFG|SPELLS|1''),
          (Cfg CfgPowers, ''CFG|POWERS|0''), (Cfg CfgPotions, ''CFG|POTIONS|1''),
          (ListenShouts, ''LISTEN|SHOUTS|1'')]"
    by (simp only:)
  with c o show ?thesis by blast
qed

section \<open>Decoding of inbound lines\<close>

text \<open>
  \<^verbatim>\<open>std::string::find(ch, pos)\<close>, \<^verbatim>\<open>substr(pos, n)\<close> and \<^verbatim>\<open>substr(pos)\<close> (which is
  \<open>drop pos\<close>); every position the code passes is within the line.
\<close>

definition find_from :: "char \<Rightarrow> nat \<Rightarrow> string \<Rightarrow> nat option" where
  "find_from ch pos s =
     (if ch \<in> set (drop pos s) then Some (pos + length (takeWhile (\<lambda>x. x \<noteq> ch) (drop pos s)))
      else None)"

definition substr :: "string \<Rightarrow> nat \<Rightarrow> nat \<Rightarrow> string" where
  "substr s pos n = take n (drop pos s)"

text \<open>
  The body of a \<^verbatim>\<open>try\<close> block ends normally (\<open>Done\<close>) or by an exception (\<open>Threw\<close>);
  either way it leaves the response as assigned so far. The library conversions are
  parameters: \<open>stoi\<close> and \<open>stof\<close> return \<open>None\<close> where \<^verbatim>\<open>std::stoi\<close> and
  \<^verbatim>\<open>std::stof\<close> throw.
\<close>

datatype 'a attempt = Threw 'a | Done 'a

definition parse_RES ::
  "(string \<Rightarrow> int option) \<Rightarrow> (string \<Rightarrow> 'f option) \<Rightarrow> string \<Rightarrow> 'f PipeResponse
     \<Rightarrow> 'f PipeResponse attempt" where
  "parse_RES stoi stof line resp =
     (case find_from CHR ''|'' 4 line of
        None \<Rightarrow> Done resp
      | Some p1 \<Rightarrow>
          (case stoi (substr line 4 (p1 - 4)) of
             None \<Rightarrow> Threw resp
           | Some i \<Rightarrow>
               (case stof (drop (p1 + 1) line) of
                  None \<Rightarrow> Threw (resp\<lparr>index := i\<rparr>)
                | Some f \<Rightarrow> Done (resp\<lparr>index := i, score := f\<rparr>))))"

definition decode_RES ::
  "(string \<Rightarrow> int option) \<Rightarrow> (string \<Rightarrow> 'f option) \<Rightarrow> string \<Rightarrow> ('f::zero) PipeResponse" where
  "decode_RES stoi stof line =
     (case parse_RES stoi stof line (PipeResponse_init\<lparr>type := ''RES''\<rparr>) of
        Threw resp \<Rightarrow> resp\<lparr>index := - 1, score := 0\<rparr>
      | Done resp \<Rightarrow> resp)"

definition parse_shout ::
  "(string \<Rightarrow> int option) \<Rightarrow> (string \<Rightarrow> 'f option) \<Rightarrow> string \<Rightarrow> nat \<Rightarrow> 'f PipeResponse
     \<Rightarrow> 'f PipeResponse attempt" where
  "parse_shout stoi stof line p1 resp =
     (case find_from CHR ''|'' (p1 + 1) line of
        None \<Rightarrow> Done resp
      | Some p2 \<Rightarrow>
          (let resp = resp\<lparr>shoutPlugin := substr line (p1 + 1) (p2 - p1 - 1)\<rparr> in
           case find_from CHR ''|'' (p2 + 1) line of
             None \<Rightarrow> Done resp
           | Some p3 \<Rightarrow>
               (let resp = resp\<lparr>shoutFormID := substr line (p2 + 1) (p3 - p2 - 1)\<rparr> in
                case find_from CHR ''|'' (p3 + 1) line of
                  None \<Rightarrow> Done resp
                | Some p4 \<Rightarrow>
                    (case stoi (substr line (p3 + 1) (p4 - p3 - 1)) of
                       None \<Rightarrow> Threw resp
                     | Some pw \<Rightarrow>
                         (let resp = resp\<lparr>shoutPower := pw\<rparr> in
                          case find_from CHR ''|'' (p4 + 1) line of
                            None \<Rightarrow> Done resp
                          | Some p5 \<Rightarrow>
                              (case stof (substr line (p4 + 1) (p5 - p4 - 1)) of
                                 None \<Rightarrow> Threw resp
                               | Some f \<Rightarrow>
                                   Done (resp\<lparr>score := f,
                                           trigText := drop (p5 + 1) line\<rparr>)))))))"

definition parse_power ::
  "(string \<Rightarrow> 'f option) \<Rightarrow> string \<Rightarrow> nat \<Rightarrow> 'f PipeResponse \<Rightarrow> 'f PipeResponse attempt" where
  "parse_power stof line p1 resp =
     (case find_from CHR ''|'' (p1 + 1) line of
        None \<Rightarrow> Done resp
      | Some p2 \<Rightarrow>
          (let resp = resp\<lparr>powerFormID := substr line (p1 + 1) (p2 - p1 - 1)\<rparr> in
           case find_from CHR ''|'' (p2 + 1) line of
             None \<Rightarrow> Done resp
           | Some p3 \<Rightarrow>
               (case stof (substr line (p2 + 1) (p3 - p2 - 1)) of
                  None \<Rightarrow> Threw resp
                | Some f \<Rightarrow>
                    (let resp = resp\<lparr>score := f\<rparr> in
                     case find_from CHR ''|'' (p3 + 1) line of
                       None \<Rightarrow> Done resp
                     | Some p4 \<Rightarrow> Done (resp\<lparr>trigText := drop (p4 + 1) line\<rparr>)))))"

definition parse_item ::
  "(string \<Rightarrow> 'f option) \<Rightarrow> string \<Rightarrow> nat \<Rightarrow> 'f PipeResponse \<Rightarrow> 'f PipeResponse attempt" where
  "parse_item stof line p1 resp =
     (case find_from CHR ''|'' (p1 + 1) line of
        None \<Rightarrow> Done resp
      | Some p2 \<Rightarrow>
          (let resp = resp\<lparr>itemFormID := substr line (p1 + 1) (p2 - p1 - 1)\<rparr> in
           case find_from CHR ''|'' (p2 + 1) line of
             None \<Rightarrow> Done resp
           | Some p3 \<Rightarrow>
               (case stof (substr line (p2 + 1) (p3 - p2 - 1)) of
                  None \<Rightarrow> Threw resp
                | Some f \<Rightarrow> Done (resp\<lparr>score := f, trigText := drop (p3 + 1) line\<rparr>))))"

definition parse_other ::
  "(string \<Rightarrow> 'f option) \<Rightarrow> string \<Rightarrow> nat \<Rightarrow> 'f PipeResponse \<Rightarrow> 'f PipeResponse attempt" where
  "parse_other stof line p1 resp =
     (case find_from CHR ''|'' (p1 + 1) line of
        None \<Rightarrow> Done resp
      | Some p2 \<Rightarrow>
          (case stof (substr line (p1 + 1) (p2 - p1 - 1)) of
             None \<Rightarrow> Threw resp
           | Some f \<Rightarrow> Done (resp\<lparr>score := f, trigText := drop (p2 + 1) line\<rparr>)))"

definition parse_TRIG ::
  "(string \<Rightarrow> int option) \<Rightarrow> (string \<Rightarrow> 'f option) \<Rightarrow> string \<Rightarrow> 'f PipeResponse
     \<Rightarrow> 'f PipeResponse attempt" where
  "parse_TRIG stoi stof line resp =
     (case find_from CHR ''|'' 5 line of
        None \<Rightarrow> Done resp
      | Some p1 \<Rightarrow>
          (let resp = resp\<lparr>trigKind := substr line 5 (p1 - 5)\<rparr> in
           if trigKind resp = ''shout'' then parse_shout stoi stof line p1 resp
           else if trigKind resp = ''power'' then parse_power stof line p1 resp
           else if trigKind resp = ''weapon'' \<or> trigKind resp = ''spell''
                   \<or> trigKind resp = ''potion'' then parse_item stof line p1 resp
           else parse_other stof line p1 resp))"

definition decode_TRIG ::
  "(string \<Rightarrow> int option) \<Rightarrow> (string \<Rightarrow> 'f option) \<Rightarrow> string \<Rightarrow> ('f::zero) PipeResponse" where
  "decode_TRIG stoi stof line =
     (case parse_TRIG stoi stof line (PipeResponse_init\<lparr>type := ''TRIG''\<rparr>) of
        Threw resp \<Rightarrow> resp\<lparr>score := 0\<rparr>
      | Done resp \<Rightarrow> resp)"

definition decode_DBG :: "string \<Rightarrow> ('f::zero) PipeResponse" where
  "decode_DBG line = PipeResponse_init\<lparr>type := ''DBG'', trigText := drop 4 line\<rparr>"

text \<open>
  One line of the receive loop. A line with none of the three prefixes is only logged; the
  log is not part of the state.
\<close>

definition handle_line ::
  "(string \<Rightarrow> int option) \<Rightarrow> (string \<Rightarrow> 'f option) \<Rightarrow> string \<Rightarrow> ('f::zero) PipeClient
     \<Rightarrow> 'f PipeClient" where
  "handle_line stoi stof line s =
     (if prefix ''RES|'' line then deposit (decode_RES stoi stof line) s
      else if prefix ''TRIG|'' line then deposit (decode_TRIG stoi stof line) s
      else if prefix ''DBG|'' line then deposit (decode_DBG line) s
      else s)"

lemma takeWhile_stops: "x \<in> set xs \<Longrightarrow> length (takeWhile (\<lambda>y. y \<noteq> x) xs) < length xs"
  by (induction xs) auto

lemma find_from_less: "find_from ch pos s = Some p \<Longrightarrow> p < length s"
  using takeWhile_stops [of ch "drop pos s"]
  by (auto simp: find_from_def split: if_splits)

lemma recvBuf_handle_line: "recvBuf (handle_line stoi stof line s) = recvBuf s"
  by (simp add: handle_line_def deposit_def)

text \<open>The loop \<^verbatim>\<open>for (;;)\<close> of \<^verbatim>\<open>ProcessIncoming\<close>: one complete line per round.\<close>

function process_lines ::
  "(string \<Rightarrow> int option) \<Rightarrow> (string \<Rightarrow> 'f option) \<Rightarrow> ('f::zero) PipeClient \<Rightarrow> 'f PipeClient" where
  "process_lines stoi stof s =
     (case find_from CHR 0x0A 0 (recvBuf s) of
        None \<Rightarrow> s
      | Some pos \<Rightarrow>
          process_lines stoi stof
            (handle_line stoi stof (substr (recvBuf s) 0 pos)
               (s\<lparr>recvBuf := drop (pos + 1) (recvBuf s)\<rparr>)))"
  by pat_completeness auto
termination
  by (relation "measure (\<lambda>(stoi, stof, s). length (recvBuf s))")
     (auto simp: recvBuf_handle_line dest: find_from_less)

declare process_lines.simps [simp del]

text \<open>
  What the channel offers to one call of \<^verbatim>\<open>ProcessIncoming\<close>: \<^verbatim>\<open>PeekNamedPipe\<close> fails,
  or reports no byte available, or \<^verbatim>\<open>ReadFile\<close> fails, or it returns a chunk (an empty
  one is \<^verbatim>\<open>readBytes == 0\<close>).
\<close>

datatype incoming = PeekFailed | NoBytes | ReadFailed | Chunk string

definition ProcessIncoming ::
  "(string \<Rightarrow> int option) \<Rightarrow> (string \<Rightarrow> 'f option) \<Rightarrow> incoming \<Rightarrow> ('f::zero) PipeClient
     \<Rightarrow> 'f PipeClient" where
  "ProcessIncoming stoi stof inc s =
     (if \<not> connected s \<or> \<not> pipe s then s
      else case inc of
          PeekFailed \<Rightarrow> HandleDisconnect s
        | NoBytes \<Rightarrow> s
        | ReadFailed \<Rightarrow> HandleDisconnect s
        | Chunk chunk \<Rightarrow>
            if chunk = [] then HandleDisconnect s
            else process_lines stoi stof (s\<lparr>recvBuf := recvBuf s @ chunk\<rparr>))"


section \<open>One iteration of the engine loop\<close>

datatype pause = Backoff_1000ms | Idle_15ms | No_sleep

text \<open>
  One pass through the body of \<^verbatim>\<open>while (_running.load())\<close>. \<open>create_ok\<close> tells whether
  \<^verbatim>\<open>CreateFileW\<close> returns a valid handle when it is called. The result is the state, the
  lines written and the sleep that ends the pass.
\<close>

definition ThreadMain_iteration ::
  "(string \<Rightarrow> int option) \<Rightarrow> (string \<Rightarrow> 'f option) \<Rightarrow> bool \<Rightarrow> (nat \<Rightarrow> bool) \<Rightarrow> incoming
     \<Rightarrow> ('f::zero) PipeClient \<Rightarrow> 'f PipeClient \<times> (item \<times> string) list \<times> pause" where
  "ThreadMain_iteration stoi stof create_ok wr inc s =
     (if \<not> connected s \<and> \<not> create_ok then (s, [], Backoff_1000ms)
      else
        (case transmit wr (if \<not> connected s then Connect s else s) of
           Goto_disconnect c \<Rightarrow> (HandleDisconnect (st c), sent c, Backoff_1000ms)
         | Next c \<Rightarrow>
             (ProcessIncoming stoi stof inc (st c), sent c,
              if \<not> wroteAny c then Idle_15ms else No_sleep)))"

section \<open>Stand-ins for the library conversions\<close>

text \<open>
  \<^verbatim>\<open>std::stoi\<close> and \<^verbatim>\<open>std::stof\<close> are parameters of the decoder, and what is proved of
  the decoder is proved for every pair of conversions. To run it on concrete lines they are
  instantiated with two readers of plain decimals. \<open>stoi_dec\<close> follows \<^verbatim>\<open>std::stoi\<close> in
  base ten: leading white space is skipped, a sign is accepted, the longest run of digits is
  converted and the rest is ignored; no digit is \<^verbatim>\<open>std::invalid_argument\<close>, a value
  outside \<^verbatim>\<open>int\<close> is \<^verbatim>\<open>std::out_of_range\<close>. \<open>stof_dec\<close> covers a part of \<^verbatim>\<open>std::stof\<close>
  only: white space, a sign, digits and an optional fraction. It reads no exponent, no
  hexadecimal form and neither \<^verbatim>\<open>inf\<close> nor \<^verbatim>\<open>nan\<close>, it has no range check, and its
  result is the exact decimal as a real number where the library returns the nearest
  \<^verbatim>\<open>float\<close>. It agrees with the library on text of that form whose value a \<^verbatim>\<open>float\<close>
  holds exactly, such as \<open>0.5\<close>.
\<close>

definition is_space :: "char \<Rightarrow> bool" where
  "is_space c \<longleftrightarrow> c \<in> set [CHR '' '', CHR 0x09, CHR 0x0A, CHR 0x0B, CHR 0x0C, CHR 0x0D]"

definition is_digit :: "char \<Rightarrow> bool" where
  "is_digit c \<longleftrightarrow> c \<in> set ''0123456789''"

definition digits_value :: "string \<Rightarrow> int" where
  "digits_value ds = foldl (\<lambda>a c. 10 * a + (of_char c - 48)) 0 ds"

definition stoi_dec :: "string \<Rightarrow> int option" where
  "stoi_dec s =
     (let t = dropWhile is_space s;
          neg = (t \<noteq> [] \<and> hd t = CHR ''-'');
          u = (if t \<noteq> [] \<and> (hd t = CHR ''-'' \<or> hd t = CHR ''+'') then tl t else t);
          ds = takeWhile is_digit u;
          w = (if neg then - digits_value ds else digits_value ds)
      in if ds = [] then None
         else if w < - 2147483648 \<or> 2147483647 < w then None
         else Some w)"

definition stof_dec :: "string \<Rightarrow> real option" where
  "stof_dec s =
     (let t = dropWhile is_space s;
          neg = (t \<noteq> [] \<and> hd t = CHR ''-'');
          u = (if t \<noteq> [] \<and> (hd t = CHR ''-'' \<or> hd t = CHR ''+'') then tl t else t);
          ip = takeWhile is_digit u;
          r = dropWhile is_digit u;
          fp = (if r \<noteq> [] \<and> hd r = CHR ''.'' then takeWhile is_digit (tl r) else []);
          v = real_of_int (digits_value ip) + real_of_int (digits_value fp) / 10 ^ length fp
      in if ip = [] \<and> fp = [] then None else Some (if neg then - v else v))"


lemma stoi_dec_example: "stoi_dec ''  -12abc'' = Some (- 12)"
  by (simp add: stoi_dec_def is_space_def is_digit_def digits_value_def)
lemma stof_dec_example: "stof_dec ''0.87'' = Some (87 / 100)"
  by (simp add: stof_dec_def is_space_def is_digit_def digits_value_def)
lemma stof_dec_none: "stof_dec ''xyz'' = None"
  by (simp add: stof_dec_def is_space_def is_digit_def digits_value_def)

section \<open>The grammar-sync operations\<close>

text \<open>
  C10. Each of the five operations returns the client as it was, whatever its argument;
  nothing is written by a setter, and the engine's next pass over the unchanged state
  writes what it would have written anyway.
\<close>

theorem allowed_operations_are_noops:
  "SendShoutsAllowed shouts s = s
   \<and> SendPowersAllowed powers s = s
   \<and> SendWeaponsAllowed weapons s = s
   \<and> SendSpellsAllowed spells s = s
   \<and> SendPotionsAllowed potions s = s
   \<and> ThreadMain_iteration stoi stof create_ok wr inc
        (SendPotionsAllowed potions (SendSpellsAllowed spells (SendWeaponsAllowed weapons
           (SendPowersAllowed powers (SendShoutsAllowed shouts s)))))
      = ThreadMain_iteration stoi stof create_ok wr inc s"
  by (simp add: SendShoutsAllowed_def SendPowersAllowed_def SendWeaponsAllowed_def
        SendSpellsAllowed_def SendPotionsAllowed_def)

theorem allowed_operations_are_noops_witness:
  "SendShoutsAllowed
       [\<lparr>plugin = ''Skyrim.esm'', formIdHex = ''0x13E09'', name = ''Unrelenting Force'',
          editorID = ''Fus''\<rparr>]
       (SendConfigShouts True (Connect (PipeClient_init :: int PipeClient)))
     = SendConfigShouts True (Connect PipeClient_init)
   \<and> SendPotionsAllowed [] (SendConfigShouts True (Connect (PipeClient_init :: int PipeClient)))
     = SendConfigShouts True (Connect PipeClient_init)"
  using allowed_operations_are_noops
    [of "[\<lparr>plugin = ''Skyrim.esm'', formIdHex = ''0x13E09'', name = ''Unrelenting Force'',
          editorID = ''Fus''\<rparr>]"
      "SendConfigShouts True (Connect (PipeClient_init :: int PipeClient))" _ _ _ "[]"]
  by blast

section \<open>Properties of the decoder\<close>

lemma takeWhile_upto: "ch \<notin> set a \<Longrightarrow> takeWhile (\<lambda>x. x \<noteq> ch) (a @ ch # b) = a"
  by (induction a) auto

text \<open>
  Reading one field: when the line from position \<open>n\<close> on is \<open>a\<close>, a separator and
  \<open>rest\<close>, the separator is found at \<open>n + length a\<close>, the field between is \<open>a\<close> and the
  line continues with \<open>rest\<close> after it.
\<close>

lemma field_at:
  assumes "drop n line = a @ ch # rest" "ch \<notin> set a"
  shows "find_from ch n line = Some (n + length a)"
    and "substr line n (length a) = a"
    and "drop (Suc (n + length a)) line = rest"
proof -
  show "find_from ch n line = Some (n + length a)"
    using assms by (simp add: find_from_def takeWhile_upto)
  show "substr line n (length a) = a"
    using assms(1) by (simp add: substr_def)
  have "drop (Suc (length a)) (drop n line) = rest"
    using assms(1) by simp
  then show "drop (Suc (n + length a)) line = rest"
    by (simp add: add.commute)
qed

lemma no_field_at:
  assumes "drop n line = a" "ch \<notin> set a"
  shows "find_from ch n line = None"
  using assms by (simp add: find_from_def)

lemma handle_line_RES:
  "prefix ''RES|'' line \<Longrightarrow> handle_line stoi stof line s = deposit (decode_RES stoi stof line) s"
  by (simp add: handle_line_def)

lemma deposit_last: "responses (deposit r s) \<noteq> [] \<and> last (responses (deposit r s)) = r"
  by (cases "responses s") (simp_all add: deposit_def push_response_def Let_def)

lemma decode_RES_type: "type (decode_RES stoi stof line) = ''RES''"
  by (simp add: decode_RES_def parse_RES_def split: option.splits)

lemma decode_RES_no_separator:
  assumes "CHR ''|'' \<notin> set a"
  shows "decode_RES stoi stof (''RES|'' @ a) = PipeResponse_init\<lparr>type := ''RES''\<rparr>"
proof -
  have "drop 4 (''RES|'' @ a) = a" by simp
  from no_field_at [OF this assms] show ?thesis
    by (simp add: decode_RES_def parse_RES_def)
qed

lemma parse_RES_at:
  assumes "drop 4 line = a @ CHR ''|'' # b" "CHR ''|'' \<notin> set a"
  shows "parse_RES stoi stof line resp =
     (case stoi a of
        None \<Rightarrow> Threw resp
      | Some i \<Rightarrow>
          (case stof b of
             None \<Rightarrow> Threw (resp\<lparr>index := i\<rparr>)
           | Some f \<Rightarrow> Done (resp\<lparr>index := i, score := f\<rparr>)))"
  using field_at [OF assms]
  by (simp add: parse_RES_def cong: option.case_cong)

lemma parse_RES_fields:
  assumes "CHR ''|'' \<notin> set a"
  shows "parse_RES stoi stof (''RES|'' @ a @ ''|'' @ b) resp =
     (case stoi a of
        None \<Rightarrow> Threw resp
      | Some i \<Rightarrow>
          (case stof b of
             None \<Rightarrow> Threw (resp\<lparr>index := i\<rparr>)
           | Some f \<Rightarrow> Done (resp\<lparr>index := i, score := f\<rparr>)))"
  by (rule parse_RES_at) (simp_all add: assms)

text \<open>
  C5. A line that starts with \<open>RES|\<close> is decoded to a message of type \<open>RES\<close> and deposited
  as the newest entry of the queue. Such a line is \<open>RES|a\<close> with no further separator, or
  \<open>RES|a|b\<close> with \<open>a\<close> free of separators. In the first case, and in the second when
  \<^verbatim>\<open>stoi\<close> throws on \<open>a\<close> or \<^verbatim>\<open>stof\<close> throws on \<open>b\<close>, the message has index -1 and
  score 0; when both conversions succeed it carries their values.
\<close>

theorem result_decode_robust:
  "(prefix ''RES|'' line \<longrightarrow>
      handle_line stoi stof line s = deposit (decode_RES stoi stof line) s
      \<and> responses (handle_line stoi stof line s) \<noteq> []
      \<and> last (responses (handle_line stoi stof line s)) = decode_RES stoi stof line
      \<and> type (decode_RES stoi stof line) = ''RES'')
   \<and> (CHR ''|'' \<notin> set a \<longrightarrow>
        decode_RES stoi stof (''RES|'' @ a) = PipeResponse_init\<lparr>type := ''RES''\<rparr>
        \<and> index (decode_RES stoi stof (''RES|'' @ a)) = - 1
        \<and> score (decode_RES stoi stof (''RES|'' @ a)) = 0)
   \<and> (CHR ''|'' \<notin> set a \<and> (stoi a = None \<or> stof b = None) \<longrightarrow>
        index (decode_RES stoi stof (''RES|'' @ a @ ''|'' @ b)) = - 1
        \<and> score (decode_RES stoi stof (''RES|'' @ a @ ''|'' @ b)) = 0)
   \<and> (CHR ''|'' \<notin> set a \<and> stoi a = Some i \<and> stof b = Some f \<longrightarrow>
        index (decode_RES stoi stof (''RES|'' @ a @ ''|'' @ b)) = i
        \<and> score (decode_RES stoi stof (''RES|'' @ a @ ''|'' @ b)) = f)"
proof -
  have p: "prefix ''RES|'' line \<longrightarrow>
      handle_line stoi stof line s = deposit (decode_RES stoi stof line) s
      \<and> responses (handle_line stoi stof line s) \<noteq> []
      \<and> last (responses (handle_line stoi stof line s)) = decode_RES stoi stof line
      \<and> type (decode_RES stoi stof line) = ''RES''"
    using deposit_last [of "decode_RES stoi stof line" s]
    by (simp add: handle_line_RES decode_RES_type)
  have q: "CHR ''|'' \<notin> set a \<longrightarrow>
        decode_RES stoi stof (''RES|'' @ a) = PipeResponse_init\<lparr>type := ''RES''\<rparr>
        \<and> index (decode_RES stoi stof (''RES|'' @ a)) = - 1
        \<and> score (decode_RES stoi stof (''RES|'' @ a)) = 0"
    using decode_RES_no_separator [of a stoi stof] by (simp add: PipeResponse_init_def)
  have r: "CHR ''|'' \<notin> set a \<and> (stoi a = None \<or> stof b = None) \<longrightarrow>
        index (decode_RES stoi stof (''RES|'' @ a @ ''|'' @ b)) = - 1
        \<and> score (decode_RES stoi stof (''RES|'' @ a @ ''|'' @ b)) = 0"
    using parse_RES_fields [of a stoi stof b "PipeResponse_init\<lparr>type := ''RES''\<rparr>"]
    by (auto simp: decode_RES_def split: option.splits)
  have t: "CHR ''|'' \<notin> set a \<and> stoi a = Some i \<and> stof b = Some f \<longrightarrow>
        index (decode_RES stoi stof (''RES|'' @ a @ ''|'' @ b)) = i
        \<and> score (decode_RES stoi stof (''RES|'' @ a @ ''|'' @ b)) = f"
    using parse_RES_fields [of a stoi stof b "PipeResponse_init\<lparr>type := ''RES''\<rparr>"]
    by (auto simp: decode_RES_def)
  from p q r t show ?thesis by blast
qed

text \<open>The example of the specification, \<open>RES|abc|xyz\<close>, on a connected client.\<close>

theorem result_decode_robust_witness:
  "prefix ''RES|'' ''RES|abc|xyz''
   \<and> CHR ''|'' \<notin> set ''abc''
   \<and> stoi_dec ''abc'' = None
   \<and> responses (handle_line stoi_dec stof_dec ''RES|abc|xyz'' (Connect PipeClient_init))
       = [PipeResponse_init\<lparr>type := ''RES''\<rparr>]
   \<and> index (decode_RES stoi_dec stof_dec ''RES|abc|xyz'') = - 1
   \<and> score (decode_RES stoi_dec stof_dec ''RES|abc|xyz'') = 0"
proof -
  have h: "prefix ''RES|'' ''RES|abc|xyz''" "CHR ''|'' \<notin> set ''abc''" "stoi_dec ''abc'' = None"
    by (simp_all add: stoi_dec_def is_space_def is_digit_def)
  note T = result_decode_robust [of "''RES|abc|xyz''" stoi_dec stof_dec
      "Connect PipeClient_init" "''abc''" "''xyz''" 0 0]
  from T h have v: "index (decode_RES stoi_dec stof_dec ''RES|abc|xyz'') = - 1"
    "score (decode_RES stoi_dec stof_dec ''RES|abc|xyz'') = 0"
    by simp_all
  from T h have d: "handle_line stoi_dec stof_dec ''RES|abc|xyz'' (Connect PipeClient_init)
      = deposit (decode_RES stoi_dec stof_dec ''RES|abc|xyz'') (Connect PipeClient_init)"
    by blast
  have "decode_RES stoi_dec stof_dec ''RES|abc|xyz'' = PipeResponse_init\<lparr>type := ''RES''\<rparr>"
    using h(3) parse_RES_fields [of "''abc''" stoi_dec stof_dec "''xyz''"
        "PipeResponse_init\<lparr>type := ''RES''\<rparr>"]
    by (simp add: decode_RES_def PipeResponse_init_def)
  with d have "responses (handle_line stoi_dec stof_dec ''RES|abc|xyz'' (Connect PipeClient_init))
       = [PipeResponse_init\<lparr>type := ''RES''\<rparr>]"
    by (simp add: deposit_def push_response_def Connect_def PipeClient_init_def)
  with h v show ?thesis by blast
qed







































section \<open>The pause at the end of an iteration\<close>

lemma lang_update_same: "lastSentGameLang s = v \<Longrightarrow> s\<lparr>lastSentGameLang := v\<rparr> = s"
  by auto

lemma cfg_done_idle:
  assumes "cfg_due k s = []"
  shows "cfg_done k s = s"
proof (cases "desiredCfg k s")
  case None
  then show ?thesis
    by (simp add: cfg_done_def set_lastSentCfg_same)
next
  case (Some d)
  with assms have "lastSentCfg k s = Some d"
    by (simp add: cfg_due_def split: if_splits)
  then show ?thesis
    using Some by (simp add: cfg_done_def set_lastSentCfg_same)
qed

lemma lang_done_idle:
  assumes "lang_due s = []"
  shows "lang_done s = s"
proof (cases "desiredGameLang s")
  case None
  then show ?thesis
    by (simp add: lang_done_def)
next
  case (Some d)
  with assms have "lastSentGameLang s = Some d"
    by (simp add: lang_due_def split: if_splits)
  then show ?thesis
    using Some by (simp add: lang_done_def lang_update_same)
qed

lemma slot_update_same:
  "pendingOptions s = a \<Longrightarrow> s\<lparr>pendingOptions := a\<rparr> = s"
  "pendingClose s = b \<Longrightarrow> s\<lparr>pendingClose := b\<rparr> = s"
  "pendingFavorites s = a \<Longrightarrow> s\<lparr>pendingFavorites := a\<rparr> = s"
  "pendingListen s = d \<Longrightarrow> s\<lparr>pendingListen := d\<rparr> = s"
  "pendingListenVoiceHandle s = d \<Longrightarrow> s\<lparr>pendingListenVoiceHandle := d\<rparr> = s"
  by auto

lemma drained_idle:
  assumes "\<not> something_due s"
  shows "drained s = s"
proof -
  from assms have l: "lang_due s = []"
    and c: "cfg_due CfgOpen s = []" "cfg_due CfgClose s = []" "cfg_due CfgVoiceHandle s = []"
      "cfg_due CfgDebug s = []" "cfg_due CfgSaveWav s = []" "cfg_due CfgDialogueSelect s = []"
      "cfg_due CfgWeapons s = []" "cfg_due CfgSpells s = []" "cfg_due CfgPowers s = []"
      "cfg_due CfgPotions s = []"
    and p: "pendingOptions s = None" "pendingClose s = False" "pendingFavorites s = None"
      "pendingListen s = None" "pendingListenVoiceHandle s = None"
    by (simp_all add: something_due_def)
  show ?thesis
    unfolding drained_def
    by (simp only: lang_done_idle [OF l] slot_update_same(1) [OF p(1)]
          slot_update_same(2) [OF p(2)] slot_update_same(3) [OF p(3)]
          slot_update_same(4) [OF p(4)] slot_update_same(5) [OF p(5)]
          fold_simps id_apply comp_apply cfg_done_idle [OF c(1)] cfg_done_idle [OF c(2)]
          cfg_done_idle [OF c(3)] cfg_done_idle [OF c(4)] cfg_done_idle [OF c(5)]
          cfg_done_idle [OF c(6)] cfg_done_idle [OF c(7)] cfg_done_idle [OF c(8)]
          cfg_done_idle [OF c(9)] cfg_done_idle [OF c(10)])
qed

lemma slot_due_empty:
  "options_due s = [] \<longleftrightarrow> pendingOptions s = None"
  "close_due s = [] \<longleftrightarrow> \<not> pendingClose s"
  "pendingFavorites s \<noteq> Some [] \<Longrightarrow> favorites_due s = [] \<longleftrightarrow> pendingFavorites s = None"
  "listen_due s = [] \<longleftrightarrow> pendingListen s = None"
  "listen_shouts_due s = [] \<longleftrightarrow> pendingListenVoiceHandle s = None"
  by (auto simp: options_due_def close_due_def favorites_due_def listen_due_def
        listen_shouts_due_def split: option.splits)

lemma due_lines_empty:
  assumes "pendingFavorites s \<noteq> Some []"
  shows "due_lines s = [] \<longleftrightarrow> \<not> something_due s"
  unfolding due_lines_def something_due_def
  by (simp only: append_is_Nil_conv slot_due_empty(1,2,4,5) slot_due_empty(3) [OF assms]
        list_ex_Nil_iff list_ex_Cons_iff de_Morgan_disj not_not simp_thms) blast

definition entered :: "'f PipeClient \<Rightarrow> 'f PipeClient" where
  "entered s = (if \<not> connected s then Connect s else s)"

text \<open>
  C8, as the code has it. An iteration that gets past the connect step and whose transmit
  phase completes ends with the 15 ms sleep exactly when \<^verbatim>\<open>wroteAny\<close> is still false,
  that is when no item was due, whatever \<^verbatim>\<open>ProcessIncoming\<close> then reads. Unless an empty
  favorites batch is pending this is the case exactly when nothing was written. A transmit
  phase that jumps to \<^verbatim>\<open>disconnect\<close> ends with the one second back-off instead.
\<close>

theorem idle_sleep_rule:
  "((connected s \<or> create_ok) \<and> transmit wr (entered s) = Next c \<longrightarrow>
      ThreadMain_iteration stoi stof create_ok wr inc s
        = (ProcessIncoming stoi stof inc (drained (entered s)), due_lines (entered s),
           if something_due (entered s) then No_sleep else Idle_15ms)
      \<and> (snd (snd (ThreadMain_iteration stoi stof create_ok wr inc s)) = Idle_15ms
           \<longleftrightarrow> \<not> something_due (entered s))
      \<and> (pendingFavorites s \<noteq> Some [] \<longrightarrow>
           (snd (snd (ThreadMain_iteration stoi stof create_ok wr inc s)) = Idle_15ms
             \<longleftrightarrow> fst (snd (ThreadMain_iteration stoi stof create_ok wr inc s)) = [])))
   \<and> ((connected s \<or> create_ok) \<and> transmit wr (entered s) = Goto_disconnect c \<longrightarrow>
        snd (snd (ThreadMain_iteration stoi stof create_ok wr inc s)) = Backoff_1000ms)"
proof -
  have f: "pendingFavorites (entered s) = pendingFavorites s"
    by (simp add: entered_def Connect_def)
  have a: "(connected s \<or> create_ok) \<and> transmit wr (entered s) = Next c \<longrightarrow>
      ThreadMain_iteration stoi stof create_ok wr inc s
        = (ProcessIncoming stoi stof inc (drained (entered s)), due_lines (entered s),
           if something_due (entered s) then No_sleep else Idle_15ms)"
    by (auto simp: ThreadMain_iteration_def entered_def dest!: transmit_Next)
  have b: "(connected s \<or> create_ok) \<and> transmit wr (entered s) = Goto_disconnect c \<longrightarrow>
        snd (snd (ThreadMain_iteration stoi stof create_ok wr inc s)) = Backoff_1000ms"
    by (auto simp: ThreadMain_iteration_def entered_def)
  have p: "ThreadMain_iteration stoi stof create_ok wr inc s
        = (ProcessIncoming stoi stof inc (drained (entered s)), due_lines (entered s),
           if something_due (entered s) then No_sleep else Idle_15ms)
      \<Longrightarrow> (snd (snd (ThreadMain_iteration stoi stof create_ok wr inc s)) = Idle_15ms
           \<longleftrightarrow> \<not> something_due (entered s))
      \<and> (pendingFavorites s \<noteq> Some [] \<longrightarrow>
           (snd (snd (ThreadMain_iteration stoi stof create_ok wr inc s)) = Idle_15ms
             \<longleftrightarrow> fst (snd (ThreadMain_iteration stoi stof create_ok wr inc s)) = []))"
  proof -
    assume e: "ThreadMain_iteration stoi stof create_ok wr inc s
        = (ProcessIncoming stoi stof inc (drained (entered s)), due_lines (entered s),
           if something_due (entered s) then No_sleep else Idle_15ms)"
    have x: "snd (snd (ThreadMain_iteration stoi stof create_ok wr inc s)) = Idle_15ms
           \<longleftrightarrow> \<not> something_due (entered s)"
      unfolding e by simp
    have y: "fst (snd (ThreadMain_iteration stoi stof create_ok wr inc s)) = due_lines (entered s)"
      unfolding e by simp
    have "pendingFavorites s \<noteq> Some [] \<Longrightarrow>
        due_lines (entered s) = [] \<longleftrightarrow> \<not> something_due (entered s)"
      using due_lines_empty [of "entered s"] unfolding f by blast
    with x y show ?thesis by (simp only:) blast
  qed
  from a b p show ?thesis by blast
qed

text \<open>
  A connected client with CFG-shouts due: the line is written and the iteration does not
  sleep; in the following iteration nothing is due and it sleeps 15 ms although a debug
  line is read in it.
\<close>

theorem idle_sleep_rule_witness:
  "snd (ThreadMain_iteration stoi_dec stof_dec True (\<lambda>k. True) NoBytes
          (SendConfigShouts True (Connect PipeClient_init)))
     = ([(Cfg CfgVoiceHandle, ''CFG|SHOUTS|1'')], No_sleep)"
proof -
  let ?s = "SendConfigShouts True (Connect PipeClient_init) :: real PipeClient"
  have e: "entered ?s = ?s"
    by (simp add: entered_def SendConfigShouts_def Connect_def)
  have c: "connected ?s" "pipe ?s"
    by (simp_all add: SendConfigShouts_def Connect_def)
  have t: "transmit (\<lambda>k. True) (entered ?s)
      = Next \<lparr>st = drained ?s, sent = due_lines ?s, wroteAny = something_due ?s,
          calls = payloads (due_lines ?s)\<rparr>"
    unfolding e using c by (simp add: transmit_ok)
  have d: "due_lines ?s = [(Cfg CfgVoiceHandle, ''CFG|SHOUTS|1'')]"
    by (simp add: due_lines_def lang_due_def options_due_def close_due_def favorites_due_def
          listen_due_def cfg_due_def listen_shouts_due_def bit_text_def
          SendConfigShouts_def Connect_def PipeClient_init_def)
  have s: "something_due ?s"
    by (simp add: something_due_def cfg_due_def SendConfigShouts_def Connect_def
          PipeClient_init_def)
  from idle_sleep_rule [of ?s True "\<lambda>k. True" _ stoi_dec stof_dec NoBytes] c(1) t
  have "ThreadMain_iteration stoi_dec stof_dec True (\<lambda>k. True) NoBytes ?s
        = (ProcessIncoming stoi_dec stof_dec NoBytes (drained (entered ?s)), due_lines (entered ?s),
           if something_due (entered ?s) then No_sleep else Idle_15ms)"
    by blast
  then show ?thesis
    unfolding e by (simp add: d s)
qed

text \<open>
  The claim as stated fails: nothing is due on a freshly connected client, a debug line
  arrives and is queued, and the iteration still ends with the 15 ms sleep.
\<close>

theorem idle_sleep_counterexample:
  "fst (snd (ThreadMain_iteration stoi_dec stof_dec True (\<lambda>k. True)
          (Chunk (''DBG|hi'' @ [CHR 0x0A])) (Connect PipeClient_init))) = []
   \<and> responses (fst (ThreadMain_iteration stoi_dec stof_dec True (\<lambda>k. True)
          (Chunk (''DBG|hi'' @ [CHR 0x0A])) (Connect PipeClient_init)))
       = [PipeResponse_init\<lparr>type := ''DBG'', trigText := ''hi''\<rparr>]
   \<and> snd (snd (ThreadMain_iteration stoi_dec stof_dec True (\<lambda>k. True)
          (Chunk (''DBG|hi'' @ [CHR 0x0A])) (Connect PipeClient_init))) = Idle_15ms"
proof -
  let ?s = "Connect PipeClient_init :: real PipeClient"
  have c: "connected ?s" "pipe ?s"
    by (simp_all add: Connect_def)
  have n: "\<not> something_due ?s"
    by (simp add: something_due_def lang_due_def cfg_due_def Connect_def PipeClient_init_def)
  have d: "due_lines ?s = []"
    using n due_lines_empty [of ?s] by (simp add: Connect_def PipeClient_init_def)
  have t: "transmit (\<lambda>k. True) ?s = Next \<lparr>st = ?s, sent = [], wroteAny = False, calls = []\<rparr>"
    using transmit_ok [of ?s "\<lambda>k. True"] c n d by (simp add: drained_idle)
  have p: "responses (ProcessIncoming stoi_dec stof_dec (Chunk (''DBG|hi'' @ [CHR 0x0A])) ?s)
      = [PipeResponse_init\<lparr>type := ''DBG'', trigText := ''hi''\<rparr>]"
    by (simp add: ProcessIncoming_def Connect_def PipeClient_init_def process_lines.simps
          find_from_def substr_def handle_line_def deposit_def push_response_def decode_DBG_def)
  show ?thesis
    using c(1) p by (simp add: ThreadMain_iteration_def t)
qed

section \<open>Producer calls and the lines of one item\<close>

text \<open>
  A call of a public setter by a producer thread. Each runs under \<^verbatim>\<open>_sendMutex\<close> (the
  five grammar-sync operations touch nothing), so between two steps of the engine the
  state changes by a sequence of whole calls.
\<close>

datatype call =
    Options_call "string list"
  | Close_call
  | Listen_call bool
  | ListenShouts_call bool
  | GameLanguage_call string
  | Config_call cfg bool
  | AllFavorites_call "ShoutEntry list" "PowerEntry list" "ItemEntry list" "ItemEntry list"
      "ItemEntry list"
  | ShoutsAllowed_call "ShoutEntry list"
  | PowersAllowed_call "PowerEntry list"
  | WeaponsAllowed_call "ItemEntry list"
  | SpellsAllowed_call "ItemEntry list"
  | PotionsAllowed_call "ItemEntry list"

fun producer_call :: "call \<Rightarrow> 'f PipeClient \<Rightarrow> 'f PipeClient" where
  "producer_call (Options_call options) s = SendOptions options s"
| "producer_call Close_call s = SendClose s"
| "producer_call (Listen_call on) s = SendListen on s"
| "producer_call (ListenShouts_call on) s = SendListenShouts on s"
| "producer_call (GameLanguage_call langCode) s = SendGameLanguage langCode s"
| "producer_call (Config_call k enabled) s = SendConfig k enabled s"
| "producer_call (AllFavorites_call shouts powers weapons spells potions) s =
     SendAllFavorites shouts powers weapons spells potions s"
| "producer_call (ShoutsAllowed_call shouts) s = SendShoutsAllowed shouts s"
| "producer_call (PowersAllowed_call powers) s = SendPowersAllowed powers s"
| "producer_call (WeaponsAllowed_call weapons) s = SendWeaponsAllowed weapons s"
| "producer_call (SpellsAllowed_call spells) s = SendSpellsAllowed spells s"
| "producer_call (PotionsAllowed_call potions) s = SendPotionsAllowed potions s"

fun producer_calls :: "call list \<Rightarrow> 'f PipeClient \<Rightarrow> 'f PipeClient" where
  "producer_calls [] s = s"
| "producer_calls (c # cs) s = producer_calls cs (producer_call c s)"

text \<open>The lines that one block of the transmit phase wrote, in the order written.\<close>

definition sent_by :: "item \<Rightarrow> (item \<times> string) list \<Rightarrow> string list" where
  "sent_by t xs = map snd (filter (\<lambda>x. fst x = t) xs)"

lemma SendConfig_lastSent:
  "lastSentCfg k (SendConfig j b s) = lastSentCfg k s"
  "lastSentGameLang (SendConfig j b s) = lastSentGameLang s"
  by (cases j; cases k;
      simp add: SendConfigOpen_def SendConfigClose_def SendConfigShouts_def SendConfigDebug_def
        SendConfigSaveWav_def SendConfigDialogueSelect_def SendConfigWeapons_def
        SendConfigSpells_def SendConfigPowers_def SendConfigPotions_def)+

lemma lastSentCfg_desired_upd:
  "lastSentCfg k (s\<lparr>desiredGameLang := a\<rparr>) = lastSentCfg k s"
  "lastSentCfg k (s\<lparr>connected := b\<rparr>) = lastSentCfg k s"
  "lastSentCfg k (s\<lparr>pipe := b\<rparr>) = lastSentCfg k s"
  "lastSentCfg k (s\<lparr>connEvent := e\<rparr>) = lastSentCfg k s"
  "desiredCfg k (s\<lparr>connected := b\<rparr>) = desiredCfg k s"
  "desiredCfg k (s\<lparr>pipe := b\<rparr>) = desiredCfg k s"
  "desiredCfg k (s\<lparr>connEvent := e\<rparr>) = desiredCfg k s"
  by (cases k; simp)+

lemma producer_call_lastSent:
  "lastSentCfg k (producer_call c s) = lastSentCfg k s"
  "lastSentGameLang (producer_call c s) = lastSentGameLang s"
  by (cases c;
      simp add: SendConfig_lastSent SendOptions_def SendClose_def SendListen_def
        SendListenShouts_def SendGameLanguage_def SendAllFavorites_def SendShoutsAllowed_def
        SendPowersAllowed_def SendWeaponsAllowed_def SendSpellsAllowed_def SendPotionsAllowed_def
        Let_def lastSentCfg_upd lastSentCfg_desired_upd)+

lemma producer_calls_lastSent:
  "lastSentCfg k (producer_calls cs s) = lastSentCfg k s"
  "lastSentGameLang (producer_calls cs s) = lastSentGameLang s"
  by (induction cs arbitrary: s) (simp_all add: producer_call_lastSent)

lemma HandleDisconnect_clears:
  assumes "connected s \<or> pipe s"
  shows "lastSentCfg k (HandleDisconnect s) = None"
    and "lastSentGameLang (HandleDisconnect s) = None"
    and "desiredCfg k (HandleDisconnect s) = desiredCfg k s"
    and "desiredGameLang (HandleDisconnect s) = desiredGameLang s"
    and "connEvent (HandleDisconnect s) = Some False"
    and "\<not> connected (HandleDisconnect s)"
  using assms by (cases k; auto simp: HandleDisconnect_def)+

lemma Connect_lastSent:
  "lastSentCfg k (Connect s) = lastSentCfg k s"
  "lastSentGameLang (Connect s) = lastSentGameLang s"
  by (simp_all add: Connect_def lastSentCfg_desired_upd)

lemma tagged_filter:
  assumes "\<forall>x \<in> set xs. fst x = u"
  shows "filter (\<lambda>x. fst x = t) xs = (if t = u then xs else [])"
  using assms by (induction xs) auto

lemma due_tag_all:
  "\<forall>x \<in> set (lang_due s). fst x = Lang"
  "\<forall>x \<in> set (options_due s). fst x = Options"
  "\<forall>x \<in> set (close_due s). fst x = Close"
  "\<forall>x \<in> set (favorites_due s). fst x = Favorites"
  "\<forall>x \<in> set (listen_due s). fst x = Listen"
  "\<forall>x \<in> set (cfg_due k s). fst x = Cfg k"
  "\<forall>x \<in> set (listen_shouts_due s). fst x = ListenShouts"
  by (auto simp: lang_due_def options_due_def close_due_def favorites_due_def listen_due_def
        cfg_due_def listen_shouts_due_def split: option.splits if_splits)

lemmas due_filter =
  tagged_filter [OF due_tag_all(1)] tagged_filter [OF due_tag_all(2)]
  tagged_filter [OF due_tag_all(3)] tagged_filter [OF due_tag_all(4)]
  tagged_filter [OF due_tag_all(5)] tagged_filter [OF due_tag_all(6)]
  tagged_filter [OF due_tag_all(7)]

lemma sent_by_due:
  "sent_by Lang (due_lines s) = map snd (lang_due s)"
  "sent_by Options (due_lines s) = map snd (options_due s)"
  "sent_by Close (due_lines s) = map snd (close_due s)"
  "sent_by Favorites (due_lines s) = map snd (favorites_due s)"
  "sent_by Listen (due_lines s) = map snd (listen_due s)"
  "sent_by ListenShouts (due_lines s) = map snd (listen_shouts_due s)"
  by (simp_all add: sent_by_def due_lines_def due_filter)

lemma sent_by_due_cfg: "sent_by (Cfg k) (due_lines s) = map snd (cfg_due k s)"
  by (cases k) (simp_all add: sent_by_def due_lines_def due_filter)

lemma sent_by_prefix: "prefix p xs \<Longrightarrow> prefix (sent_by t p) (sent_by t xs)"
  by (auto simp: sent_by_def prefix_def)

lemma sent_by_outcome:
  assumes "transmit wr s = Next c \<or> transmit wr s = Goto_disconnect c"
  shows "prefix (sent_by t (sent c)) (sent_by t (due_lines s))"
proof -
  from assms have "prefix (sent c) (due_lines s)"
    using transmit_Next [of wr s c] transmit_Goto(1) [of wr s c]
    by (auto simp: strict_prefix_def)
  then show ?thesis by (rule sent_by_prefix)
qed

section \<open>The state after a completed transmit phase\<close>

lemma cfg_done_fields:
  "lastSentCfg k (cfg_done j s) =
     (if k = j then (case desiredCfg j s of None \<Rightarrow> lastSentCfg j s | Some d \<Rightarrow> Some d)
      else lastSentCfg k s)"
  "desiredCfg k (cfg_done j s) = desiredCfg k s"
  "lastSentGameLang (cfg_done j s) = lastSentGameLang s"
  "desiredGameLang (cfg_done j s) = desiredGameLang s"
  by (simp_all add: cfg_done_def lastSentCfg_set_lastSentCfg desiredCfg_set_lastSentCfg
        set_lastSentCfg_fields)

lemma lang_done_fields:
  "lastSentCfg k (lang_done s) = lastSentCfg k s"
  "desiredCfg k (lang_done s) = desiredCfg k s"
  "lastSentGameLang (lang_done s) =
     (case desiredGameLang s of None \<Rightarrow> lastSentGameLang s | Some d \<Rightarrow> Some d)"
  "desiredGameLang (lang_done s) = desiredGameLang s"
  by (simp_all add: lang_done_def lastSentCfg_upd desiredCfg_upd)

lemma drained_slots:
  "pendingOptions (drained s) = None"
  "\<not> pendingClose (drained s)"
  "pendingFavorites (drained s) = None"
  "pendingListen (drained s) = None"
  "pendingListenVoiceHandle (drained s) = None"
  by (simp_all add: drained_def)

lemma drained_lang:
  "lastSentGameLang (drained s) =
     (case desiredGameLang s of None \<Rightarrow> lastSentGameLang s | Some d \<Rightarrow> Some d)"
  "desiredGameLang (drained s) = desiredGameLang s"
  by (simp_all add: drained_def cfg_done_fields lang_done_fields)

lemma fold_cfg_done:
  "lastSentCfg k (fold cfg_done js s) =
     (if k \<in> set js then (case desiredCfg k s of None \<Rightarrow> lastSentCfg k s | Some d \<Rightarrow> Some d)
      else lastSentCfg k s)"
  "desiredCfg k (fold cfg_done js s) = desiredCfg k s"
proof (induction js arbitrary: s)
  case Nil
  {
    case 1
    show ?case by simp
  next
    case 2
    show ?case by simp
  }
next
  case (Cons j js)
  {
    case 1
    show ?case
      by (auto simp: Cons.IH cfg_done_fields split: option.splits)
  next
    case 2
    show ?case
      by (simp add: Cons.IH cfg_done_fields)
  }
qed

lemma cfg_listed:
  "k \<in> set [CfgOpen, CfgClose, CfgVoiceHandle, CfgDebug, CfgSaveWav, CfgDialogueSelect,
             CfgWeapons, CfgSpells, CfgPowers, CfgPotions]"
  by (cases k) simp_all

lemma drained_cfg:
  "lastSentCfg k (drained s) =
     (case desiredCfg k s of None \<Rightarrow> lastSentCfg k s | Some d \<Rightarrow> Some d)"
  "desiredCfg k (drained s) = desiredCfg k s"
proof -
  let ?X = "(lang_done s)\<lparr>pendingOptions := None, pendingClose := False,
      pendingFavorites := None, pendingListen := None\<rparr>"
  have d: "desiredCfg k ?X = desiredCfg k s"
    by (simp only: desiredCfg_upd lang_done_fields)
  have l: "lastSentCfg k ?X = lastSentCfg k s"
    by (simp only: lastSentCfg_upd lang_done_fields)
  show "lastSentCfg k (drained s) =
     (case desiredCfg k s of None \<Rightarrow> lastSentCfg k s | Some d \<Rightarrow> Some d)"
    unfolding drained_def
    by (simp only: lastSentCfg_upd desiredCfg_upd lang_done_fields fold_cfg_done cfg_listed
          if_True cong: option.case_cong)
  show "desiredCfg k (drained s) = desiredCfg k s"
    unfolding drained_def
    by (simp only: desiredCfg_upd lang_done_fields fold_cfg_done)
qed

lemma cfg_due_cases:
  "desiredCfg k s = Some v \<Longrightarrow> lastSentCfg k s \<noteq> Some v \<Longrightarrow>
     map snd (cfg_due k s) = [''CFG|'' @ cfg_name k @ ''|'' @ bit_text v]"
  "lastSentCfg k s = desiredCfg k s \<Longrightarrow> cfg_due k s = []"
  "length (cfg_due k s) \<le> 1"
  by (simp_all add: cfg_due_def split: option.splits)

lemma lang_due_cases:
  "desiredGameLang s = Some d \<Longrightarrow> lastSentGameLang s \<noteq> Some d \<Longrightarrow>
     map snd (lang_due s) = [''LANG|'' @ d]"
  "lastSentGameLang s = desiredGameLang s \<Longrightarrow> lang_due s = []"
  "length (lang_due s) \<le> 1"
  by (simp_all add: lang_due_def split: option.splits)

lemma completed_cfg:
  assumes "transmit wr s = Next c" "desiredCfg k s = Some v" "lastSentCfg k s \<noteq> Some v"
  shows "sent_by (Cfg k) (sent c) = [''CFG|'' @ cfg_name k @ ''|'' @ bit_text v]"
    and "lastSentCfg k (st c) = Some v" and "desiredCfg k (st c) = Some v"
proof -
  from transmit_Next [OF assms(1)] have e: "sent c = due_lines s" "st c = drained s"
    by simp_all
  show "sent_by (Cfg k) (sent c) = [''CFG|'' @ cfg_name k @ ''|'' @ bit_text v]"
    unfolding e(1) sent_by_due_cfg by (rule cfg_due_cases(1) [OF assms(2,3)])
  show "lastSentCfg k (st c) = Some v"
    unfolding e(2) drained_cfg(1) by (simp add: assms(2))
  show "desiredCfg k (st c) = Some v"
    unfolding e(2) drained_cfg(2) by (rule assms(2))
qed

lemma completed_lang:
  assumes "transmit wr s = Next c" "desiredGameLang s = Some d" "lastSentGameLang s \<noteq> Some d"
  shows "sent_by Lang (sent c) = [''LANG|'' @ d]"
    and "lastSentGameLang (st c) = Some d" and "desiredGameLang (st c) = Some d"
proof -
  from transmit_Next [OF assms(1)] have e: "sent c = due_lines s" "st c = drained s"
    by simp_all
  show "sent_by Lang (sent c) = [''LANG|'' @ d]"
    unfolding e(1) sent_by_due(1) by (rule lang_due_cases(1) [OF assms(2,3)])
  show "lastSentGameLang (st c) = Some d"
    unfolding e(2) drained_lang(1) by (simp add: assms(2))
  show "desiredGameLang (st c) = Some d"
    unfolding e(2) drained_lang(2) by (rule assms(2))
qed

lemma after_reconnect:
  assumes "connected s0 \<or> pipe s0"
  shows "lastSentCfg k (producer_calls cs2 (Connect (producer_calls cs1 (HandleDisconnect s0))))
      = None"
    and "lastSentGameLang
        (producer_calls cs2 (Connect (producer_calls cs1 (HandleDisconnect s0)))) = None"
  by (simp_all only: producer_calls_lastSent Connect_lastSent
        HandleDisconnect_clears(1,2) [OF assms])

lemma at_most_once:
  assumes "transmit wr s = Next c \<or> transmit wr s = Goto_disconnect c"
  shows "length (sent_by (Cfg k) (sent c)) \<le> 1"
    and "length (sent_by Lang (sent c)) \<le> 1"
    and "lastSentCfg k s = desiredCfg k s \<Longrightarrow> sent_by (Cfg k) (sent c) = []"
    and "lastSentGameLang s = desiredGameLang s \<Longrightarrow> sent_by Lang (sent c) = []"
proof -
  have p: "prefix (sent_by (Cfg k) (sent c)) (map snd (cfg_due k s))"
    using sent_by_outcome [OF assms, of "Cfg k"] unfolding sent_by_due_cfg .
  have q: "prefix (sent_by Lang (sent c)) (map snd (lang_due s))"
    using sent_by_outcome [OF assms, of Lang] unfolding sent_by_due(1) .
  show "length (sent_by (Cfg k) (sent c)) \<le> 1"
    using prefix_length_le [OF p] cfg_due_cases(3) [of k s] by simp
  show "length (sent_by Lang (sent c)) \<le> 1"
    using prefix_length_le [OF q] lang_due_cases(3) [of s] by simp
  show "sent_by (Cfg k) (sent c) = []" if "lastSentCfg k s = desiredCfg k s"
    using p unfolding cfg_due_cases(2) [OF that] by simp
  show "sent_by Lang (sent c) = []" if "lastSentGameLang s = desiredGameLang s"
    using q unfolding lang_due_cases(2) [OF that] by simp
qed

lemma producer_call_connected:
  "connected (producer_call c s) = connected s" "pipe (producer_call c s) = pipe s"
  by (cases c;
      cases "case c of Config_call k b \<Rightarrow> k | _ \<Rightarrow> CfgOpen";
      simp add: SendOptions_def SendClose_def SendListen_def
        SendListenShouts_def SendGameLanguage_def SendAllFavorites_def SendShoutsAllowed_def
        SendPowersAllowed_def SendWeaponsAllowed_def SendSpellsAllowed_def SendPotionsAllowed_def
        SendConfigOpen_def SendConfigClose_def SendConfigShouts_def SendConfigDebug_def
        SendConfigSaveWav_def SendConfigDialogueSelect_def SendConfigWeapons_def
        SendConfigSpells_def SendConfigPowers_def SendConfigPotions_def Let_def)+

lemma producer_calls_connected:
  "connected (producer_calls cs s) = connected s" "pipe (producer_calls cs s) = pipe s"
  by (induction cs arbitrary: s) (simp_all add: producer_call_connected)

lemma reconnected_up:
  "connected (producer_calls cs2 (Connect s))" "pipe (producer_calls cs2 (Connect s))"
  by (simp_all add: producer_calls_connected Connect_def)

lemma HandleDisconnect_twice: "HandleDisconnect (HandleDisconnect s) = HandleDisconnect s"
  by (simp add: HandleDisconnect_def)

lemma cfg_done_up:
  "connected (cfg_done k s) = connected s" "pipe (cfg_done k s) = pipe s"
  by (simp_all add: cfg_done_def set_lastSentCfg_fields)

lemma drained_connected:
  "connected (drained s) = connected s" "pipe (drained s) = pipe s"
  by (simp_all add: drained_def cfg_done_up lang_done_def)

lemma completed_cfg_wire:
  assumes "transmit wr s = Next c" "desiredCfg k s = Some v" "lastSentCfg k s \<noteq> Some v"
  shows "sent_by (Cfg k) (sent c) = [cfg_wire k v]"
  unfolding cfg_wire_eq [symmetric] by (rule completed_cfg(1) [OF assms])

text \<open>
  C1. A disconnect from a connected client clears every last-sent record and keeps the
  desired values; a second call finds the client disconnected and changes nothing; and no
  setter touches a last-sent record. So in the state \<open>s1\<close> reached from the disconnect by
  producer calls, the successful connect and further producer calls, every toggle with a
  desired value is due: the first transmit phase, which runs to its end when no write
  fails, sends the toggle's line exactly once, with the value desired then, and records it
  as last sent. The line is \<open>CFG|<NAME>|1\<close> or \<open>CFG|<NAME>|0\<close> with the name of the toggle,
  and \<open>LANG|\<close> followed by the code for the language. In general a completed phase sends
  the line once when last-sent differs from desired; no phase, completed or aborted, sends
  it more than once, and none sends it while last-sent equals desired.
\<close>

theorem sticky_resend:
  "(connected s0 \<or> pipe s0 \<longrightarrow>
      lastSentCfg k (HandleDisconnect s0) = None
      \<and> lastSentGameLang (HandleDisconnect s0) = None
      \<and> desiredCfg k (HandleDisconnect s0) = desiredCfg k s0
      \<and> desiredGameLang (HandleDisconnect s0) = desiredGameLang s0)
   \<and> HandleDisconnect (HandleDisconnect s0) = HandleDisconnect s0
   \<and> lastSentCfg k (producer_calls cs s) = lastSentCfg k s
   \<and> lastSentGameLang (producer_calls cs s) = lastSentGameLang s
   \<and> ((connected s0 \<or> pipe s0)
        \<and> s1 = producer_calls cs2 (Connect (producer_calls cs1 (HandleDisconnect s0)))
        \<and> transmit wr s1 = Next c1 \<longrightarrow>
        (desiredCfg k s1 = Some v \<longrightarrow>
           sent_by (Cfg k) (sent c1) = [cfg_wire k v]
           \<and> lastSentCfg k (st c1) = Some v \<and> desiredCfg k (st c1) = Some v)
        \<and> (desiredGameLang s1 = Some d \<longrightarrow>
           sent_by Lang (sent c1) = [''LANG|'' @ d]
           \<and> lastSentGameLang (st c1) = Some d \<and> desiredGameLang (st c1) = Some d))
   \<and> (s1 = producer_calls cs2 (Connect (producer_calls cs1 (HandleDisconnect s0)))
        \<and> (\<forall>j. wr j) \<longrightarrow> (\<exists>c'. transmit wr s1 = Next c'))
   \<and> (transmit wr s = Next c \<and> desiredCfg k s = Some v \<and> lastSentCfg k s \<noteq> Some v \<longrightarrow>
        sent_by (Cfg k) (sent c) = [cfg_wire k v]
        \<and> lastSentCfg k (st c) = Some v)
   \<and> (transmit wr s = Next c \<and> desiredGameLang s = Some d \<and> lastSentGameLang s \<noteq> Some d \<longrightarrow>
        sent_by Lang (sent c) = [''LANG|'' @ d] \<and> lastSentGameLang (st c) = Some d)
   \<and> (transmit wr s = Next c \<or> transmit wr s = Goto_disconnect c \<longrightarrow>
        length (sent_by (Cfg k) (sent c)) \<le> 1 \<and> length (sent_by Lang (sent c)) \<le> 1
        \<and> (lastSentCfg k s = desiredCfg k s \<longrightarrow> sent_by (Cfg k) (sent c) = [])
        \<and> (lastSentGameLang s = desiredGameLang s \<longrightarrow> sent_by Lang (sent c) = []))"
proof -
  have a: "connected s0 \<or> pipe s0 \<longrightarrow>
      lastSentCfg k (HandleDisconnect s0) = None
      \<and> lastSentGameLang (HandleDisconnect s0) = None
      \<and> desiredCfg k (HandleDisconnect s0) = desiredCfg k s0
      \<and> desiredGameLang (HandleDisconnect s0) = desiredGameLang s0"
    using HandleDisconnect_clears(1) [of s0 k] HandleDisconnect_clears(2) [of s0]
      HandleDisconnect_clears(3) [of s0 k] HandleDisconnect_clears(4) [of s0]
    by blast
  have b: "lastSentCfg k (producer_calls cs s) = lastSentCfg k s"
    by (rule producer_calls_lastSent(1))
  have b': "lastSentGameLang (producer_calls cs s) = lastSentGameLang s"
    by (rule producer_calls_lastSent(2))
  have h: "(connected s0 \<or> pipe s0)
        \<and> s1 = producer_calls cs2 (Connect (producer_calls cs1 (HandleDisconnect s0)))
        \<and> transmit wr s1 = Next c1 \<longrightarrow>
        (desiredCfg k s1 = Some v \<longrightarrow>
           sent_by (Cfg k) (sent c1) = [cfg_wire k v]
           \<and> lastSentCfg k (st c1) = Some v \<and> desiredCfg k (st c1) = Some v)
        \<and> (desiredGameLang s1 = Some d \<longrightarrow>
           sent_by Lang (sent c1) = [''LANG|'' @ d]
           \<and> lastSentGameLang (st c1) = Some d \<and> desiredGameLang (st c1) = Some d)"
  proof (intro impI, elim conjE)
    assume u: "connected s0 \<or> pipe s0"
      and s: "s1 = producer_calls cs2 (Connect (producer_calls cs1 (HandleDisconnect s0)))"
      and t: "transmit wr s1 = Next c1"
    have n: "lastSentCfg k s1 = None" "lastSentGameLang s1 = None"
      unfolding s by (rule after_reconnect [OF u])+
    have x: "desiredCfg k s1 = Some v \<longrightarrow>
           sent_by (Cfg k) (sent c1) = [cfg_wire k v]
           \<and> lastSentCfg k (st c1) = Some v \<and> desiredCfg k (st c1) = Some v"
      using completed_cfg_wire [OF t, of k v] completed_cfg(2,3) [OF t, of k v] n(1) by simp
    have y: "desiredGameLang s1 = Some d \<longrightarrow>
           sent_by Lang (sent c1) = [''LANG|'' @ d]
           \<and> lastSentGameLang (st c1) = Some d \<and> desiredGameLang (st c1) = Some d"
      using completed_lang [OF t, of d] n(2) by simp
    from x y show "(desiredCfg k s1 = Some v \<longrightarrow>
           sent_by (Cfg k) (sent c1) = [cfg_wire k v]
           \<and> lastSentCfg k (st c1) = Some v \<and> desiredCfg k (st c1) = Some v)
        \<and> (desiredGameLang s1 = Some d \<longrightarrow>
           sent_by Lang (sent c1) = [''LANG|'' @ d]
           \<and> lastSentGameLang (st c1) = Some d \<and> desiredGameLang (st c1) = Some d)"
      by (rule conjI)
  qed
  have ok: "s1 = producer_calls cs2 (Connect (producer_calls cs1 (HandleDisconnect s0)))
        \<and> (\<forall>j. wr j) \<longrightarrow> (\<exists>c'. transmit wr s1 = Next c')"
    using transmit_ok [OF reconnected_up, of wr cs2 "producer_calls cs1 (HandleDisconnect s0)"]
    by blast
  have g: "transmit wr s = Next c \<and> desiredCfg k s = Some v \<and> lastSentCfg k s \<noteq> Some v \<longrightarrow>
        sent_by (Cfg k) (sent c) = [cfg_wire k v]
        \<and> lastSentCfg k (st c) = Some v"
    using completed_cfg_wire [of wr s c k v] completed_cfg(2) [of wr s c k v] by blast
  have g': "transmit wr s = Next c \<and> desiredGameLang s = Some d \<and> lastSentGameLang s \<noteq> Some d \<longrightarrow>
        sent_by Lang (sent c) = [''LANG|'' @ d] \<and> lastSentGameLang (st c) = Some d"
    using completed_lang(1,2) [of wr s c d] by blast
  have i: "transmit wr s = Next c \<or> transmit wr s = Goto_disconnect c \<longrightarrow>
        length (sent_by (Cfg k) (sent c)) \<le> 1 \<and> length (sent_by Lang (sent c)) \<le> 1
        \<and> (lastSentCfg k s = desiredCfg k s \<longrightarrow> sent_by (Cfg k) (sent c) = [])
        \<and> (lastSentGameLang s = desiredGameLang s \<longrightarrow> sent_by Lang (sent c) = [])"
    using at_most_once(1) [of wr s c k] at_most_once(2) [of wr s c]
      at_most_once(3) [of wr s c k] at_most_once(4) [of wr s c]
    by blast
  show ?thesis
    by (intro conjI)
       (rule a, rule HandleDisconnect_twice, rule b, rule b', rule h, rule ok, rule g, rule g',
        rule i)
qed

text \<open>
  The scenario of the specification: CFG-shouts is on, CFG-debug is off and the language is
  known, all three acknowledged, when the channel breaks. While the client is disconnected
  a producer turns CFG-shouts off. After the reconnect the first cycle sends the language
  and both toggles once, CFG-shouts with the value it has now, and the cycle after it sends
  nothing.
\<close>

theorem sticky_resend_witness:
  "\<exists>c. transmit (\<lambda>k. True)
          (producer_calls [Listen_call False]
            (Connect (producer_calls [Config_call CfgVoiceHandle False]
              (HandleDisconnect
                ((SendConfigDebug False (SendConfigShouts True (SendGameLanguage ''en''
                    (Connect (PipeClient_init :: int PipeClient)))))
                 \<lparr>lastSentCfgVoiceHandle := Some True, lastSentCfgDebug := Some False,
                   lastSentGameLang := Some ''en''\<rparr>))))) = Next c
     \<and> sent c = [(Lang, ''LANG|en''), (Listen, ''LISTEN|0''),
                  (Cfg CfgVoiceHandle, ''CFG|SHOUTS|0''), (Cfg CfgDebug, ''CFG|DEBUG|0'')]
     \<and> sent_by (Cfg CfgVoiceHandle) (sent c) = [''CFG|SHOUTS|0'']
     \<and> sent_by (Cfg CfgDebug) (sent c) = [''CFG|DEBUG|0'']
     \<and> sent_by Lang (sent c) = [''LANG|en'']
     \<and> lastSentCfgVoiceHandle (st c) = Some False
     \<and> lastSentCfgDebug (st c) = Some False
     \<and> (\<exists>c'. transmit (\<lambda>k. True) (st c) = Next c' \<and> sent c' = [])"
proof -
  let ?s0 = "(SendConfigDebug False (SendConfigShouts True (SendGameLanguage ''en''
                    (Connect (PipeClient_init :: int PipeClient)))))
                 \<lparr>lastSentCfgVoiceHandle := Some True, lastSentCfgDebug := Some False,
                   lastSentGameLang := Some ''en''\<rparr>"
  let ?s1 = "producer_calls [Listen_call False]
            (Connect (producer_calls [Config_call CfgVoiceHandle False] (HandleDisconnect ?s0)))"
  note defs = SendListen_def Connect_def SendConfigDebug_def HandleDisconnect_def
    SendConfigShouts_def SendGameLanguage_def SanitizeInPlace_def
  have u: "connected ?s0 \<or> pipe ?s0"
    by (simp add: defs)
  have up: "connected ?s1" "pipe ?s1"
    by (simp_all add: defs)
  have dv: "desiredCfg CfgVoiceHandle ?s1 = Some False" "desiredCfg CfgDebug ?s1 = Some False"
    "desiredGameLang ?s1 = Some ''en''"
    by (simp_all add: defs)
  note T = sticky_resend [where ?s0.0 = ?s0 and ?s1.0 = ?s1 and ?cs2.0 = "[Listen_call False]"
      and ?cs1.0 = "[Config_call CfgVoiceHandle False]" and wr = "\<lambda>k. True" and d = "''en''"
      and v = False]
  from T [where k = CfgVoiceHandle] obtain c where c: "transmit (\<lambda>k. True) ?s1 = Next c"
    by blast
  from T [where k = CfgVoiceHandle and ?c1.0 = c] u c dv
  have a: "sent_by (Cfg CfgVoiceHandle) (sent c) = [cfg_wire CfgVoiceHandle False]
      \<and> lastSentCfg CfgVoiceHandle (st c) = Some False"
    by blast
  from T [where k = CfgDebug and ?c1.0 = c] u c dv
  have b: "sent_by (Cfg CfgDebug) (sent c) = [cfg_wire CfgDebug False]
      \<and> lastSentCfg CfgDebug (st c) = Some False"
    by blast
  from T [where k = CfgDebug and ?c1.0 = c] u c dv
  have l: "sent_by Lang (sent c) = [''LANG|'' @ ''en'']"
    by blast
  from transmit_Next [OF c] have e: "sent c = due_lines ?s1" "st c = drained ?s1"
    by simp_all
  have w: "wire_due ?s1 = [(Lang, ''LANG|en''), (Listen, ''LISTEN|0''),
                  (Cfg CfgVoiceHandle, ''CFG|SHOUTS|0''), (Cfg CfgDebug, ''CFG|DEBUG|0'')]"
    by (simp add: wire_due_def cfg_order_def wire_lang_def wire_options_def wire_close_def
          wire_favorites_def wire_listen_def wire_cfg_def wire_listen_shouts_def defs
          PipeClient_init_def)
  have up2: "connected (st c)" "pipe (st c)"
    using transmit_Next [OF c] drained_connected [of ?s1] up by simp_all
  have n: "wire_due (drained ?s1) = []"
    by (simp add: wire_due_def cfg_order_def wire_lang_def wire_options_def wire_close_def
          wire_favorites_def wire_listen_def wire_cfg_def wire_listen_shouts_def
          drained_slots drained_lang drained_cfg defs PipeClient_init_def)
  from transmit_ok [OF up2, of "\<lambda>k. True"] obtain c' where
    c': "transmit (\<lambda>k. True) (st c) = Next c'" "sent c' = due_lines (st c)"
    by simp
  have "sent c' = []"
    unfolding c'(2) e(2) due_lines_wire by (rule n)
  with c'(1) have z: "\<exists>c'. transmit (\<lambda>k. True) (st c) = Next c' \<and> sent c' = []"
    by blast
  from e(1) w have f: "sent c = [(Lang, ''LANG|en''), (Listen, ''LISTEN|0''),
                  (Cfg CfgVoiceHandle, ''CFG|SHOUTS|0''), (Cfg CfgDebug, ''CFG|DEBUG|0'')]"
    by (simp only: due_lines_wire)
  from a b l have "sent_by (Cfg CfgVoiceHandle) (sent c) = [''CFG|SHOUTS|0'']
     \<and> sent_by (Cfg CfgDebug) (sent c) = [''CFG|DEBUG|0'']
     \<and> sent_by Lang (sent c) = [''LANG|en'']
     \<and> lastSentCfgVoiceHandle (st c) = Some False
     \<and> lastSentCfgDebug (st c) = Some False"
    by simp
  with c f z show ?thesis by blast
qed

section \<open>One-shot commands\<close>


































section \<open>Locks and channel calls\<close>

text \<open>
  What a function does to the three mutexes, to the outbound state shared with the producers
  and to the channel, in the order of its statements. A \<^verbatim>\<open>std::lock_guard\<close> is an
  \<open>Acquire\<close> where it is declared and a \<open>Release\<close> where its block is left, also when the
  block is left by \<^verbatim>\<open>goto disconnect\<close>. \<open>Outbound_access\<close> is an assignment to the sticky
  store or to the mailbox.
\<close>

datatype mutex = SendMutex | RespMutex | ConnMutex

datatype event =
    Acquire mutex
  | Release mutex
  | Outbound_access
  | WriteFile_call string
  | CloseHandle_call

fun is_io :: "event \<Rightarrow> bool" where
  "is_io (Acquire m) = False"
| "is_io (Release m) = False"
| "is_io Outbound_access = False"
| "is_io (WriteFile_call payload) = True"
| "is_io CloseHandle_call = True"

text \<open>\<open>held_io m held es\<close>: some channel call of \<open>es\<close> is made while \<open>m\<close> is held.\<close>

fun held_io :: "mutex \<Rightarrow> bool \<Rightarrow> event list \<Rightarrow> bool" where
  "held_io m held [] = False"
| "held_io m held (Acquire x # es) = held_io m (held \<or> x = m) es"
| "held_io m held (Release x # es) = held_io m (held \<and> x \<noteq> m) es"
| "held_io m held (Outbound_access # es) = held_io m held es"
| "held_io m held (WriteFile_call payload # es) = (held \<or> held_io m held es)"
| "held_io m held (CloseHandle_call # es) = (held \<or> held_io m held es)"

definition io_under :: "mutex \<Rightarrow> event list \<Rightarrow> bool" where
  "io_under m es = held_io m False es"

text \<open>\<open>guarded held es\<close>: every access of \<open>es\<close> to the outbound state is made while
  \<^verbatim>\<open>_sendMutex\<close> is held.\<close>

fun guarded :: "bool \<Rightarrow> event list \<Rightarrow> bool" where
  "guarded held [] = True"
| "guarded held (Acquire x # es) = guarded (held \<or> x = SendMutex) es"
| "guarded held (Release x # es) = guarded (held \<and> x \<noteq> SendMutex) es"
| "guarded held (Outbound_access # es) = (held \<and> guarded held es)"
| "guarded held (WriteFile_call payload # es) = guarded held es"
| "guarded held (CloseHandle_call # es) = guarded held es"

text \<open>
  A block that begins with \<^verbatim>\<open>std::lock_guard lg(m)\<close>, and a statement that assigns to the
  outbound state.
\<close>

definition lock_guard :: "mutex \<Rightarrow> ('s \<Rightarrow> event list \<times> 'a) \<Rightarrow> 's \<Rightarrow> event list \<times> 'a" where
  "lock_guard m body s = (case body s of (es, r) \<Rightarrow> (Acquire m # es @ [Release m], r))"

definition outbound :: "('s \<Rightarrow> 's) \<Rightarrow> 's \<Rightarrow> event list \<times> 's" where
  "outbound f s = ([Outbound_access], f s)"

text \<open>
  The setters with their locks: a \<^verbatim>\<open>lock_guard\<close> on \<^verbatim>\<open>_sendMutex\<close> around the one
  assignment. \<^verbatim>\<open>SendGameLanguage\<close> returns before the lock when the sanitised code is
  empty, \<^verbatim>\<open>SendAllFavorites\<close> builds its lines before the lock, and the five grammar-sync
  operations take no lock.
\<close>

fun producer_call_traced :: "call \<Rightarrow> 'f PipeClient \<Rightarrow> event list \<times> 'f PipeClient" where
  "producer_call_traced (Options_call options) s =
     lock_guard SendMutex (outbound (SendOptions options)) s"
| "producer_call_traced Close_call s = lock_guard SendMutex (outbound SendClose) s"
| "producer_call_traced (Listen_call on) s = lock_guard SendMutex (outbound (SendListen on)) s"
| "producer_call_traced (ListenShouts_call on) s =
     lock_guard SendMutex (outbound (SendListenShouts on)) s"
| "producer_call_traced (GameLanguage_call langCode) s =
     (if SanitizeInPlace langCode = [] then ([], s)
      else lock_guard SendMutex (outbound (SendGameLanguage langCode)) s)"
| "producer_call_traced (Config_call k enabled) s =
     lock_guard SendMutex (outbound (SendConfig k enabled)) s"
| "producer_call_traced (AllFavorites_call shouts powers weapons spells potions) s =
     lock_guard SendMutex (outbound (SendAllFavorites shouts powers weapons spells potions)) s"
| "producer_call_traced (ShoutsAllowed_call shouts) s = ([], SendShoutsAllowed shouts s)"
| "producer_call_traced (PowersAllowed_call powers) s = ([], SendPowersAllowed powers s)"
| "producer_call_traced (WeaponsAllowed_call weapons) s = ([], SendWeaponsAllowed weapons s)"
| "producer_call_traced (SpellsAllowed_call spells) s = ([], SendSpellsAllowed spells s)"
| "producer_call_traced (PotionsAllowed_call potions) s = ([], SendPotionsAllowed potions s)"

text \<open>
  The transmit phase: the \<^verbatim>\<open>lock_guard\<close> is the first statement of the block, every
  \<^verbatim>\<open>WriteLine\<close> of the cycle is called inside the block, and the lock is released at the
  closing brace or by the jump. The channel calls are those that \<open>WriteLine\<close> recorded in the
  cycle, the failing one included.
\<close>

fun flow_cycle :: "'a flow \<Rightarrow> 'a" where
  "flow_cycle (Goto_disconnect c) = c"
| "flow_cycle (Next c) = c"

definition transmit_traced ::
  "(nat \<Rightarrow> bool) \<Rightarrow> 'f PipeClient \<Rightarrow> event list \<times> 'f cycle flow" where
  "transmit_traced wr s =
     lock_guard SendMutex
       (\<lambda>s. (map WriteFile_call (calls (flow_cycle (transmit wr s))), transmit wr s)) s"

text \<open>
  \<^verbatim>\<open>HandleDisconnect\<close> closes the handle first and then takes \<^verbatim>\<open>_sendMutex\<close> for the
  resets and \<^verbatim>\<open>_connMutex\<close> for the event.
\<close>

definition HandleDisconnect_traced :: "'f PipeClient \<Rightarrow> event list \<times> 'f PipeClient" where
  "HandleDisconnect_traced s =
     (if \<not> connected s \<and> \<not> pipe s then ([], s)
      else
        (case (if pipe s then ([CloseHandle_call], s\<lparr>pipe := False\<rparr>) else ([], s)) of
           (e1, s1) \<Rightarrow>
        (case lock_guard SendMutex
                (outbound (\<lambda>s. s\<lparr>lastSentCfgOpen := None, lastSentCfgClose := None,
                   lastSentCfgVoiceHandle := None, lastSentCfgDebug := None,
                   lastSentCfgSaveWav := None, lastSentCfgDialogueSelect := None,
                   lastSentCfgWeapons := None, lastSentCfgSpells := None,
                   lastSentCfgPowers := None, lastSentCfgPotions := None,
                   lastSentGameLang := None\<rparr>))
                (s1\<lparr>connected := False\<rparr>) of
           (e2, s2) \<Rightarrow>
        (case lock_guard ConnMutex (\<lambda>s. ([], s\<lparr>connEvent := Some False\<rparr>)) s2 of
           (e3, s3) \<Rightarrow> (e1 @ e2 @ e3, s3)))))"

lemma HandleDisconnect_tied: "snd (HandleDisconnect_traced s) = HandleDisconnect s"
  by (cases s) (simp add: HandleDisconnect_traced_def HandleDisconnect_def lock_guard_def
        outbound_def)

lemma HandleDisconnect_trace:
  "fst (HandleDisconnect_traced s) =
     (if \<not> connected s \<and> \<not> pipe s then []
      else (if pipe s then [CloseHandle_call] else [])
        @ [Acquire SendMutex, Outbound_access, Release SendMutex, Acquire ConnMutex,
           Release ConnMutex])"
  by (simp add: HandleDisconnect_traced_def lock_guard_def outbound_def)

lemma held_io_writes:
  "held_io m held (map WriteFile_call xs @ es) = ((held \<and> xs \<noteq> []) \<or> held_io m held es)"
  by (induction xs) auto

lemma no_io_not_held: "list_all (\<lambda>e. \<not> is_io e) es \<Longrightarrow> \<not> held_io m held es"
proof (induction es arbitrary: held)
  case Nil
  then show ?case by simp
next
  case (Cons e es)
  then show ?case by (cases e) simp_all
qed

lemma producer_call_tied: "snd (producer_call_traced call s) = producer_call call s"
  by (cases call) (simp_all add: lock_guard_def outbound_def SendGameLanguage_def)

lemma producer_call_trace:
  "fst (producer_call_traced call s) = []
   \<or> fst (producer_call_traced call s) = [Acquire SendMutex, Outbound_access, Release SendMutex]"
  by (cases call) (simp_all add: lock_guard_def outbound_def)

lemma producer_call_no_io: "list_all (\<lambda>e. \<not> is_io e) (fst (producer_call_traced call s))"
  using producer_call_trace [of call s] by auto

lemma producer_call_guarded: "guarded False (fst (producer_call_traced call s))"
  using producer_call_trace [of call s] by auto

lemma producer_call_logged:
  "Outbound_access \<notin> set (fst (producer_call_traced call s)) \<Longrightarrow> producer_call call s = s"
  by (cases call)
     (simp_all add: lock_guard_def outbound_def SendGameLanguage_def SendShoutsAllowed_def
        SendPowersAllowed_def SendWeaponsAllowed_def SendSpellsAllowed_def
        SendPotionsAllowed_def split: if_splits)

lemma transmit_trace:
  assumes "transmit wr s = Next c \<or> transmit wr s = Goto_disconnect c"
  shows "fst (transmit_traced wr s)
      = Acquire SendMutex # map WriteFile_call (calls c) @ [Release SendMutex]"
    and "io_under SendMutex (fst (transmit_traced wr s)) \<longleftrightarrow> calls c \<noteq> []"
  using assms by (auto simp: transmit_traced_def lock_guard_def io_under_def held_io_writes)

text \<open>
  C9, as the code has it. A setter makes no channel call; it changes the outbound state only
  by an assignment made while it holds \<^verbatim>\<open>_sendMutex\<close>, and it holds the lock for that
  assignment only. \<^verbatim>\<open>HandleDisconnect\<close> closes the handle before it takes a lock. The
  transmit phase of the engine takes the same lock once, at its first statement, and makes
  every channel write of the cycle before it releases it: a completed cycle makes a channel
  call under the lock exactly when something is due, and a cycle aborted on an open channel
  has made its failing call under the lock. A producer that calls a setter during a transmit
  phase therefore waits until the writes of that phase are done.
\<close>

theorem lock_discipline:
  "snd (producer_call_traced call s) = producer_call call s
   \<and> list_all (\<lambda>e. \<not> is_io e) (fst (producer_call_traced call s))
   \<and> \<not> io_under SendMutex (fst (producer_call_traced call s))
   \<and> guarded False (fst (producer_call_traced call s))
   \<and> (fst (producer_call_traced call s) = []
      \<or> fst (producer_call_traced call s)
           = [Acquire SendMutex, Outbound_access, Release SendMutex])
   \<and> (Outbound_access \<notin> set (fst (producer_call_traced call s)) \<longrightarrow> producer_call call s = s)
   \<and> snd (HandleDisconnect_traced s) = HandleDisconnect s
   \<and> \<not> io_under SendMutex (fst (HandleDisconnect_traced s))
   \<and> guarded False (fst (HandleDisconnect_traced s))
   \<and> snd (transmit_traced wr s) = transmit wr s
   \<and> (transmit wr s = Next c \<or> transmit wr s = Goto_disconnect c \<longrightarrow>
        fst (transmit_traced wr s)
          = Acquire SendMutex # map WriteFile_call (calls c) @ [Release SendMutex]
        \<and> (io_under SendMutex (fst (transmit_traced wr s)) \<longleftrightarrow> calls c \<noteq> []))
   \<and> (transmit wr s = Next c \<longrightarrow>
        calls c = payloads (wire_due s)
        \<and> (io_under SendMutex (fst (transmit_traced wr s)) \<longleftrightarrow> wire_due s \<noteq> []))
   \<and> (transmit wr s = Goto_disconnect c \<and> connected s \<and> pipe s \<longrightarrow>
        calls c = payloads (sent c) @ [payloads (wire_due s) ! length (sent c)]
        \<and> io_under SendMutex (fst (transmit_traced wr s)))"
proof -
  have a: "list_all (\<lambda>e. \<not> is_io e) (fst (producer_call_traced call s))"
    by (rule producer_call_no_io)
  have b: "\<not> io_under SendMutex (fst (producer_call_traced call s))"
    unfolding io_under_def by (rule no_io_not_held [OF a])
  have l: "Outbound_access \<notin> set (fst (producer_call_traced call s)) \<longrightarrow>
      producer_call call s = s"
    using producer_call_logged [of call s] by blast
  have h1: "snd (HandleDisconnect_traced s) = HandleDisconnect s"
    by (rule HandleDisconnect_tied)
  have h2: "\<not> io_under SendMutex (fst (HandleDisconnect_traced s))"
    by (simp add: io_under_def HandleDisconnect_trace)
  have h3: "guarded False (fst (HandleDisconnect_traced s))"
    by (simp add: HandleDisconnect_trace)
  have t: "snd (transmit_traced wr s) = transmit wr s"
    by (simp add: transmit_traced_def lock_guard_def)
  have e: "transmit wr s = Next c \<or> transmit wr s = Goto_disconnect c \<longrightarrow>
        fst (transmit_traced wr s)
          = Acquire SendMutex # map WriteFile_call (calls c) @ [Release SendMutex]
        \<and> (io_under SendMutex (fst (transmit_traced wr s)) \<longleftrightarrow> calls c \<noteq> [])"
    using transmit_trace [of wr s c] by blast
  have f: "transmit wr s = Next c \<longrightarrow>
        calls c = payloads (wire_due s)
        \<and> (io_under SendMutex (fst (transmit_traced wr s)) \<longleftrightarrow> wire_due s \<noteq> [])"
  proof
    assume n: "transmit wr s = Next c"
    from transmit_Next [OF n] have "calls c = payloads (wire_due s)"
      by (simp add: due_lines_wire)
    moreover from n transmit_trace(2) [of wr s c]
    have "io_under SendMutex (fst (transmit_traced wr s)) \<longleftrightarrow> calls c \<noteq> []"
      by simp
    ultimately show "calls c = payloads (wire_due s)
        \<and> (io_under SendMutex (fst (transmit_traced wr s)) \<longleftrightarrow> wire_due s \<noteq> [])"
      by (simp add: payloads_def)
  qed
  have g: "transmit wr s = Goto_disconnect c \<and> connected s \<and> pipe s \<longrightarrow>
        calls c = payloads (sent c) @ [payloads (wire_due s) ! length (sent c)]
        \<and> io_under SendMutex (fst (transmit_traced wr s))"
  proof
    assume n: "transmit wr s = Goto_disconnect c \<and> connected s \<and> pipe s"
    with transmit_Goto(3) [of wr s c]
    have k: "calls c = payloads (sent c) @ [payloads (wire_due s) ! length (sent c)]"
      by (simp add: due_lines_wire)
    moreover from n transmit_trace(2) [of wr s c]
    have "io_under SendMutex (fst (transmit_traced wr s)) \<longleftrightarrow> calls c \<noteq> []"
      by simp
    ultimately show "calls c = payloads (sent c) @ [payloads (wire_due s) ! length (sent c)]
        \<and> io_under SendMutex (fst (transmit_traced wr s))"
      by simp
  qed
  show ?thesis
    by (intro conjI)
       (rule producer_call_tied, rule a, rule b, rule producer_call_guarded,
        rule producer_call_trace, rule l, rule h1, rule h2, rule h3, rule t, rule e, rule f,
        rule g)
qed

text \<open>
  A connected client with CFG-shouts due. The setter that made it due held the lock for the
  assignment only. With every write succeeding the cycle writes the line between taking and
  releasing the lock; with the write failing the cycle sends nothing, and the failing call
  was made between taking and releasing the lock all the same.
\<close>

theorem lock_discipline_witness:
  "producer_call_traced (Config_call CfgVoiceHandle True)
       (Connect (PipeClient_init :: int PipeClient))
     = ([Acquire SendMutex, Outbound_access, Release SendMutex],
        SendConfigShouts True (Connect PipeClient_init))
   \<and> (\<exists>c. transmit (\<lambda>k. True) (SendConfigShouts True (Connect (PipeClient_init :: int PipeClient)))
          = Next c
        \<and> sent c = [(Cfg CfgVoiceHandle, ''CFG|SHOUTS|1'')]
        \<and> fst (transmit_traced (\<lambda>k. True)
             (SendConfigShouts True (Connect (PipeClient_init :: int PipeClient))))
           = [Acquire SendMutex, WriteFile_call (''CFG|SHOUTS|1'' @ [CHR 0x0A]),
              Release SendMutex])
   \<and> (\<exists>c. transmit (\<lambda>k. False)
            (SendConfigShouts True (Connect (PipeClient_init :: int PipeClient)))
          = Goto_disconnect c
        \<and> sent c = []
        \<and> fst (transmit_traced (\<lambda>k. False)
             (SendConfigShouts True (Connect (PipeClient_init :: int PipeClient))))
           = [Acquire SendMutex, WriteFile_call (''CFG|SHOUTS|1'' @ [CHR 0x0A]),
              Release SendMutex])"
proof -
  let ?i = "Connect (PipeClient_init :: int PipeClient)"
  let ?s = "SendConfigShouts True ?i"
  note wire = wire_due_def cfg_order_def wire_lang_def wire_options_def wire_close_def
    wire_favorites_def wire_listen_def wire_cfg_def wire_listen_shouts_def
  have up: "connected ?s" "pipe ?s"
    by (simp_all add: SendConfigShouts_def Connect_def)
  have d: "wire_due ?s = [(Cfg CfgVoiceHandle, ''CFG|SHOUTS|1'')]"
    by (simp add: wire SendConfigShouts_def Connect_def PipeClient_init_def)
  have first: "producer_call_traced (Config_call CfgVoiceHandle True) ?i
     = ([Acquire SendMutex, Outbound_access, Release SendMutex], ?s)"
  proof -
    note T = lock_discipline [of "Config_call CfgVoiceHandle True" ?i "\<lambda>k. True" undefined]
    from T have "snd (producer_call_traced (Config_call CfgVoiceHandle True) ?i) = ?s"
      by simp
    moreover have "fst (producer_call_traced (Config_call CfgVoiceHandle True) ?i)
        = [Acquire SendMutex, Outbound_access, Release SendMutex]"
      by (simp add: lock_guard_def outbound_def)
    ultimately show ?thesis by (simp add: prod_eq_iff)
  qed
  have second: "\<exists>c. transmit (\<lambda>k. True) ?s = Next c
        \<and> sent c = [(Cfg CfgVoiceHandle, ''CFG|SHOUTS|1'')]
        \<and> fst (transmit_traced (\<lambda>k. True) ?s)
           = [Acquire SendMutex, WriteFile_call (''CFG|SHOUTS|1'' @ [CHR 0x0A]),
              Release SendMutex]"
  proof -
    from transmit_ok [OF up, of "\<lambda>k. True"] obtain c where
      c: "transmit (\<lambda>k. True) ?s = Next c" and sc: "sent c = due_lines ?s"
      by simp
    note T = lock_discipline [of Close_call ?s "\<lambda>k. True" c]
    from T c have "fst (transmit_traced (\<lambda>k. True) ?s)
          = Acquire SendMutex # map WriteFile_call (calls c) @ [Release SendMutex]"
      by blast
    moreover from T c have "calls c = payloads (wire_due ?s)"
      by blast
    ultimately have "fst (transmit_traced (\<lambda>k. True) ?s)
           = [Acquire SendMutex, WriteFile_call (''CFG|SHOUTS|1'' @ [CHR 0x0A]),
              Release SendMutex]"
      unfolding d by (simp add: payloads_def)
    with c sc d show ?thesis by (simp add: due_lines_wire)
  qed
  have third: "\<exists>c. transmit (\<lambda>k. False) ?s = Goto_disconnect c
        \<and> sent c = []
        \<and> fst (transmit_traced (\<lambda>k. False) ?s)
           = [Acquire SendMutex, WriteFile_call (''CFG|SHOUTS|1'' @ [CHR 0x0A]),
              Release SendMutex]"
  proof -
    obtain c where c: "transmit (\<lambda>k. False) ?s = Goto_disconnect c" and sc: "sent c = []"
      by (simp add: transmit_def and_then_def send_lang_def send_options_def send_close_def
            send_favorites_def send_listen_def send_cfg_def WriteLine_def
            SendConfigShouts_def Connect_def PipeClient_init_def)
    note T = lock_discipline [of Close_call ?s "\<lambda>k. False" c]
    from T c have "fst (transmit_traced (\<lambda>k. False) ?s)
          = Acquire SendMutex # map WriteFile_call (calls c) @ [Release SendMutex]"
      by blast
    moreover from T c up
    have "calls c = payloads (sent c) @ [payloads (wire_due ?s) ! length (sent c)]"
      by blast
    ultimately have "fst (transmit_traced (\<lambda>k. False) ?s)
           = [Acquire SendMutex, WriteFile_call (''CFG|SHOUTS|1'' @ [CHR 0x0A]),
              Release SendMutex]"
      unfolding d sc by (simp add: payloads_def)
    with c sc show ?thesis by blast
  qed
  from first second third show ?thesis by blast
qed

text \<open>
  The claim as stated fails on the same cycle: the write of \<open>CFG|SHOUTS|1\<close> is a channel
  call made while \<^verbatim>\<open>_sendMutex\<close> is held, and \<^verbatim>\<open>SendClose\<close>, called in that state, needs
  the same lock for its assignment.
\<close>

theorem io_under_send_lock_counterexample:
  "fst (transmit_traced (\<lambda>k. True)
          (SendConfigShouts True (Connect (PipeClient_init :: int PipeClient))))
     = [Acquire SendMutex, WriteFile_call (''CFG|SHOUTS|1'' @ [CHR 0x0A]), Release SendMutex]
   \<and> io_under SendMutex
       (fst (transmit_traced (\<lambda>k. True)
          (SendConfigShouts True (Connect (PipeClient_init :: int PipeClient)))))
   \<and> fst (producer_call_traced Close_call
          (SendConfigShouts True (Connect (PipeClient_init :: int PipeClient))))
     = [Acquire SendMutex, Outbound_access, Release SendMutex]"
proof -
  let ?s = "SendConfigShouts True (Connect (PipeClient_init :: int PipeClient))"
  have up: "connected ?s" "pipe ?s"
    by (simp_all add: SendConfigShouts_def Connect_def)
  have d: "due_lines ?s = [(Cfg CfgVoiceHandle, ''CFG|SHOUTS|1'')]"
    by (simp add: due_lines_wire wire_due_def cfg_order_def wire_lang_def wire_options_def
          wire_close_def wire_favorites_def wire_listen_def wire_cfg_def wire_listen_shouts_def
          SendConfigShouts_def Connect_def PipeClient_init_def)
  have t: "fst (transmit_traced (\<lambda>k. True) ?s)
     = [Acquire SendMutex, WriteFile_call (''CFG|SHOUTS|1'' @ [CHR 0x0A]), Release SendMutex]"
    by (simp add: transmit_traced_def lock_guard_def transmit_ok [OF up] d payloads_def)
  have i: "io_under SendMutex (fst (transmit_traced (\<lambda>k. True) ?s))"
    unfolding t by (simp add: io_under_def)
  have p: "fst (producer_call_traced Close_call ?s)
     = [Acquire SendMutex, Outbound_access, Release SendMutex]"
    by (simp add: lock_guard_def outbound_def)
  from t i p show ?thesis by blast
qed

end
